(* ===== verification/Go_Prelude.thy ===== *)
theory Go_Prelude
  imports Main "HOL-Library.Word"
begin

text \<open>
  The part of Go that every component of the SDK uses, and the automation the component
  proofs share.

  \<^item> A Go \<^verbatim>\<open>string\<close> and a Go \<^verbatim>\<open>[]byte\<close> are both sequences of 8-bit values. HOL's \<open>char\<close> is an
    8-bit value, so both are \<open>char list\<close>, and the conversions \<^verbatim>\<open>string(b)\<close> and \<^verbatim>\<open>[]byte(s)\<close> are
    the identity. The code never distinguishes a nil slice from an empty one.
  \<^item> A Go function that returns \<^verbatim>\<open>(T, error)\<close> returns a value of \<open>('e, 'a) res\<close>: \<open>Ok\<close>, \<open>Err\<close>, or
    \<open>Panic\<close> when the Go runtime panics (nil dereference, index out of range, send on a closed
    channel, failed type assertion, division by zero).
  \<^item> A method that changes its receiver, or that reads randomness, the clock or the network, is
    an action \<open>'s \<Rightarrow> ('e, 'a) res \<times> 's\<close> over the state it reads and writes.
  \<^item> \<open>int32\<close>, \<open>uint32\<close>, \<open>int64\<close> and \<open>uint64\<close> keep their width; the signed order of words is
    \<open>\<le>s\<close> and \<open><s\<close>.
\<close>

section \<open>Collections of facts\<close>

named_theorems res_elims \<open>what a successful result says of its parts\<close>
named_theorems keeps_intros \<open>how actions keep an invariant\<close>

section \<open>Types\<close>

type_synonym bytes = "char list"
type_synonym int32 = "32 word"
type_synonym uint32 = "32 word"
type_synonym int64 = "64 word"
type_synonym uint64 = "64 word"

datatype panic =
    NilDereference
  | IndexOutOfRange
  | SliceOutOfRange
  | NegativeLength
  | SendOnClosedChannel
  | CloseOfClosedChannel
  | FailedTypeAssertion
  | IntegerDivideByZero

datatype ('e, 'a) res = Ok 'a | Err 'e | Panic panic

type_synonym ('s, 'e, 'a) act = "'s \<Rightarrow> ('e, 'a) res \<times> 's"

section \<open>Results\<close>

primrec and_then :: "('e, 'a) res \<Rightarrow> ('a \<Rightarrow> ('e, 'b) res) \<Rightarrow> ('e, 'b) res" where
  "and_then (Ok a) f = f a"
| "and_then (Err e) f = Err e"
| "and_then (Panic p) f = Panic p"

primrec is_ok :: "('e, 'a) res \<Rightarrow> bool" where
  "is_ok (Ok a) = True"
| "is_ok (Err e) = False"
| "is_ok (Panic p) = False"

primrec is_panic :: "('e, 'a) res \<Rightarrow> bool" where
  "is_panic (Ok a) = False"
| "is_panic (Err e) = False"
| "is_panic (Panic p) = True"

lemma and_then_Ok_iff [simp]:
  "and_then r f = Ok b \<longleftrightarrow> (\<exists>a. r = Ok a \<and> f a = Ok b)"
  by (cases r) auto

lemma is_ok_iff: "is_ok r \<longleftrightarrow> (\<exists>a. r = Ok a)"
  by (cases r) auto

lemma is_panic_iff: "is_panic r \<longleftrightarrow> (\<exists>p. r = Panic p)"
  by (cases r) auto

lemma and_then_no_panic:
  assumes "\<not> is_panic r" and "\<And>a. r = Ok a \<Longrightarrow> \<not> is_panic (f a)"
  shows "\<not> is_panic (and_then r f)"
  using assms by (cases r) auto

section \<open>Actions\<close>

definition ret :: "'a \<Rightarrow> ('s, 'e, 'a) act" where
  "ret a = (\<lambda>s. (Ok a, s))"

definition throw :: "'e \<Rightarrow> ('s, 'e, 'a) act" where
  "throw e = (\<lambda>s. (Err e, s))"

definition crash :: "panic \<Rightarrow> ('s, 'e, 'a) act" where
  "crash p = (\<lambda>s. (Panic p, s))"

definition of_res :: "('e, 'a) res \<Rightarrow> ('s, 'e, 'a) act" where
  "of_res r = (\<lambda>s. (r, s))"

definition bnd :: "('s, 'e, 'a) act \<Rightarrow> ('a \<Rightarrow> ('s, 'e, 'b) act) \<Rightarrow> ('s, 'e, 'b) act" where
  "bnd m f = (\<lambda>s. case m s of
       (Ok a, s') \<Rightarrow> f a s'
     | (Err e, s') \<Rightarrow> (Err e, s')
     | (Panic p, s') \<Rightarrow> (Panic p, s'))"

definition gets :: "('s \<Rightarrow> 'a) \<Rightarrow> ('s, 'e, 'a) act" where
  "gets f = (\<lambda>s. (Ok (f s), s))"

definition modify :: "('s \<Rightarrow> 's) \<Rightarrow> ('s, 'e, unit) act" where
  "modify f = (\<lambda>s. (Ok (), f s))"

text \<open>\<open>if err := m(); err != nil { ... }\<close> where the branch looks at the error and goes on.\<close>

definition attempt :: "('s, 'e, 'a) act \<Rightarrow> ('e \<Rightarrow> ('s, 'e, 'b) act) \<Rightarrow> ('a \<Rightarrow> ('s, 'e, 'b) act) \<Rightarrow> ('s, 'e, 'b) act" where
  "attempt m h f = (\<lambda>s. case m s of
       (Ok a, s') \<Rightarrow> f a s'
     | (Err e, s') \<Rightarrow> h e s'
     | (Panic p, s') \<Rightarrow> (Panic p, s'))"

lemmas act_defs = ret_def throw_def crash_def of_res_def gets_def modify_def

lemma ret_apply [simp]: "ret a s = (Ok a, s)"
  and throw_apply [simp]: "throw e s = (Err e, s)"
  and crash_apply [simp]: "crash p s = (Panic p, s)"
  and of_res_apply [simp]: "of_res r s = (r, s)"
  and gets_apply [simp]: "gets f s = (Ok (f s), s)"
  and modify_apply [simp]: "modify h s = (Ok (), h s)"
  by (simp_all add: act_defs)

lemma bnd_ret [simp]: "bnd (ret a) f = f a"
  and bnd_gets_apply [simp]: "bnd (gets g) f s = f (g s) s"
  and bnd_modify_apply [simp]: "bnd (modify h) k s = k () (h s)"
  and bnd_throw [simp]: "bnd (throw e) f = throw e"
  and bnd_crash [simp]: "bnd (crash p) f = crash p"
  by (simp_all add: bnd_def act_defs fun_eq_iff)

lemma bnd_of_res_Ok [simp]: "bnd (of_res (Ok a)) f = f a"
  and bnd_of_res_Err [simp]: "bnd (of_res (Err e)) f = throw e"
  and bnd_of_res_Panic [simp]: "bnd (of_res (Panic p)) f = crash p"
  by (simp_all add: bnd_def act_defs fun_eq_iff)

lemma bnd_Ok: "m s = (Ok a, s') \<Longrightarrow> bnd m f s = f a s'"
  and bnd_Err: "m s = (Err e, s') \<Longrightarrow> bnd m f s = (Err e, s')"
  and bnd_Panic: "m s = (Panic p, s') \<Longrightarrow> bnd m f s = (Panic p, s')"
  by (simp_all add: bnd_def)

lemma fst_bnd_Panic: "fst (m s) = Panic p \<Longrightarrow> fst (bnd m f s) = Panic p"
  by (auto simp: bnd_def split: prod.splits res.splits)

lemma bnd_OkE [elim!, res_elims]:
  assumes "bnd m f s = (Ok b, t)"
  obtains a s' where "m s = (Ok a, s')" and "f a s' = (Ok b, t)"
  using assms by (auto simp: bnd_def split: prod.splits res.splits)

lemma of_res_OkE [elim!, res_elims]:
  assumes "of_res r s = (Ok a, t)"
  obtains "r = Ok a" and "t = s"
  using assms by simp

lemma bnd_assoc: "bnd (bnd m f) g = bnd m (\<lambda>a. bnd (f a) g)"
  by (auto simp: bnd_def fun_eq_iff split: prod.splits res.splits)

subsection \<open>Invariants of actions\<close>

text \<open>
  \<open>keeps P m\<close>: from a state with \<open>P\<close>, the action ends in a state with \<open>P\<close>, whether it
  returns, fails or panics.
\<close>

definition keeps :: "('s \<Rightarrow> bool) \<Rightarrow> ('s, 'e, 'a) act \<Rightarrow> bool" where
  "keeps P m \<longleftrightarrow> (\<forall>s. P s \<longrightarrow> P (snd (m s)))"

lemma keepsD: "keeps P m \<Longrightarrow> P s \<Longrightarrow> P (snd (m s))"
  by (simp add: keeps_def)

lemma keepsD_eq: "keeps P m \<Longrightarrow> P s \<Longrightarrow> m s = (r, t) \<Longrightarrow> P t"
  by (metis keepsD snd_conv)

lemma keeps_ret [keeps_intros]: "keeps P (ret a)"
  and keeps_throw [keeps_intros]: "keeps P (throw e)"
  and keeps_crash [keeps_intros]: "keeps P (crash p)"
  and keeps_of_res [keeps_intros]: "keeps P (of_res r)"
  and keeps_gets [keeps_intros]: "keeps P (gets g)"
  by (simp_all add: keeps_def)

lemma keeps_modify [keeps_intros]: "(\<And>s. P s \<Longrightarrow> P (f s)) \<Longrightarrow> keeps P (modify f)"
  by (simp add: keeps_def)

lemma keeps_bnd [keeps_intros]:
  assumes "keeps P m" and "\<And>a. keeps P (f a)"
  shows "keeps P (bnd m f)"
  using assms by (auto simp: keeps_def bnd_def split: prod.splits res.splits)

lemma keeps_attempt [keeps_intros]:
  assumes "keeps P m" and "\<And>e. keeps P (h e)" and "\<And>a. keeps P (f a)"
  shows "keeps P (attempt m h f)"
  using assms by (auto simp: keeps_def attempt_def split: prod.splits res.splits)

lemma keeps_if [keeps_intros]:
  "(b \<Longrightarrow> keeps P m) \<Longrightarrow> (\<not> b \<Longrightarrow> keeps P n) \<Longrightarrow> keeps P (if b then m else n)"
  by simp

lemma keeps_case_option [keeps_intros]:
  "keeps P m \<Longrightarrow> (\<And>x. keeps P (f x)) \<Longrightarrow> keeps P (case z of None \<Rightarrow> m | Some x \<Rightarrow> f x)"
  by (cases z) auto

subsection \<open>Objects in an environment\<close>

text \<open>
  An operation of an object that also uses the environment (the network, the clock, randomness) is
  an action over the pair of the two.
\<close>

definition env :: "('w, 'e, 'a) act \<Rightarrow> ('o \<times> 'w, 'e, 'a) act" where
  "env m = (\<lambda>(ob, w). case m w of (r, w') \<Rightarrow> (r, (ob, w')))"

definition env_val :: "('w \<Rightarrow> 'a \<times> 'w) \<Rightarrow> ('o \<times> 'w, 'e, 'a) act" where
  "env_val m = (\<lambda>(ob, w). case m w of (a, w') \<Rightarrow> (Ok a, (ob, w')))"

definition obj :: "('o \<Rightarrow> 'a) \<Rightarrow> ('o \<times> 'w, 'e, 'a) act" where
  "obj f = gets (\<lambda>(ob, w). f ob)"

definition upd :: "('o \<Rightarrow> 'o) \<Rightarrow> ('o \<times> 'w, 'e, unit) act" where
  "upd f = modify (\<lambda>(ob, w). (f ob, w))"

lemma env_apply [simp]: "env m (ob, w) = (fst (m w), (ob, snd (m w)))"
  by (simp add: env_def split: prod.splits)

lemma env_val_apply [simp]: "env_val m (ob, w) = (Ok (fst (m w)), (ob, snd (m w)))"
  by (simp add: env_val_def split: prod.splits)

lemma obj_apply [simp]: "obj f (ob, w) = (Ok (f ob), (ob, w))"
  by (simp add: obj_def)

lemma upd_apply [simp]: "upd f (ob, w) = (Ok (), (f ob, w))"
  by (simp add: upd_def)

lemma bnd_obj [simp]: "bnd (obj f) k (ob, w) = k (f ob) (ob, w)"
  and bnd_upd [simp]: "bnd (upd g) k' (ob, w) = k' () (g ob, w)"
  and bnd_env_val [simp]: "bnd (env_val m) k'' (ob, w) = k'' (fst (m w)) (ob, snd (m w))"
  by (simp_all add: bnd_def)

lemma env_OkE [elim!, res_elims]:
  assumes "env m (ob, w) = (Ok a, t)"
  obtains w' where "m w = (Ok a, w')" and "t = (ob, w')"
  using assms by (cases "m w") auto

lemma keeps_env [keeps_intros]: "(\<And>ob w w'. P (ob, w) \<Longrightarrow> P (ob, w')) \<Longrightarrow> keeps P (env m)"
  and keeps_env_val [keeps_intros]: "(\<And>ob w w'. P (ob, w) \<Longrightarrow> P (ob, w')) \<Longrightarrow> keeps P (env_val m')"
  by (auto simp: keeps_def)

lemma keeps_obj [keeps_intros]: "keeps P (obj f)"
  by (auto simp: keeps_def)

lemma keeps_upd [keeps_intros]: "(\<And>ob w. P (ob, w) \<Longrightarrow> P (g ob, w)) \<Longrightarrow> keeps P (upd g)"
  by (auto simp: keeps_def)

text \<open>An action on one component of the object.\<close>

definition focus :: "('o \<Rightarrow> 'c) \<Rightarrow> ('c \<Rightarrow> 'o \<Rightarrow> 'o) \<Rightarrow> ('c, 'e, 'a) act \<Rightarrow> ('o \<times> 'w, 'e, 'a) act" where
  "focus getf setf m = (\<lambda>(ob, w). case m (getf ob) of (r, c) \<Rightarrow> (r, (setf c ob, w)))"

lemma focus_apply [simp]: "focus g s m (ob, w) = (fst (m (g ob)), (s (snd (m (g ob))) ob, w))"
  by (simp add: focus_def split: prod.splits)

lemma keeps_focus [keeps_intros]: "(\<And>c ob w. P (ob, w) \<Longrightarrow> P (s c ob, w)) \<Longrightarrow> keeps P (focus g s m)"
  by (auto simp: keeps_def)

text \<open>What the first action establishes about its value may be used for the second.\<close>

lemma keeps_bnd_post:
  assumes "keeps P m" and "\<And>s a s'. P s \<Longrightarrow> m s = (Ok a, s') \<Longrightarrow> Q a" and "\<And>a. Q a \<Longrightarrow> keeps P (f a)"
  shows "keeps P (bnd m f)"
  unfolding keeps_def
proof (intro allI impI)
  fix s assume s: "P s"
  obtain r s' where m: "m s = (r, s')" by fastforce
  with assms(1) s have s': "P s'" by (metis keepsD_eq)
  show "P (snd (bnd m f s))"
  proof (cases r)
    case (Ok a)
    with m assms(2) [OF s] have "Q a" by blast
    then have "keeps P (f a)" by (rule assms(3))
    with s' m Ok show ?thesis by (simp add: bnd_Ok keepsD)
  qed (use m s' in \<open>simp_all add: bnd_Err bnd_Panic\<close>)
qed

lemma keeps_case_prod [keeps_intros]:
  "(\<And>a b. z = (a, b) \<Longrightarrow> keeps P (f a b)) \<Longrightarrow> keeps P (case z of (a, b) \<Rightarrow> f a b)"
  by (cases z) simp

section \<open>State machines\<close>

text \<open>
  The interface of a component that runs as a state machine: its start states, its steps and an
  invariant. The invariant holds in every state a run can reach.
\<close>

locale invariant_system =
  fixes start :: "'s \<Rightarrow> bool"
    and step :: "'s \<Rightarrow> 's \<Rightarrow> bool"
    and inv :: "'s \<Rightarrow> bool"
  assumes start_inv: "start s \<Longrightarrow> inv s"
    and step_inv: "inv s \<Longrightarrow> step s t \<Longrightarrow> inv t"
begin

lemma steps_inv: "step\<^sup>*\<^sup>* s t \<Longrightarrow> inv s \<Longrightarrow> inv t"
  by (induction rule: rtranclp_induct) (auto intro: step_inv)

lemma reachable_inv: "start s \<Longrightarrow> step\<^sup>*\<^sup>* s t \<Longrightarrow> inv t"
  by (blast intro: start_inv steps_inv)

end

section \<open>Signed words\<close>

lemma sless_sint: "(a :: 'n::len word) <s b \<longleftrightarrow> sint a < sint b"
  by (simp add: word_sless_alt)

lemma sle_sint: "(a :: 'n::len word) \<le>s b \<longleftrightarrow> sint a \<le> sint b"
  by (simp add: word_sle_eq)

lemma sint_add_small:
  assumes "- (2 ^ 63) \<le> sint a + sint b" and "sint a + sint b < 2 ^ 63"
  shows "sint ((a :: 64 word) + b) = sint a + sint b"
  using assms by (simp add: sint_word_ariths signed_take_bit_int_eq_self)

lemma sint_sub_small:
  assumes "- (2 ^ 63) \<le> sint a - sint b" and "sint a - sint b < 2 ^ 63"
  shows "sint ((a :: 64 word) - b) = sint a - sint b"
  using assms by (simp add: sint_word_ariths signed_take_bit_int_eq_self)

lemma sint64_range: "- (2 ^ 63) \<le> sint (a :: 64 word)" "sint (a :: 64 word) < 2 ^ 63"
  using sint_ge [of a] sint_lt [of a] by simp_all

end
