(* ===== verification/Go_Strings.thy ===== *)
theory Go_Strings
  imports Go_Prelude
begin

text \<open>
  What the SDK uses of Go's \<^verbatim>\<open>strconv\<close>, \<^verbatim>\<open>strings\<close> and \<^verbatim>\<open>encoding/hex\<close>: decimal printing,
  splitting and joining at a dot, hexadecimal encoding, and Go's \<^verbatim>\<open>copy\<close> into a fixed array.
\<close>

section \<open>Decimal printing\<close>

definition digit_char :: "nat \<Rightarrow> char" where
  "digit_char d = char_of (48 + d)"

definition is_digit :: "char \<Rightarrow> bool" where
  "is_digit c \<longleftrightarrow> 48 \<le> (of_char c :: nat) \<and> (of_char c :: nat) \<le> 57"

fun nat_digits :: "nat \<Rightarrow> string" where
  "nat_digits n = (if n < 10 then [digit_char n] else nat_digits (n div 10) @ [digit_char (n mod 10)])"

declare nat_digits.simps [simp del]

text \<open>\<^verbatim>\<open>strconv.Itoa\<close>.\<close>

definition Itoa :: "int \<Rightarrow> string" where
  "Itoa i = (if i < 0 then CHR ''-'' # nat_digits (nat (- i)) else nat_digits (nat i))"

lemma of_char_digit: "d < 10 \<Longrightarrow> (of_char (digit_char d) :: nat) = 48 + d"
  by (simp add: digit_char_def)

lemma digit_char_inj: "d < 10 \<Longrightarrow> e < 10 \<Longrightarrow> digit_char d = digit_char e \<longleftrightarrow> d = e"
  by (metis add_left_cancel of_char_digit)

lemma is_digit_digit_char [simp]: "d < 10 \<Longrightarrow> is_digit (digit_char d)"
  by (simp add: is_digit_def of_char_digit)

lemma nat_digits_nonempty [simp]: "nat_digits n \<noteq> []"
  by (subst nat_digits.simps) simp

lemma nat_digits_digits: "\<forall>c \<in> set (nat_digits n). is_digit c"
proof (induction n rule: nat_digits.induct)
  case (1 n)
  then show ?case by (subst nat_digits.simps) auto
qed

lemma nat_digits_inj: "nat_digits m = nat_digits n \<Longrightarrow> m = n"
proof (induction m arbitrary: n rule: nat_digits.induct)
  case (1 m)
  show ?case
  proof (cases "m < 10")
    case True
    with "1.prems" show ?thesis
      by (auto simp: nat_digits.simps [of m] nat_digits.simps [of n] digit_char_inj nat_digits_nonempty [symmetric]
          split: if_splits)
  next
    case False
    with "1.prems" have eq: "nat_digits (m div 10) = nat_digits (n div 10)"
      and last: "digit_char (m mod 10) = digit_char (n mod 10)" and n: "\<not> n < 10"
      by (auto simp: nat_digits.simps [of m] nat_digits.simps [of n] split: if_splits)
    from last have "m mod 10 = n mod 10" by (simp add: digit_char_inj)
    moreover from False eq have "m div 10 = n div 10" by (rule "1.IH")
    ultimately show ?thesis by (metis div_mult_mod_eq)
  qed
qed

lemma Itoa_nonneg: "0 \<le> i \<Longrightarrow> Itoa i = nat_digits (nat i)"
  by (simp add: Itoa_def)

lemma Itoa_inj_nonneg: "0 \<le> i \<Longrightarrow> 0 \<le> j \<Longrightarrow> Itoa i = Itoa j \<longleftrightarrow> i = j"
  by (auto simp: Itoa_nonneg dest: nat_digits_inj)

section \<open>Splitting and joining at a dot\<close>

abbreviation dot :: char where "dot \<equiv> CHR ''.''"

text \<open>\<^verbatim>\<open>strings.Split(s, ".")\<close>: always at least one part.\<close>

fun Split :: "string \<Rightarrow> string list" where
  "Split [] = [[]]"
| "Split (c # cs) = (if c = dot then [] # Split cs
     else (case Split cs of [] \<Rightarrow> [[c]] | p # ps \<Rightarrow> (c # p) # ps))"

text \<open>\<^verbatim>\<open>strings.Join(ps, ".")\<close>.\<close>

fun Join :: "string list \<Rightarrow> string" where
  "Join [] = []"
| "Join [p] = p"
| "Join (p # q # ps) = p @ dot # Join (q # ps)"

text \<open>\<^verbatim>\<open>strings.SplitN(s, ".", 2)\<close>: the part before the first dot and all that follows it.\<close>

fun SplitN2 :: "string \<Rightarrow> string list" where
  "SplitN2 s = (if dot \<in> set s then [takeWhile (\<lambda>c. c \<noteq> dot) s, tl (dropWhile (\<lambda>c. c \<noteq> dot) s)] else [s])"

lemma Split_nonempty [simp]: "Split s \<noteq> []"
  by (induction s) (auto split: list.splits)

lemma Join_Cons: "ps \<noteq> [] \<Longrightarrow> Join (p # ps) = p @ dot # Join ps"
  by (cases ps) auto

lemma Join_Cons_Cons: "Join ((c # p) # ps) = c # Join (p # ps)"
  by (cases ps) auto

lemma Join_Split [simp]: "Join (Split s) = s"
  by (induction s) (auto simp: Join_Cons Join_Cons_Cons split: list.splits)

lemma Split_no_dot: "p \<in> set (Split s) \<Longrightarrow> dot \<notin> set p"
  by (induction s arbitrary: p) (auto split: list.splits if_splits)

lemma Split_prefix: "dot \<notin> set p \<Longrightarrow> Split (p @ dot # s) = p # Split s"
  by (induction p) auto

lemma Split_plain: "dot \<notin> set p \<Longrightarrow> Split p = [p]"
  by (induction p) auto

lemma Split_Join: "ps \<noteq> [] \<Longrightarrow> \<forall>p \<in> set ps. dot \<notin> set p \<Longrightarrow> Split (Join ps) = ps"
  by (induction ps rule: Join.induct) (auto simp: Split_prefix Split_plain)

lemma SplitN2_prefix: "dot \<notin> set p \<Longrightarrow> SplitN2 (p @ dot # s) = [p, s]"
  by (auto simp: takeWhile_append dropWhile_append)

section \<open>Hexadecimal\<close>

definition hex_digit :: "nat \<Rightarrow> char" where
  "hex_digit d = (if d < 10 then char_of (48 + d) else char_of (87 + d))"

definition hex_value :: "char \<Rightarrow> nat option" where
  "hex_value c = (let n = of_char c :: nat in
     if 48 \<le> n \<and> n \<le> 57 then Some (n - 48)
     else if 97 \<le> n \<and> n \<le> 102 then Some (n - 87)
     else if 65 \<le> n \<and> n \<le> 70 then Some (n - 55)
     else None)"

text \<open>\<^verbatim>\<open>hex.EncodeToString\<close>: two lower-case digits for each byte.\<close>

fun hex_encode :: "bytes \<Rightarrow> string" where
  "hex_encode [] = []"
| "hex_encode (b # bs) =
     hex_digit ((of_char b :: nat) div 16) # hex_digit ((of_char b :: nat) mod 16) # hex_encode bs"

text \<open>\<^verbatim>\<open>hex.DecodeString\<close>: fails on an odd length and on a character that is no digit.\<close>

fun hex_decode :: "string \<Rightarrow> bytes option" where
  "hex_decode [] = Some []"
| "hex_decode [c] = None"
| "hex_decode (c # d # cs) =
     (case (hex_value c, hex_value d, hex_decode cs) of
        (Some h, Some l, Some bs) \<Rightarrow> Some (char_of (16 * h + l) # bs)
      | _ \<Rightarrow> None)"

lemma hex_value_digit: "d < 16 \<Longrightarrow> hex_value (hex_digit d) = Some d"
  by (simp add: hex_value_def hex_digit_def)

lemma hex_decode_encode [simp]: "hex_decode (hex_encode bs) = Some bs"
proof (induction bs)
  case Nil
  then show ?case by simp
next
  case (Cons b bs)
  have "(of_char b :: nat) < 256" by (rule nat_of_char_less_256)
  then have "(of_char b :: nat) div 16 < 16" by (simp add: less_mult_imp_div_less)
  then show ?case by (simp add: Cons.IH hex_value_digit)
qed

lemma length_hex_encode [simp]: "length (hex_encode bs) = 2 * length bs"
  by (induction bs) auto

section \<open>Copying into a fixed array\<close>

text \<open>
  \<^verbatim>\<open>var a [n]byte; copy(a[:], src)\<close>: the first \<open>n\<close> bytes of \<open>src\<close>, the rest of the array zero.
\<close>

definition zero_byte :: char where
  "zero_byte = char_of (0 :: nat)"

definition copy_array :: "nat \<Rightarrow> bytes \<Rightarrow> bytes" where
  "copy_array n src = take n src @ replicate (n - length src) zero_byte"

lemma copy_array_exact [simp]: "length src = n \<Longrightarrow> copy_array n src = src"
  by (simp add: copy_array_def)

lemma length_copy_array [simp]: "length (copy_array n src) = n"
  by (simp add: copy_array_def)

text \<open>
  \<^verbatim>\<open>buf := make([]byte, n); f(buf[:0], ...)\<close> where \<open>f\<close> appends \<open>out\<close> to its argument: the
  append writes into \<open>buf\<close> as long as it fits, and into a fresh array otherwise, leaving \<open>buf\<close>
  all zero.
\<close>

definition append_into :: "nat \<Rightarrow> bytes \<Rightarrow> bytes" where
  "append_into n out =
     (if length out \<le> n then out @ replicate (n - length out) zero_byte else replicate n zero_byte)"

lemma append_into_exact [simp]: "length out = n \<Longrightarrow> append_into n out = out"
  by (simp add: append_into_def)

lemma length_append_into [simp]: "length (append_into n out) = n"
  by (simp add: append_into_def)

section \<open>URLs\<close>

text \<open>
  \<^verbatim>\<open>url.URL.String\<close> for a URL that has a scheme and a host only: the characters that a host may not
  contain are percent-encoded, and an empty host leaves the scheme alone.
\<close>

definition host_plain :: "char \<Rightarrow> bool" where
  "host_plain c \<longleftrightarrow> (let n = of_char c :: nat in 48 \<le> n \<and> n \<le> 57 \<or> 65 \<le> n \<and> n \<le> 90 \<or> 97 \<le> n \<and> n \<le> 122) \<or>
     c \<in> set (''!$&()*+,;=:[]<>-_.~'' @ [CHR 0x22, CHR 0x27])"

definition upper_hex :: "nat \<Rightarrow> char" where
  "upper_hex d = char_of (if d < 10 then 48 + d else 55 + d)"

definition escape_host :: "string \<Rightarrow> string" where
  "escape_host s = concat (map (\<lambda>c. if host_plain c then [c]
     else (let n = of_char c :: nat in [CHR ''%'', upper_hex (n div 16), upper_hex (n mod 16)])) s)"

definition url_string :: "string \<Rightarrow> string \<Rightarrow> string" where
  "url_string scheme host = scheme @ '':'' @ (if host = [] then [] else ''//'' @ escape_host host)"

end
