(* ===== verification/Nkn_Errors.thy ===== *)
theory Nkn_Errors
  imports Go_Strings
begin

text \<open>
  The error values of \<^verbatim>\<open>src/error.go\<close>. The sentinel errors are constructors; an error made by
  library code is an \<open>ExternalError\<close> with its message; \<^verbatim>\<open>errorWithCode\<close> wraps an error with a code;
  \<open>MultiError\<close> is the list that \<^verbatim>\<open>multierror.Append\<close> collects.
\<close>

datatype err =
    ErrClosed
  | ErrKeyNotInMap
  | ErrInvalidPayloadType
  | ErrConnectFailed
  | ErrNoDestination
  | ErrInvalidDestination
  | ErrInvalidPubkeyOrName
  | ErrInvalidPubkeySize
  | ErrInvalidPubkey
  | ErrMessageOversize
  | ErrNilWebsocketConn
  | ErrDecryptFailed
  | ErrAddrNotAllowed
  | ErrCreateClientFailed
  | ErrNilClient
  | ErrNotNanoPay
  | ErrWrongRecipient
  | ErrNanoPayClosed
  | ErrInsufficientBalance
  | ErrInvalidAmount
  | ErrExpiredNanoPay
  | ErrExpiredNanoPayTxn
  | ErrWrongPassword
  | ErrInvalidWalletVersion
  | ErrUnencryptedMessage
  | ErrResolveLimit
  | ErrInvalidResolver
  | ExternalError string
  | errorWithCode err int32
  | MultiError "err list"

type_synonym 'a result = "(err, 'a) res"

definition errCodeNetworkError :: int32 where "errCodeNetworkError = - 50001"
definition errCodeDecodeError :: int32 where "errCodeDecodeError = - 50002"
definition errCodeEncodeError :: int32 where "errCodeEncodeError = - 50003"
definition errCodeCanceled :: int32 where "errCodeCanceled = - 50003"

lemmas errCode_defs = errCodeNetworkError_def errCodeDecodeError_def errCodeEncodeError_def
  errCodeCanceled_def

text \<open>\<^verbatim>\<open>errorWithCode.Code\<close>; the other errors do not implement \<^verbatim>\<open>ErrorWithCode\<close>.\<close>

fun Code :: "err \<Rightarrow> int32 option" where
  "Code (errorWithCode e c) = Some c"
| "Code _ = None"

text \<open>
  Max client message size in bytes (\<^verbatim>\<open>maxClientMessageSize\<close> of \<^verbatim>\<open>src/client.go\<close>), which the text of
  \<open>ErrMessageOversize\<close> names.
\<close>

definition maxClientMessageSize :: nat where "maxClientMessageSize = 4000000"

text \<open>
  \<^verbatim>\<open>Error()\<close>. The text of \<open>ErrInvalidWalletVersion\<close> names the vault's two version bounds, which
  are constants of the node's package and so parameters here. The text of a \<open>MultiError\<close> is
  the library's; it is a parameter too.
\<close>

fun error_msg :: "int \<Rightarrow> int \<Rightarrow> (err list \<Rightarrow> string) \<Rightarrow> err \<Rightarrow> string" where
  "error_msg lo hi me ErrClosed = ''use of closed network connection''"
| "error_msg lo hi me ErrKeyNotInMap = ''key not in map''"
| "error_msg lo hi me ErrInvalidPayloadType = ''invalid payload type''"
| "error_msg lo hi me ErrConnectFailed = ''connect failed''"
| "error_msg lo hi me ErrNoDestination = ''no destination''"
| "error_msg lo hi me ErrInvalidDestination = ''invalid destination''"
| "error_msg lo hi me ErrInvalidPubkeyOrName = ''invalid public key or name''"
| "error_msg lo hi me ErrInvalidPubkeySize = ''invalid public key size''"
| "error_msg lo hi me ErrInvalidPubkey = ''invalid public key''"
| "error_msg lo hi me ErrMessageOversize =
     ''encoded message is greater than '' @ Itoa (int maxClientMessageSize) @ '' bytes''"
| "error_msg lo hi me ErrNilWebsocketConn = ''nil websocket connection''"
| "error_msg lo hi me ErrDecryptFailed = ''decrypt message failed''"
| "error_msg lo hi me ErrAddrNotAllowed = ''address not allowed''"
| "error_msg lo hi me ErrCreateClientFailed = ''failed to create client''"
| "error_msg lo hi me ErrNilClient = ''client is nil''"
| "error_msg lo hi me ErrNotNanoPay = ''not nano pay transaction''"
| "error_msg lo hi me ErrWrongRecipient = ''wrong nano pay recipient''"
| "error_msg lo hi me ErrNanoPayClosed = ''use of closed nano pay claimer''"
| "error_msg lo hi me ErrInsufficientBalance = ''insufficient balance''"
| "error_msg lo hi me ErrInvalidAmount = ''invalid amount''"
| "error_msg lo hi me ErrExpiredNanoPay = ''nanopay expired''"
| "error_msg lo hi me ErrExpiredNanoPayTxn = ''nanopay transaction expired''"
| "error_msg lo hi me ErrWrongPassword = ''wrong password''"
| "error_msg lo hi me ErrInvalidWalletVersion =
     ''invalid wallet version, should be between '' @ Itoa lo @ '' and '' @ Itoa hi"
| "error_msg lo hi me ErrUnencryptedMessage = ''message is unencrypted''"
| "error_msg lo hi me ErrResolveLimit = ''resolve depth exceeded''"
| "error_msg lo hi me ErrInvalidResolver = ''resolver doesn''@ CHR 0x27 # ''t implement Resolver interface''"
| "error_msg lo hi me (ExternalError s) = s"
| "error_msg lo hi me (errorWithCode e c) = error_msg lo hi me e"
| "error_msg lo hi me (MultiError es) = me es"

text \<open>\<^verbatim>\<open>hex.DecodeString\<close>; the text of its error is abbreviated to the package name.\<close>

definition DecodeString :: "string \<Rightarrow> bytes result" where
  "DecodeString s = (case hex_decode s of Some b \<Rightarrow> Ok b | None \<Rightarrow> Err (ExternalError ''encoding/hex''))"

lemma DecodeString_encode [simp]: "DecodeString (hex_encode b) = Ok b"
  by (simp add: DecodeString_def hex_decode_encode)

end
