(* ===== verification/Nkn_Address.thy ===== *)
theory Nkn_Address
  imports Nkn_Errors
begin

text \<open>
  Client addresses and the identifiers a multiclient puts in front of them
  (\<^verbatim>\<open>src/util.go\<close> and \<^verbatim>\<open>src/multiclient.go\<close>): \<^verbatim>\<open>__3__.identifier.pubkey\<close> is the address of
  sub-client 3 of the multiclient \<^verbatim>\<open>identifier.pubkey\<close>. Sub-client ids are Go \<^verbatim>\<open>int\<close>s; the original
  client, whose address carries no prefix, has id -1.
\<close>

section \<open>Address values\<close>

record client_addr =
  ca_addr :: string

definition NewClientAddr :: "string \<Rightarrow> client_addr" where
  "NewClientAddr addr = \<lparr>ca_addr = addr\<rparr>"

definition ClientAddr_Network :: "client_addr \<Rightarrow> string" where
  "ClientAddr_Network a = ''nkn''"

definition ClientAddr_String :: "client_addr \<Rightarrow> string" where
  "ClientAddr_String a = ca_addr a"

lemma ClientAddr_String_New [simp]: "ClientAddr_String (NewClientAddr a) = a"
  by (simp add: ClientAddr_String_def NewClientAddr_def)

section \<open>Identifier prefixes\<close>

definition addIdentifierPrefix :: "string \<Rightarrow> string \<Rightarrow> string" where
  "addIdentifierPrefix base prefix =
     (if length base = 0 then prefix
      else if length prefix = 0 then base
      else prefix @ ''.'' @ base)"

definition addIdentifier :: "string \<Rightarrow> int \<Rightarrow> string" where
  "addIdentifier addr i =
     (if i < 0 then addr else addIdentifierPrefix addr (''__'' @ Itoa i @ ''__''))"

text \<open>\<^verbatim>\<open>multiClientIdentifierRe.MatchString\<close> for the expression \<^verbatim>\<open>^__\d+__$\<close>.\<close>

definition multiClientIdentifierRe :: "string \<Rightarrow> bool" where
  "multiClientIdentifierRe s =
     (let n = length s in
      5 \<le> n \<and> take 2 s = ''__'' \<and> drop (n - 2) s = ''__'' \<and> list_all is_digit (take (n - 4) (drop 2 s)))"

definition removeIdentifier :: "string \<Rightarrow> string \<times> string" where
  "removeIdentifier src =
     (let s = SplitN2 src in
      if length s > 1 \<and> multiClientIdentifierRe (s ! 0) then (s ! 1, s ! 0) else (src, ''''))"

definition addMultiClientPrefix :: "string list \<Rightarrow> int \<Rightarrow> string list" where
  "addMultiClientPrefix dest clientID = map (\<lambda>addr. addIdentifier addr clientID) dest"

definition addMultiClientPrefixForAllSubClients :: "string list \<Rightarrow> int list \<Rightarrow> string list" where
  "addMultiClientPrefixForAllSubClients dest clientIDs =
     (if length clientIDs = 0 then dest
      else concat (map (\<lambda>addr. map (\<lambda>clientID. addIdentifier addr clientID) clientIDs) dest))"

definition sessionKey :: "string \<Rightarrow> bytes \<Rightarrow> string" where
  "sessionKey remoteAddr sessionID = remoteAddr @ sessionID"

section \<open>Addresses and keys\<close>

text \<open>
  Parsing a client address, checking a public key and computing a program hash and its text are
  functions of the node's packages; they are parameters. \<open>sha256\<close> is the hash of
  \<^verbatim>\<open>crypto/sha256\<close>.
\<close>

definition addressToID :: "(bytes \<Rightarrow> bytes) \<Rightarrow> string \<Rightarrow> bytes" where
  "addressToID sha256 addr = sha256 addr"

definition ClientAddrToPubKey ::
  "(string \<Rightarrow> (bytes \<times> bytes \<times> string) result) \<Rightarrow> (bytes \<Rightarrow> unit result) \<Rightarrow> string \<Rightarrow> bytes result" where
  "ClientAddrToPubKey ParseClientAddress CheckPublicKey clientAddr =
     and_then (ParseClientAddress clientAddr) (\<lambda>(_, pk, _).
       and_then (CheckPublicKey pk) (\<lambda>_. Ok pk))"

definition PubKeyToWalletAddr :: "(bytes \<Rightarrow> 'h result) \<Rightarrow> ('h \<Rightarrow> string result) \<Rightarrow> bytes \<Rightarrow> string result" where
  "PubKeyToWalletAddr CreateProgramHash ToAddress pubKey =
     and_then (CreateProgramHash pubKey) (\<lambda>programHash. ToAddress programHash)"

definition ClientAddrToWalletAddr ::
  "(string \<Rightarrow> (bytes \<times> bytes \<times> string) result) \<Rightarrow> (bytes \<Rightarrow> unit result) \<Rightarrow>
   (bytes \<Rightarrow> 'h result) \<Rightarrow> ('h \<Rightarrow> string result) \<Rightarrow> string \<Rightarrow> string result" where
  "ClientAddrToWalletAddr ParseClientAddress CheckPublicKey CreateProgramHash ToAddress clientAddr =
     and_then (ClientAddrToPubKey ParseClientAddress CheckPublicKey clientAddr) (\<lambda>pk.
       PubKeyToWalletAddr CreateProgramHash ToAddress pk)"

definition VerifyWalletAddress :: "(string \<Rightarrow> 'h result) \<Rightarrow> string \<Rightarrow> unit result" where
  "VerifyWalletAddress ToScriptHash address = and_then (ToScriptHash address) (\<lambda>_. Ok ())"

section \<open>Lemmas\<close>

definition sub_id :: "int \<Rightarrow> string" where
  "sub_id i = ''__'' @ Itoa i @ ''__''"

lemma addIdentifier_nonneg:
  "0 \<le> i \<Longrightarrow> addr \<noteq> [] \<Longrightarrow> addIdentifier addr i = sub_id i @ dot # addr"
  by (simp add: addIdentifier_def addIdentifierPrefix_def sub_id_def)

lemma addIdentifier_empty: "0 \<le> i \<Longrightarrow> addIdentifier [] i = sub_id i"
  by (simp add: addIdentifier_def addIdentifierPrefix_def sub_id_def)

lemma addIdentifier_neg [simp]: "i < 0 \<Longrightarrow> addIdentifier addr i = addr"
  by (simp add: addIdentifier_def)

lemma not_digit [simp]: "\<not> is_digit dot" "\<not> is_digit (CHR ''_'')"
  by (simp_all add: is_digit_def)

lemma Itoa_digits: "0 \<le> i \<Longrightarrow> c \<in> set (Itoa i) \<Longrightarrow> is_digit c"
  using nat_digits_digits by (auto simp: Itoa_nonneg)

lemma sub_id_no_dot: "0 \<le> i \<Longrightarrow> dot \<notin> set (sub_id i)"
  by (auto simp: sub_id_def dest: Itoa_digits)

lemma sub_id_inj: "0 \<le> i \<Longrightarrow> 0 \<le> j \<Longrightarrow> sub_id i = sub_id j \<longleftrightarrow> i = j"
  by (simp add: sub_id_def Itoa_inj_nonneg)

lemma sub_id_matches:
  assumes "0 \<le> i"
  shows "multiClientIdentifierRe (sub_id i)"
proof -
  have ne: "Itoa i \<noteq> []" using assms by (simp add: Itoa_nonneg)
  then have "5 \<le> length (sub_id i)" by (simp add: sub_id_def Suc_le_eq)
  moreover have "list_all is_digit (Itoa i)"
    using assms by (simp add: list_all_iff Itoa_digits)
  ultimately show ?thesis
    by (simp add: multiClientIdentifierRe_def sub_id_def)
qed

lemma removeIdentifier_prefixed:
  assumes "dot \<notin> set p" and "multiClientIdentifierRe p"
  shows "removeIdentifier (p @ dot # s) = (s, p)"
  using assms SplitN2_prefix [of p s] by (simp add: removeIdentifier_def Let_def del: SplitN2.simps)

lemma removeIdentifier_addIdentifier:
  "0 \<le> i \<Longrightarrow> addr \<noteq> [] \<Longrightarrow> removeIdentifier (addIdentifier addr i) = (addr, sub_id i)"
  by (simp add: addIdentifier_nonneg removeIdentifier_prefixed sub_id_no_dot sub_id_matches)

text \<open>An address is plain when it carries no identifier of its own.\<close>

definition plain_addr :: "string \<Rightarrow> bool" where
  "plain_addr a \<longleftrightarrow> a \<noteq> [] \<and> removeIdentifier a = (a, '''')"

lemma removeIdentifier_addIdentifier_plain:
  "plain_addr a \<Longrightarrow> removeIdentifier (addIdentifier a i) = (a, if i < 0 then '''' else sub_id i)"
  by (simp add: plain_addr_def removeIdentifier_addIdentifier)

lemma sub_id_nonempty [simp]: "sub_id i \<noteq> []"
  by (simp add: sub_id_def)

lemma addIdentifier_inj:
  assumes "plain_addr a" and "plain_addr b" and "-1 \<le> i" and "-1 \<le> j"
    and eq: "addIdentifier a i = addIdentifier b j"
  shows "a = b \<and> i = j"
proof -
  have "(a, if i < 0 then [] else sub_id i) = (b, if j < 0 then [] else sub_id j)"
    using removeIdentifier_addIdentifier_plain [OF assms(1), of i]
      removeIdentifier_addIdentifier_plain [OF assms(2), of j] eq by metis
  then have "a = b" and tags: "(if i < 0 then [] else sub_id i) = (if j < 0 then [] else sub_id j)"
    by simp_all
  moreover have "i = j"
    using tags assms(3,4) sub_id_nonempty sub_id_nonempty [symmetric]
    by (auto simp: sub_id_inj split: if_splits)
  ultimately show ?thesis by simp
qed

lemma plain_if_no_dot: "a \<noteq> [] \<Longrightarrow> dot \<notin> set a \<Longrightarrow> plain_addr a"
  by (simp add: plain_addr_def removeIdentifier_def Let_def)

lemma set_addMultiClientPrefixForAllSubClients:
  "ids \<noteq> [] \<Longrightarrow> set (addMultiClientPrefixForAllSubClients ds ids) = {addIdentifier d i | d i. d \<in> set ds \<and> i \<in> set ids}"
  by (auto simp: addMultiClientPrefixForAllSubClients_def)

lemma length_addMultiClientPrefixForAllSubClients:
  "ids \<noteq> [] \<Longrightarrow> length (addMultiClientPrefixForAllSubClients ds ids) = length ds * length ids"
  by (simp add: addMultiClientPrefixForAllSubClients_def length_concat comp_def sum_list_triv)

lemma distinct_concat_map:
  assumes "distinct xs" and "\<And>x. x \<in> set xs \<Longrightarrow> distinct (f x)"
    and "\<And>x y. x \<in> set xs \<Longrightarrow> y \<in> set xs \<Longrightarrow> x \<noteq> y \<Longrightarrow> set (f x) \<inter> set (f y) = {}"
  shows "distinct (concat (map f xs))"
  using assms
proof (induction xs)
  case Nil
  then show ?case by simp
next
  case (Cons x xs)
  have "set (f x) \<inter> set (f y) = {}" if "y \<in> set xs" for y
    using Cons.prems that by (intro Cons.prems(3)) auto
  with Cons show ?case by fastforce
qed

section \<open>Properties\<close>

text \<open>
  C38: a sub-client's address carries its id and nothing else. For any address that has no
  multiclient identifier of its own, adding the identifier of sub-client \<open>i\<close> and removing it
  again gives the address back together with the identifier, and the two sub-addresses of two
  (address, id) pairs are equal only if the pairs are.
\<close>

theorem identifier_roundtrip:
  assumes "plain_addr a" and "plain_addr b" and "-1 \<le> i" and "-1 \<le> j"
  shows "removeIdentifier (addIdentifier a i) = (a, if i = -1 then [] else ''__'' @ Itoa i @ ''__'')
    \<and> (addIdentifier a i = addIdentifier b j \<longleftrightarrow> a = b \<and> i = j)"
proof -
  have "i < 0 \<longleftrightarrow> i = -1" using assms(3) by auto
  with assms(1) have "removeIdentifier (addIdentifier a i) = (a, if i = -1 then [] else ''__'' @ Itoa i @ ''__'')"
    by (simp add: removeIdentifier_addIdentifier_plain sub_id_def)
  then show ?thesis using addIdentifier_inj [OF assms] by blast
qed

theorem identifier_roundtrip_witness:
  "removeIdentifier (addIdentifier ''abc'' 12) = (''abc'', ''__12__'')
   \<and> addIdentifier ''abc'' 12 \<noteq> addIdentifier ''abc'' (-1)"
proof -
  have p: "plain_addr ''abc''" by (rule plain_if_no_dot) auto
  have i12: "Itoa 12 = ''12''" by code_simp
  show ?thesis
    using identifier_roundtrip [OF p p, of 12 "-1"] by (simp add: i12)
qed

text \<open>
  cross send addresses every sub-client of every destination exactly once. With distinct
  plain destinations and distinct sub-client ids, the expanded list has one entry for each pair,
  no entry twice, and removing the identifier of any entry gives one of the destinations.
\<close>

theorem cross_send_addresses:
  assumes "distinct ds" and "\<forall>d \<in> set ds. plain_addr d" and "distinct ids" and "\<forall>i \<in> set ids. -1 \<le> i"
    and "ids \<noteq> []"
  shows "distinct (addMultiClientPrefixForAllSubClients ds ids)
    \<and> length (addMultiClientPrefixForAllSubClients ds ids) = length ds * length ids
    \<and> fst ` removeIdentifier ` set (addMultiClientPrefixForAllSubClients ds ids) = set ds"
proof (intro conjI)
  have inj: "addIdentifier d i = addIdentifier e j \<longleftrightarrow> d = e \<and> i = j"
    if "d \<in> set ds" "e \<in> set ds" "i \<in> set ids" "j \<in> set ids" for d e i j
    using that assms(2,4) addIdentifier_inj by blast
  show "distinct (addMultiClientPrefixForAllSubClients ds ids)"
    using assms(1,3,5)
    by (auto simp: addMultiClientPrefixForAllSubClients_def distinct_map inj_on_def inj
        intro!: distinct_concat_map)
  show "length (addMultiClientPrefixForAllSubClients ds ids) = length ds * length ids"
    using assms(5) by (rule length_addMultiClientPrefixForAllSubClients)
  have "fst (removeIdentifier (addIdentifier d i)) = d" if "d \<in> set ds" for d i
    using that assms(2) by (simp add: removeIdentifier_addIdentifier_plain)
  moreover obtain i where "i \<in> set ids" using assms(5) by (cases ids) auto
  ultimately show "fst ` removeIdentifier ` set (addMultiClientPrefixForAllSubClients ds ids) = set ds"
    unfolding set_addMultiClientPrefixForAllSubClients [OF assms(5)] by (force simp: image_iff)
qed

theorem cross_send_addresses_witness:
  "distinct (addMultiClientPrefixForAllSubClients [''aa'', ''bb''] [-1, 0, 1])
   \<and> length (addMultiClientPrefixForAllSubClients [''aa'', ''bb''] [-1, 0, 1]) = 6"
proof -
  have p: "\<forall>d \<in> set [''aa'', ''bb'']. plain_addr d"
    by (auto intro!: plain_if_no_dot)
  have d: "distinct [''aa'', ''bb'']" and i: "distinct [-1, 0, 1 :: int]" "\<forall>i \<in> set [-1, 0, 1 :: int]. -1 \<le> i" "[-1, 0, 1 :: int] \<noteq> []"
    by simp_all
  show ?thesis
    using cross_send_addresses [OF d p i] by simp
qed

text \<open>
  the key under which a multiclient keeps a session determines the remote address and the
  session id among session ids of one length, as the ids the SDK generates are. It does not in
  general: the key is the plain concatenation, and a session id received from the network may
  have any length.
\<close>

theorem sessionKey_injective:
  "(length s = length t \<longrightarrow> (sessionKey a s = sessionKey b t \<longleftrightarrow> a = b \<and> s = t))
   \<and> sessionKey ''pk1'' ''.pk2id'' = sessionKey ''pk1.pk2'' ''id''"
  by (auto simp: sessionKey_def)

theorem sessionKey_injective_witness:
  "sessionKey ''a'' ''12345678'' \<noteq> sessionKey ''b'' ''12345678''"
  using sessionKey_injective [of "''12345678''" "''12345678''" "''a''" "''b''"] by simp

end
