(* ===== verification/Nkn_Events.thy ===== *)
theory Nkn_Events
  imports Nkn_Errors
begin

text \<open>
  The event channels of \<^verbatim>\<open>src/util.go\<close> (\<^verbatim>\<open>OnConnect\<close>, \<^verbatim>\<open>OnMessage\<close>, \<^verbatim>\<open>OnError\<close>,
  \<^verbatim>\<open>OnMessageEvent\<close>) and the values they carry: \<^verbatim>\<open>Node\<close> of \<^verbatim>\<open>src/rpc.go\<close>, \<^verbatim>\<open>Message\<close> of
  \<^verbatim>\<open>src/message.go\<close>, \<^verbatim>\<open>MessageEvent\<close> of \<^verbatim>\<open>src/util.go\<close>.

  A Go channel is its buffer, its capacity and whether it is closed. Sending on a closed channel
  and closing it twice panic, also in a \<^verbatim>\<open>select\<close> with a default branch. An event type holds a
  channel and an optional callback; the calls made to the callback are recorded in the order
  they are made. The log lines the code writes when it drops a value are not modelled.
\<close>

section \<open>Go channels\<close>

record 'a chan =
  ch_buf :: "'a list"
  ch_cap :: nat
  ch_closed :: bool

definition make_chan :: "nat \<Rightarrow> 'a chan" where
  "make_chan n = \<lparr>ch_buf = [], ch_cap = n, ch_closed = False\<rparr>"

text \<open>\<^verbatim>\<open>select { case c <- v: default: }\<close> on a buffered channel.\<close>

definition chan_try_send :: "'a \<Rightarrow> ('a chan, 'e, unit) act" where
  "chan_try_send v c =
     (if ch_closed c then (Panic SendOnClosedChannel, c)
      else if length (ch_buf c) < ch_cap c then (Ok (), c\<lparr>ch_buf := ch_buf c @ [v]\<rparr>)
      else (Ok (), c))"

definition chan_close :: "('a chan, 'e, unit) act" where
  "chan_close c = (if ch_closed c then (Panic CloseOfClosedChannel, c) else (Ok (), c\<lparr>ch_closed := True\<rparr>))"

text \<open>
  \<^verbatim>\<open><-c\<close>: a buffered value first; then the zero value (nil) of a closed channel; otherwise the
  receiver blocks.
\<close>

datatype 'a recv = Received 'a | ReceivedNil | Blocks

definition chan_recv :: "'a chan \<Rightarrow> 'a recv \<times> 'a chan" where
  "chan_recv c = (case ch_buf c of
       v # vs \<Rightarrow> (Received v, c\<lparr>ch_buf := vs\<rparr>)
     | [] \<Rightarrow> (if ch_closed c then ReceivedNil else Blocks, c))"

section \<open>Event types\<close>

record 'a on_event =
  oe_C :: "'a chan"
  oe_Callback :: bool
  oe_calls :: "'a list"

definition new_on_event :: "nat \<Rightarrow> bool \<Rightarrow> 'a on_event" where
  "new_on_event sz cb = \<lparr>oe_C = make_chan sz, oe_Callback = cb, oe_calls = []\<rparr>"

definition on_receive :: "'a \<Rightarrow> ('a on_event, 'e, unit) act" where
  "on_receive v ev =
     (if oe_Callback ev then (Ok (), ev\<lparr>oe_calls := oe_calls ev @ [v]\<rparr>)
      else (case chan_try_send v (oe_C ev) of (r, ch) \<Rightarrow> (r, ev\<lparr>oe_C := ch\<rparr>)))"

definition on_close :: "('a on_event, 'e, unit) act" where
  "on_close ev = (case chan_close (oe_C ev) of (r, ch) \<Rightarrow> (r, ev\<lparr>oe_C := ch\<rparr>))"

definition on_next :: "'a on_event \<Rightarrow> 'a recv \<times> 'a on_event" where
  "on_next ev = (case chan_recv (oe_C ev) of (r, ch) \<Rightarrow> (r, ev\<lparr>oe_C := ch\<rparr>))"

definition on_maybe_next :: "'a on_event \<Rightarrow> 'a option \<times> 'a on_event" where
  "on_maybe_next ev = (case on_next ev of
       (Received v, ev') \<Rightarrow> (Some v, ev')
     | (ReceivedNil, ev') \<Rightarrow> (None, ev')
     | (Blocks, ev') \<Rightarrow> (None, ev'))"

text \<open>
  \<^verbatim>\<open>NextWithTimeout\<close> when nothing arrives before the timer fires; a value that arrives earlier is a
  \<open>receive\<close> that happens before.
\<close>

definition on_next_timeout :: "int32 \<Rightarrow> 'a on_event \<Rightarrow> 'a recv \<times> 'a on_event" where
  "on_next_timeout timeout ev =
     (if timeout = 0 then on_next ev
      else (case on_maybe_next ev of (Some v, ev') \<Rightarrow> (Received v, ev') | (None, ev') \<Rightarrow> (ReceivedNil, ev')))"

lemmas on_event_defs = make_chan_def chan_try_send_def chan_close_def chan_recv_def new_on_event_def
  on_receive_def on_close_def on_next_def on_maybe_next_def on_next_timeout_def

section \<open>Nodes, messages, message events\<close>

record node =
  nd_Addr :: string
  nd_RPCAddr :: string
  nd_PubKey :: string
  nd_ID :: string
  nd_Sdp :: string

definition BinaryType :: int32 where "BinaryType = 0"
definition TextType :: int32 where "TextType = 1"
definition AckType :: int32 where "AckType = 2"
definition SessionType :: int32 where "SessionType = 3"

lemmas payload_type_defs = BinaryType_def TextType_def AckType_def SessionType_def

text \<open>
  The \<^verbatim>\<open>reply\<close> field of a message is a closure. It is one of the closures the code makes: none
  at all (nil, for a received reply), the one that does nothing, or one that sends a reply to
  \<open>src\<close> for \<open>messageID\<close> through the client or the multiclient.
\<close>

datatype reply_fn =
    NilReply
  | IgnoreReply
  | SendReply string bytes bool

record message =
  m_Src :: string
  m_Data :: bytes
  m_Type :: int32
  m_Encrypted :: bool
  m_MessageID :: bytes
  m_NoReply :: bool
  m_reply :: reply_fn

datatype message_event_type =
    MessageEventTypeSend
  | MessageEventTypeSendSuccess
  | MessageEventTypeSendFailed
  | MessageEventTypeReceive
  | MessageEventTypeReceiveReply

record message_event =
  me_Type :: message_event_type
  me_ClientAddr :: string
  me_SubClientID :: int32
  me_Destinations :: "string list option"
  me_Src :: string
  me_MessageID :: bytes
  me_MessageType :: int32
  me_Encrypted :: bool
  me_DataSize :: nat
  me_NoReply :: bool
  me_Error :: "err option"
  me_Timestamp :: int64

section \<open>The four event types of the SDK\<close>

text \<open>\<^verbatim>\<open>OnConnect\<close> carries a node pointer, which may be nil.\<close>

definition NewOnConnect :: "nat \<Rightarrow> bool \<Rightarrow> node option on_event" where "NewOnConnect = new_on_event"
definition OnConnect_Next :: "node option on_event \<Rightarrow> node option recv \<times> node option on_event" where "OnConnect_Next = on_next"
definition OnConnect_MaybeNext :: "node option on_event \<Rightarrow> node option option \<times> node option on_event" where "OnConnect_MaybeNext = on_maybe_next"
definition OnConnect_receive :: "node option \<Rightarrow> (node option on_event, err, unit) act" where "OnConnect_receive = on_receive"
definition OnConnect_close :: "(node option on_event, err, unit) act" where "OnConnect_close = on_close"

definition NewOnMessage :: "nat \<Rightarrow> bool \<Rightarrow> message on_event" where "NewOnMessage = new_on_event"
definition OnMessage_Next :: "message on_event \<Rightarrow> message recv \<times> message on_event" where "OnMessage_Next = on_next"
definition OnMessage_MaybeNext :: "message on_event \<Rightarrow> message option \<times> message on_event" where "OnMessage_MaybeNext = on_maybe_next"
definition OnMessage_NextWithTimeout :: "int32 \<Rightarrow> message on_event \<Rightarrow> message recv \<times> message on_event" where "OnMessage_NextWithTimeout = on_next_timeout"
definition OnMessage_receive :: "message \<Rightarrow> (message on_event, err, unit) act" where "OnMessage_receive = on_receive"
definition OnMessage_close :: "(message on_event, err, unit) act" where "OnMessage_close = on_close"

definition NewOnError :: "nat \<Rightarrow> bool \<Rightarrow> err on_event" where "NewOnError = new_on_event"
definition OnError_Next :: "err on_event \<Rightarrow> err recv \<times> err on_event" where "OnError_Next = on_next"
definition OnError_MaybeNext :: "err on_event \<Rightarrow> err option \<times> err on_event" where "OnError_MaybeNext = on_maybe_next"
definition OnError_receive :: "err \<Rightarrow> (err on_event, err, unit) act" where "OnError_receive = on_receive"
definition OnError_close :: "(err on_event, err, unit) act" where "OnError_close = on_close"

definition NewOnMessageEvent :: "nat \<Rightarrow> bool \<Rightarrow> message_event on_event" where "NewOnMessageEvent = new_on_event"
definition OnMessageEvent_Next :: "message_event on_event \<Rightarrow> message_event recv \<times> message_event on_event" where "OnMessageEvent_Next = on_next"
definition OnMessageEvent_MaybeNext :: "message_event on_event \<Rightarrow> message_event option \<times> message_event on_event" where "OnMessageEvent_MaybeNext = on_maybe_next"
definition OnMessageEvent_NextWithTimeout :: "int32 \<Rightarrow> message_event on_event \<Rightarrow> message_event recv \<times> message_event on_event" where "OnMessageEvent_NextWithTimeout = on_next_timeout"
definition OnMessageEvent_receive :: "message_event \<Rightarrow> (message_event on_event, err, unit) act" where "OnMessageEvent_receive = on_receive"
definition OnMessageEvent_close :: "(message_event on_event, err, unit) act" where "OnMessageEvent_close = on_close"

lemmas OnConnect_defs = NewOnConnect_def OnConnect_Next_def OnConnect_MaybeNext_def OnConnect_receive_def OnConnect_close_def
lemmas OnMessage_defs = NewOnMessage_def OnMessage_Next_def OnMessage_MaybeNext_def OnMessage_NextWithTimeout_def
  OnMessage_receive_def OnMessage_close_def
lemmas OnError_defs = NewOnError_def OnError_Next_def OnError_MaybeNext_def OnError_receive_def OnError_close_def
lemmas OnMessageEvent_defs = NewOnMessageEvent_def OnMessageEvent_Next_def OnMessageEvent_MaybeNext_def
  OnMessageEvent_NextWithTimeout_def OnMessageEvent_receive_def OnMessageEvent_close_def

section \<open>What an event channel promises\<close>

text \<open>
  The contract that the clients rely on: without a callback a value is queued behind the values
  already there while there is room and dropped when there is none, and the sender never blocks;
  with a callback every value reaches the callback; sending after close panics unless there is a
  callback.
\<close>

definition receive_all :: "('a \<Rightarrow> ('c, 'e, unit) act) \<Rightarrow> 'a list \<Rightarrow> ('c, 'e, unit) act" where
  "receive_all recv vs = foldr (\<lambda>v m. bnd (recv v) (\<lambda>_. m)) vs (ret ())"

lemma receive_all_Nil [simp]: "receive_all recv [] = ret ()"
  and receive_all_Cons [simp]: "receive_all recv (v # vs) = bnd (recv v) (\<lambda>_. receive_all recv vs)"
  by (simp_all add: receive_all_def)

locale event_channel =
  fixes new :: "nat \<Rightarrow> bool \<Rightarrow> 'a on_event"
    and receive :: "'a \<Rightarrow> ('a on_event, 'e, unit) act"
    and maybe_next :: "'a on_event \<Rightarrow> 'a option \<times> 'a on_event"
  assumes new_empty: "ch_buf (oe_C (new n cb)) = []" "ch_cap (oe_C (new n cb)) = n"
      "\<not> ch_closed (oe_C (new n cb))" "oe_Callback (new n cb) = cb" "oe_calls (new n cb) = []"
    and receive_room: "\<lbrakk>\<not> oe_Callback ev; \<not> ch_closed (oe_C ev); length (ch_buf (oe_C ev)) < ch_cap (oe_C ev)\<rbrakk>
      \<Longrightarrow> receive v ev = (Ok (), ev\<lparr>oe_C := oe_C ev\<lparr>ch_buf := ch_buf (oe_C ev) @ [v]\<rparr>\<rparr>)"
    and receive_full: "\<lbrakk>\<not> oe_Callback ev; \<not> ch_closed (oe_C ev); \<not> length (ch_buf (oe_C ev)) < ch_cap (oe_C ev)\<rbrakk>
      \<Longrightarrow> receive v ev = (Ok (), ev)"
    and receive_callback: "oe_Callback ev \<Longrightarrow> receive v ev = (Ok (), ev\<lparr>oe_calls := oe_calls ev @ [v]\<rparr>)"
    and receive_closed: "\<lbrakk>\<not> oe_Callback ev; ch_closed (oe_C ev)\<rbrakk> \<Longrightarrow> receive v ev = (Panic SendOnClosedChannel, ev)"
    and maybe_next_head: "fst (maybe_next ev) = (case ch_buf (oe_C ev) of [] \<Rightarrow> None | v # _ \<Rightarrow> Some v)"
      "ch_buf (oe_C (snd (maybe_next ev))) = tl (ch_buf (oe_C ev))"
begin

lemma receive_open_ok: "\<not> ch_closed (oe_C ev) \<Longrightarrow> fst (receive v ev) = Ok ()"
  by (metis fst_conv receive_callback receive_full receive_room)

lemma receive_all_queued:
  assumes "\<not> oe_Callback ev" and "\<not> ch_closed (oe_C ev)" and "length (ch_buf (oe_C ev)) \<le> ch_cap (oe_C ev)"
  shows "receive_all receive vs ev =
    (Ok (), ev\<lparr>oe_C := oe_C ev\<lparr>ch_buf := take (ch_cap (oe_C ev)) (ch_buf (oe_C ev) @ vs)\<rparr>\<rparr>)"
  using assms
proof (induction vs arbitrary: ev)
  case Nil
  then show ?case by simp
next
  case (Cons v vs)
  show ?case
  proof (cases "length (ch_buf (oe_C ev)) < ch_cap (oe_C ev)")
    case True
    with Cons.prems show ?thesis by (simp add: bnd_Ok [OF receive_room] Cons.IH)
  next
    case False
    with Cons.prems show ?thesis by (simp add: bnd_Ok [OF receive_full] Cons.IH)
  qed
qed

lemma receive_all_new:
  "receive_all receive vs (new n False) =
    (Ok (), (new n False)\<lparr>oe_C := oe_C (new n False)\<lparr>ch_buf := take n vs\<rparr>\<rparr>)"
  by (simp add: receive_all_queued new_empty)

lemma receive_all_callback:
  "oe_Callback ev \<Longrightarrow> receive_all receive vs ev = (Ok (), ev\<lparr>oe_calls := oe_calls ev @ vs\<rparr>)"
  by (induction vs arbitrary: ev) (simp_all add: bnd_Ok [OF receive_callback])

lemma receive_new_then_next: "0 < n \<Longrightarrow> fst (maybe_next (snd (receive v (new n False)))) = Some v"
  by (simp add: receive_room new_empty maybe_next_head)

end

lemma on_event_contract: "event_channel new_on_event on_receive on_maybe_next"
  by unfold_locales (auto simp: on_event_defs split: list.splits)

interpretation on_connect: event_channel NewOnConnect OnConnect_receive OnConnect_MaybeNext
  unfolding OnConnect_defs by (rule on_event_contract)

interpretation on_message: event_channel NewOnMessage OnMessage_receive OnMessage_MaybeNext
  unfolding OnMessage_defs by (rule on_event_contract)

interpretation on_error: event_channel NewOnError OnError_receive OnError_MaybeNext
  unfolding OnError_defs by (rule on_event_contract)

interpretation on_message_event: event_channel NewOnMessageEvent OnMessageEvent_receive OnMessageEvent_MaybeNext
  unfolding OnMessageEvent_defs by (rule on_event_contract)

end
