(* ===== verification/Nkn_Resolver.thy ===== *)
theory Nkn_Resolver
  imports Nkn_Errors
begin

text \<open>
  Destination resolution (\<^verbatim>\<open>src/resolver.go\<close>). A resolver is user code that may reach the
  network, so it is an action over an arbitrary environment state; it returns the empty string
  for an address it does not know. \<open>ResolveDest\<close> asks the resolvers in turn, \<open>ResolveDestN\<close>
  repeats that up to a depth, \<open>ResolveDests\<close> does it for a list and skips what fails.
\<close>

type_synonym 'w resolver = "string \<Rightarrow> ('w, err, string) act"

section \<open>Operations\<close>

fun ResolveDest :: "'w resolver list \<Rightarrow> string \<Rightarrow> ('w, err, string \<times> bool) act" where
  "ResolveDest [] dest = ret (dest, False)"
| "ResolveDest (r # rs) dest =
     bnd (r dest) (\<lambda>d. if length d = 0 then ResolveDest rs dest else ret (d, True))"

text \<open>The loop \<^verbatim>\<open>for i := int32(0); i < depth; i++\<close> by the number of rounds left.\<close>

fun ResolveDestN_loop :: "nat \<Rightarrow> 'w resolver list \<Rightarrow> string \<Rightarrow> ('w, err, string) act" where
  "ResolveDestN_loop 0 rs dest = throw ErrResolveLimit"
| "ResolveDestN_loop (Suc n) rs dest =
     bnd (ResolveDest rs dest) (\<lambda>(d, isResolved).
       if \<not> isResolved then ret dest else ResolveDestN_loop n rs d)"

definition ResolveDestN :: "'w resolver list \<Rightarrow> int32 \<Rightarrow> string \<Rightarrow> ('w, err, string) act" where
  "ResolveDestN rs depth dest = ResolveDestN_loop (nat (sint depth)) rs dest"

fun ResolveDests_loop :: "'w resolver list \<Rightarrow> int32 \<Rightarrow> string list \<Rightarrow> ('w, err, string list) act" where
  "ResolveDests_loop rs depth [] = ret []"
| "ResolveDests_loop rs depth (dest # dests) =
     attempt (ResolveDestN rs depth dest)
       (\<lambda>err. ResolveDests_loop rs depth dests)
       (\<lambda>resolvedDest. bnd (ResolveDests_loop rs depth dests) (\<lambda>rest. ret (resolvedDest # rest)))"

definition ResolveDests :: "'w resolver list \<Rightarrow> int32 \<Rightarrow> string list \<Rightarrow> ('w, err, string list) act" where
  "ResolveDests rs depth dests =
     (if length dests = 0 then ret []
      else bnd (ResolveDests_loop rs depth dests) (\<lambda>resolvedDests.
        if length resolvedDests = 0 then throw ErrInvalidDestination else ret resolvedDests))"

section \<open>Specification: chains of resolutions\<close>

text \<open>
  \<open>resolves rs n d w d' w'\<close>: starting from \<open>d\<close> in environment \<open>w\<close>, \<open>n\<close> resolutions in a row lead to
  \<open>d'\<close>, which no resolver resolves any further.
\<close>

inductive resolves :: "'w resolver list \<Rightarrow> nat \<Rightarrow> string \<Rightarrow> 'w \<Rightarrow> string \<Rightarrow> 'w \<Rightarrow> bool" for rs where
  stop: "ResolveDest rs d w = (Ok (d', False), w') \<Longrightarrow> resolves rs 0 d w d w'"
| hop: "ResolveDest rs d w = (Ok (d1, True), w1) \<Longrightarrow> resolves rs n d1 w1 d2 w2 \<Longrightarrow> resolves rs (Suc n) d w d2 w2"

inductive_cases resolves_0E: "resolves rs 0 d w d' w'"
inductive_cases resolves_SucE: "resolves rs (Suc n) d w d' w'"

lemma ResolveDestN_loop_sound:
  "ResolveDestN_loop m rs d w = (Ok d', w') \<Longrightarrow> \<exists>n < m. resolves rs n d w d' w'"
proof (induction m arbitrary: d w)
  case 0
  then show ?case by simp
next
  case (Suc m)
  from Suc.prems obtain d1 b w1 where r: "ResolveDest rs d w = (Ok (d1, b), w1)"
    and k: "(if \<not> b then ret d else ResolveDestN_loop m rs d1) w1 = (Ok d', w')"
    by auto
  show ?case
  proof (cases b)
    case True
    with k obtain n where "n < m" and "resolves rs n d1 w1 d' w'" using Suc.IH by force
    with r True have "Suc n < Suc m" and "resolves rs (Suc n) d w d' w'" by (auto intro: resolves.hop)
    then show ?thesis by blast
  next
    case False
    with k r have "resolves rs 0 d w d' w'" by (auto intro: resolves.stop)
    then show ?thesis by blast
  qed
qed

lemma ResolveDestN_loop_complete:
  "resolves rs n d w d' w' \<Longrightarrow> n < m \<Longrightarrow> ResolveDestN_loop m rs d w = (Ok d', w')"
proof (induction n d w d' w' arbitrary: m rule: resolves.induct)
  case (stop d w d' w')
  then show ?case by (cases m) (auto simp: bnd_Ok)
next
  case (hop d w d1 w1 n d2 w2)
  then show ?case by (cases m) (auto simp: bnd_Ok)
qed

lemma ResolveDest_resolved_nonempty:
  "ResolveDest rs d w = (Ok (d', True), w') \<Longrightarrow> d' \<noteq> []"
  by (induction rs arbitrary: w) (auto split: if_splits)

text \<open>Without resolvers every destination stands for itself.\<close>

lemma ResolveDests_no_resolvers:
  "0 <s depth \<Longrightarrow> ResolveDests [] depth dests w = (Ok dests, w)"
proof -
  assume d: "0 <s depth"
  then obtain m where m: "nat (sint depth) = Suc m"
    by (metis Suc_pred sless_sint sint_0 zero_less_nat_eq)
  have "ResolveDests_loop [] depth ds w = (Ok ds, w)" for ds
    by (induction ds) (simp_all add: ResolveDestN_def m attempt_def bnd_def)
  then show ?thesis by (cases "dests = []") (simp_all add: ResolveDests_def bnd_Ok)
qed

section \<open>Properties\<close>

text \<open>
  C39: resolution returns exactly the end of a chain of resolutions shorter than the depth limit:
  it succeeds with \<open>d'\<close> if and only if fewer than \<open>depth\<close> successive resolutions lead to an address
  that no resolver resolves any further, and that address is \<open>d'\<close>.
\<close>

theorem ResolveDestN_spec:
  "ResolveDestN rs depth d w = (Ok d', w') \<longleftrightarrow> (\<exists>n. int n < sint depth \<and> resolves rs n d w d' w')"
proof -
  have "n < nat (sint depth) \<longleftrightarrow> int n < sint depth" for n by (simp add: zless_nat_eq_int_zless)
  then show ?thesis
    unfolding ResolveDestN_def
    by (metis ResolveDestN_loop_complete ResolveDestN_loop_sound)
qed

text \<open>
  resolvers that always find another name are cut off. If every resolution of every address
  succeeds, whatever the environment, then \<open>ResolveDestN\<close> ends with \<open>ErrResolveLimit\<close>.
\<close>

theorem ResolveDestN_limit:
  assumes "\<forall>d w. \<exists>d' w'. ResolveDest rs d w = (Ok (d', True), w')"
  shows "fst (ResolveDestN rs depth d w) = Err ErrResolveLimit"
proof -
  have "fst (ResolveDestN_loop n rs d w) = Err ErrResolveLimit" for n
  proof (induction n arbitrary: d w)
    case (Suc n)
    obtain d' w' where "ResolveDest rs d w = (Ok (d', True), w')" using assms by blast
    with Suc.IH show ?case by (simp add: bnd_Ok)
  qed simp
  then show ?thesis by (simp add: ResolveDestN_def)
qed

theorem ResolveDestN_limit_witness:
  "fst (ResolveDestN [\<lambda>d. ret (CHR ''x'' # d)] 16 ''a'' ()) = Err ErrResolveLimit"
  by (rule ResolveDestN_limit) (simp add: bnd_def)

end
