(* ===== verification/Nkn_Config.thy ===== *)
theory Nkn_Config
  imports Nkn_Errors
begin

text \<open>
  The configuration records of \<^verbatim>\<open>src/config.go\<close>, their defaults and their merging. Merging is done
  by \<^verbatim>\<open>copier.CopyWithOption(to, from, Option{IgnoreEmpty: true})\<close> of a third-party package: it is a
  parameter \<open>copy\<close>, and the predicates \<open>ignores_empty\<dots>\<close> state what its documentation promises for
  the flat records: a field of \<open>from\<close> that has its zero value leaves the field of \<open>to\<close> as it is,
  any other value overwrites it.

  A dial function is identified by a number. \<^verbatim>\<open>ncp.Config\<close> is a record of another package; the
  fields the SDK sets or reads are kept. A resolver array holds, for each element, whether it
  implements the SDK's \<^verbatim>\<open>Resolver\<close> interface (with the number that identifies it) or not.
\<close>

section \<open>Records and defaults\<close>

type_synonym dial_fn = nat

definition DefaultSeedRPCServerAddr :: "string list" where
  "DefaultSeedRPCServerAddr =
    [''http://seed.nkn.org:30003'',
     ''http://mainnet-seed-0001.nkn.org:30003'',
     ''http://mainnet-seed-0002.nkn.org:30003'',
     ''http://mainnet-seed-0003.nkn.org:30003'',
     ''http://mainnet-seed-0004.nkn.org:30003'',
     ''http://mainnet-seed-0005.nkn.org:30003'',
     ''http://mainnet-seed-0006.nkn.org:30003'',
     ''http://mainnet-seed-0007.nkn.org:30003'',
     ''http://mainnet-seed-0008.nkn.org:30003'']"

definition DefaultStunServerAddr :: "string list" where
  "DefaultStunServerAddr =
    [''stun:stun.l.google.com:19302'',
     ''stun:stun.cloudflare.com:3478'',
     ''stun:stunserver.stunprotocol.org:3478'']"

definition CrossSendPolicyNone :: int32 where "CrossSendPolicyNone = 0"
definition CrossSendPolicyAnyConnected :: int32 where "CrossSendPolicyAnyConnected = 1"
definition CrossSendPolicyAllConnected :: int32 where "CrossSendPolicyAllConnected = 2"
definition CrossSendPolicyPreferStable :: int32 where "CrossSendPolicyPreferStable = 3"

lemmas CrossSendPolicy_defs = CrossSendPolicyNone_def CrossSendPolicyAnyConnected_def
  CrossSendPolicyAllConnected_def CrossSendPolicyPreferStable_def

record message_config =
  mc_Unencrypted :: bool
  mc_NoReply :: bool
  mc_MaxHoldingSeconds :: int32
  mc_MessageID :: bytes
  mc_TxPool :: bool
  mc_Offset :: int32
  mc_Limit :: int32

definition DefaultMessageConfig :: message_config where
  "DefaultMessageConfig = \<lparr>mc_Unencrypted = False, mc_NoReply = False, mc_MaxHoldingSeconds = 0,
     mc_MessageID = [], mc_TxPool = False, mc_Offset = 0, mc_Limit = 1000\<rparr>"

definition GetDefaultMessageConfig :: message_config where
  "GetDefaultMessageConfig = DefaultMessageConfig"

record ncp_config =
  nc_MTU :: int32
  nc_Linger :: int32

definition DefaultSessionConfig :: ncp_config where
  "DefaultSessionConfig = \<lparr>nc_MTU = 1024, nc_Linger = 0\<rparr>"

definition GetDefaultSessionConfig :: ncp_config where
  "GetDefaultSessionConfig = DefaultSessionConfig"

datatype gomobile_resolver = Implements_Resolver nat | No_Resolver

record client_config =
  cc_SeedRPCServerAddr :: "string list"
  cc_RPCTimeout :: int32
  cc_RPCConcurrency :: int32
  cc_MsgChanLen :: int32
  cc_ConnectRetries :: int32
  cc_MsgCacheExpiration :: int32
  cc_MsgCacheCleanupInterval :: int32
  cc_WsHandshakeTimeout :: int32
  cc_WsWriteTimeout :: int32
  cc_MinReconnectInterval :: int32
  cc_MaxReconnectInterval :: int32
  cc_AllowUnencrypted :: bool
  cc_MessageConfig :: message_config
  cc_SessionConfig :: ncp_config
  cc_HttpDialContext :: "dial_fn option"
  cc_WsDialContext :: "dial_fn option"
  cc_Resolvers :: "gomobile_resolver list"
  cc_ResolverDepth :: int32
  cc_ResolverTimeout :: int32
  cc_WebRTC :: bool
  cc_StunServerAddr :: "string list"
  cc_WebRTCConnectTimeout :: int32
  cc_MultiClientNumClients :: int
  cc_MultiClientOriginalClient :: bool
  cc_CrossSendPolicy :: int32

text \<open>
  \<^verbatim>\<open>DefaultClientConfig\<close> with its nil pointers set, as \<^verbatim>\<open>GetDefaultClientConfig\<close> returns it. A nil
  resolver array is the empty one.
\<close>

definition GetDefaultClientConfig :: client_config where
  "GetDefaultClientConfig =
    \<lparr>cc_SeedRPCServerAddr = DefaultSeedRPCServerAddr,
     cc_RPCTimeout = 10000,
     cc_RPCConcurrency = 1,
     cc_MsgChanLen = 1024,
     cc_ConnectRetries = 3,
     cc_MsgCacheExpiration = 300000,
     cc_MsgCacheCleanupInterval = 60000,
     cc_WsHandshakeTimeout = 5000,
     cc_WsWriteTimeout = 10000,
     cc_MinReconnectInterval = 1000,
     cc_MaxReconnectInterval = 64000,
     cc_AllowUnencrypted = False,
     cc_MessageConfig = GetDefaultMessageConfig,
     cc_SessionConfig = GetDefaultSessionConfig,
     cc_HttpDialContext = None,
     cc_WsDialContext = None,
     cc_Resolvers = [],
     cc_ResolverDepth = 16,
     cc_ResolverTimeout = 10000,
     cc_WebRTC = False,
     cc_StunServerAddr = DefaultStunServerAddr,
     cc_WebRTCConnectTimeout = 10000,
     cc_MultiClientNumClients = 4,
     cc_MultiClientOriginalClient = False,
     cc_CrossSendPolicy = CrossSendPolicyNone\<rparr>"

record dial_config =
  dc_DialTimeout :: int32
  dc_SessionConfig :: ncp_config

definition GetDefaultDialConfig :: "ncp_config \<Rightarrow> dial_config" where
  "GetDefaultDialConfig baseSessionConfig = \<lparr>dc_DialTimeout = 0, dc_SessionConfig = baseSessionConfig\<rparr>"

record scrypt_config =
  sc_Salt :: bytes
  sc_N :: int
  sc_R :: int
  sc_P :: int

record wallet_config =
  wc_SeedRPCServerAddr :: "string list"
  wc_RPCTimeout :: int32
  wc_RPCConcurrency :: int32
  wc_Password :: string
  wc_IV :: bytes
  wc_MasterKey :: bytes
  wc_ScryptConfig :: scrypt_config
  wc_HttpDialContext :: "dial_fn option"

definition GetDefaultWalletConfig :: wallet_config where
  "GetDefaultWalletConfig =
    \<lparr>wc_SeedRPCServerAddr = DefaultSeedRPCServerAddr, wc_RPCTimeout = 10000, wc_RPCConcurrency = 1,
     wc_Password = [], wc_IV = [], wc_MasterKey = [],
     wc_ScryptConfig = \<lparr>sc_Salt = [], sc_N = 0, sc_R = 0, sc_P = 0\<rparr>, wc_HttpDialContext = None\<rparr>"

record rpc_config =
  rc_SeedRPCServerAddr :: "string list"
  rc_RPCTimeout :: int32
  rc_RPCConcurrency :: int32
  rc_HttpDialContext :: "dial_fn option"

definition GetDefaultRPCConfig :: rpc_config where
  "GetDefaultRPCConfig = \<lparr>rc_SeedRPCServerAddr = DefaultSeedRPCServerAddr, rc_RPCTimeout = 10000,
     rc_RPCConcurrency = 1, rc_HttpDialContext = None\<rparr>"

record transaction_config =
  tc_Fee :: string
  tc_Nonce :: int64
  tc_FixNonce :: bool
  tc_Attributes :: bytes

definition GetDefaultTransactionConfig :: transaction_config where
  "GetDefaultTransactionConfig = \<lparr>tc_Fee = ''0'', tc_Nonce = 0, tc_FixNonce = False, tc_Attributes = []\<rparr>"

section \<open>The configuration of a remote call\<close>

text \<open>
  \<^verbatim>\<open>RPCConfigInterface\<close> and \<^verbatim>\<open>dialConfigInterface\<close>: a client, a wallet and an RPC configuration
  each answer the same four questions.
\<close>

definition ClientConfig_RPC :: "client_config \<Rightarrow> rpc_config" where
  "ClientConfig_RPC c = \<lparr>rc_SeedRPCServerAddr = cc_SeedRPCServerAddr c, rc_RPCTimeout = cc_RPCTimeout c,
     rc_RPCConcurrency = cc_RPCConcurrency c, rc_HttpDialContext = cc_HttpDialContext c\<rparr>"

definition WalletConfig_RPC :: "wallet_config \<Rightarrow> rpc_config" where
  "WalletConfig_RPC c = \<lparr>rc_SeedRPCServerAddr = wc_SeedRPCServerAddr c, rc_RPCTimeout = wc_RPCTimeout c,
     rc_RPCConcurrency = wc_RPCConcurrency c, rc_HttpDialContext = wc_HttpDialContext c\<rparr>"

definition RPCConfig_RPC :: "rpc_config \<Rightarrow> rpc_config" where
  "RPCConfig_RPC c = \<lparr>rc_SeedRPCServerAddr = rc_SeedRPCServerAddr c, rc_RPCTimeout = rc_RPCTimeout c,
     rc_RPCConcurrency = rc_RPCConcurrency c, rc_HttpDialContext = rc_HttpDialContext c\<rparr>"

section \<open>Merging\<close>

type_synonym 'c copier = "'c \<Rightarrow> 'c \<Rightarrow> 'c result"

definition MergeClientConfig :: "client_config copier \<Rightarrow> client_config option \<Rightarrow> client_config result" where
  "MergeClientConfig copy conf =
     and_then (case conf of None \<Rightarrow> Ok GetDefaultClientConfig | Some c \<Rightarrow> copy GetDefaultClientConfig c)
       (\<lambda>merged. Ok (if length (cc_SeedRPCServerAddr merged) = 0
          then merged\<lparr>cc_SeedRPCServerAddr := DefaultSeedRPCServerAddr\<rparr> else merged))"

definition MergeMessageConfig :: "message_config copier \<Rightarrow> message_config \<Rightarrow> message_config option \<Rightarrow> message_config result" where
  "MergeMessageConfig copy base conf = (case conf of None \<Rightarrow> Ok base | Some c \<Rightarrow> copy base c)"

definition MergeDialConfig :: "dial_config copier \<Rightarrow> ncp_config \<Rightarrow> dial_config option \<Rightarrow> dial_config result" where
  "MergeDialConfig copy baseSessionConfig conf =
     (case conf of None \<Rightarrow> Ok (GetDefaultDialConfig baseSessionConfig)
      | Some c \<Rightarrow> copy (GetDefaultDialConfig baseSessionConfig) c)"

definition MergeWalletConfig :: "wallet_config copier \<Rightarrow> wallet_config option \<Rightarrow> wallet_config result" where
  "MergeWalletConfig copy conf =
     and_then (case conf of None \<Rightarrow> Ok GetDefaultWalletConfig | Some c \<Rightarrow> copy GetDefaultWalletConfig c)
       (\<lambda>merged. Ok (if length (wc_SeedRPCServerAddr merged) = 0
          then merged\<lparr>wc_SeedRPCServerAddr := DefaultSeedRPCServerAddr\<rparr> else merged))"

definition MergeTransactionConfig :: "transaction_config copier \<Rightarrow> transaction_config option \<Rightarrow> transaction_config result" where
  "MergeTransactionConfig copy conf =
     (case conf of None \<Rightarrow> Ok GetDefaultTransactionConfig | Some c \<Rightarrow> copy GetDefaultTransactionConfig c)"

section \<open>What the copier's documentation promises\<close>

definition overlay :: "'v \<Rightarrow> 'v \<Rightarrow> 'v \<Rightarrow> 'v" where
  "overlay zero base v = (if v = zero then base else v)"

lemma overlay_idem [simp]: "overlay z b (overlay z b v) = overlay z b v"
  by (simp add: overlay_def)

definition overlay_message :: "message_config \<Rightarrow> message_config \<Rightarrow> message_config" where
  "overlay_message base c =
    \<lparr>mc_Unencrypted = overlay False (mc_Unencrypted base) (mc_Unencrypted c),
     mc_NoReply = overlay False (mc_NoReply base) (mc_NoReply c),
     mc_MaxHoldingSeconds = overlay 0 (mc_MaxHoldingSeconds base) (mc_MaxHoldingSeconds c),
     mc_MessageID = overlay [] (mc_MessageID base) (mc_MessageID c),
     mc_TxPool = overlay False (mc_TxPool base) (mc_TxPool c),
     mc_Offset = overlay 0 (mc_Offset base) (mc_Offset c),
     mc_Limit = overlay 0 (mc_Limit base) (mc_Limit c)\<rparr>"

definition ignores_empty_message :: "message_config copier \<Rightarrow> bool" where
  "ignores_empty_message copy \<longleftrightarrow> (\<forall>base c. copy base c = Ok (overlay_message base c))"

definition overlay_transaction :: "transaction_config \<Rightarrow> transaction_config \<Rightarrow> transaction_config" where
  "overlay_transaction base c =
    \<lparr>tc_Fee = overlay [] (tc_Fee base) (tc_Fee c),
     tc_Nonce = overlay 0 (tc_Nonce base) (tc_Nonce c),
     tc_FixNonce = overlay False (tc_FixNonce base) (tc_FixNonce c),
     tc_Attributes = overlay [] (tc_Attributes base) (tc_Attributes c)\<rparr>"

definition ignores_empty_transaction :: "transaction_config copier \<Rightarrow> bool" where
  "ignores_empty_transaction copy \<longleftrightarrow> (\<forall>base c. copy base c = Ok (overlay_transaction base c))"

lemma MergeMessageConfig_Ok:
  "ignores_empty_message copy \<Longrightarrow>
    MergeMessageConfig copy base conf = Ok (case conf of None \<Rightarrow> base | Some c \<Rightarrow> overlay_message base c)"
  by (auto simp: MergeMessageConfig_def ignores_empty_message_def split: option.splits)

lemma DefaultSeedRPCServerAddr_nonempty [simp]: "DefaultSeedRPCServerAddr \<noteq> []"
  by (simp add: DefaultSeedRPCServerAddr_def)

lemma MergeWalletConfig_seeds:
  assumes "MergeWalletConfig copy conf = Ok c"
  shows "wc_SeedRPCServerAddr c \<noteq> []"
proof -
  from assms obtain m where "c = (if length (wc_SeedRPCServerAddr m) = 0
      then m\<lparr>wc_SeedRPCServerAddr := DefaultSeedRPCServerAddr\<rparr> else m)"
    unfolding MergeWalletConfig_def and_then_Ok_iff res.inject by blast
  then show ?thesis by simp
qed

lemma MergeClientConfig_seeds:
  assumes "MergeClientConfig copy conf = Ok c"
  shows "cc_SeedRPCServerAddr c \<noteq> []"
proof -
  from assms obtain m where "c = (if length (cc_SeedRPCServerAddr m) = 0
      then m\<lparr>cc_SeedRPCServerAddr := DefaultSeedRPCServerAddr\<rparr> else m)"
    unfolding MergeClientConfig_def and_then_Ok_iff res.inject by blast
  then show ?thesis by simp
qed

lemma overlay_message_idem [simp]: "overlay_message base (overlay_message base c) = overlay_message base c"
  by (simp add: overlay_message_def)

lemma overlay_self [simp]: "overlay z b b = b"
  by (simp add: overlay_def)

lemma overlay_message_self [simp]: "overlay_message base base = base"
  by (simp add: overlay_message_def)

lemma overlay_True [simp]: "overlay False True v"
  by (simp add: overlay_def)

section \<open>Properties\<close>

text \<open>
  whatever the copying library does, a merged client or wallet configuration names at least
  one seed server, so a remote call made with it has a server to try; without a configuration the
  result is the default.
\<close>

theorem merged_config_has_seeds:
  "(MergeClientConfig copy conf = Ok c \<longrightarrow> rc_SeedRPCServerAddr (ClientConfig_RPC c) \<noteq> [])
   \<and> (MergeWalletConfig wcopy wconf = Ok w \<longrightarrow> rc_SeedRPCServerAddr (WalletConfig_RPC w) \<noteq> [])
   \<and> MergeClientConfig copy None = Ok GetDefaultClientConfig
   \<and> MergeWalletConfig wcopy None = Ok GetDefaultWalletConfig"
  by (auto simp: ClientConfig_RPC_def WalletConfig_RPC_def MergeClientConfig_seeds MergeWalletConfig_seeds)
     (simp_all add: MergeClientConfig_def MergeWalletConfig_def GetDefaultClientConfig_def GetDefaultWalletConfig_def)

theorem merged_config_has_seeds_witness:
  "rc_SeedRPCServerAddr (ClientConfig_RPC (GetDefaultClientConfig\<lparr>cc_SeedRPCServerAddr := DefaultSeedRPCServerAddr\<rparr>)) \<noteq> []"
  using merged_config_has_seeds [of "\<lambda>_ c. Ok c" "Some (GetDefaultClientConfig\<lparr>cc_SeedRPCServerAddr := []\<rparr>)"
      "GetDefaultClientConfig\<lparr>cc_SeedRPCServerAddr := DefaultSeedRPCServerAddr\<rparr>"]
  by (simp add: MergeClientConfig_def GetDefaultClientConfig_def)

text \<open>
  with a copier that ignores empty fields, merging a per-message configuration is idempotent,
  and it can only switch the boolean options on: a message cannot be sent encrypted, or with a
  reply expected, when the client's own configuration says unencrypted or no reply.
\<close>

theorem MergeMessageConfig_monotone:
  assumes "ignores_empty_message copy" and "MergeMessageConfig copy base conf = Ok c"
  shows "MergeMessageConfig copy base (Some c) = Ok c
    \<and> (mc_Unencrypted base \<longrightarrow> mc_Unencrypted c) \<and> (mc_NoReply base \<longrightarrow> mc_NoReply c)
    \<and> (mc_TxPool base \<longrightarrow> mc_TxPool c) \<and> (mc_Limit base \<noteq> 0 \<longrightarrow> mc_Limit c \<noteq> 0)"
proof -
  have "c = base \<or> (\<exists>d. c = overlay_message base d)"
    using assms by (cases conf) (auto simp: MergeMessageConfig_Ok)
  then show ?thesis
    by (elim disjE exE) (simp_all add: MergeMessageConfig_Ok [OF assms(1)] overlay_message_def overlay_def)
qed

theorem MergeMessageConfig_monotone_witness:
  "\<exists>c. MergeMessageConfig (\<lambda>b c. Ok (overlay_message b c)) (DefaultMessageConfig\<lparr>mc_NoReply := True\<rparr>)
         (Some DefaultMessageConfig) = Ok c \<and> mc_NoReply c"
proof -
  let ?copy = "\<lambda>b c. Ok (overlay_message b c)" and ?base = "DefaultMessageConfig\<lparr>mc_NoReply := True\<rparr>"
  have "ignores_empty_message ?copy" by (simp add: ignores_empty_message_def)
  moreover have "MergeMessageConfig ?copy ?base (Some DefaultMessageConfig) = Ok (overlay_message ?base DefaultMessageConfig)"
    by (simp add: MergeMessageConfig_def)
  ultimately have "mc_NoReply ?base \<longrightarrow> mc_NoReply (overlay_message ?base DefaultMessageConfig)"
    using MergeMessageConfig_monotone by blast
  then show ?thesis by (simp add: MergeMessageConfig_def)
qed

end
