(* ===== verification/Nkn_Message.thy ===== *)
theory Nkn_Message
  imports Nkn_Events
begin

text \<open>
  Payloads and message encryption (\<^verbatim>\<open>src/message.go\<close>, with the message types of
  \<^verbatim>\<open>src/payloads/payloads.proto\<close>). Randomness is an action \<open>rand n\<close> over the environment that
  returns what \<^verbatim>\<open>rand.Read\<close> put into a buffer of \<open>n\<close> bytes, or its error. The functions of
  \<^verbatim>\<open>nacl/box\<close> and the protobuf codec are parameters, collected in two records; the predicates
  \<open>box_laws\<close> and \<open>proto_laws\<close> state what their documentation promises.
\<close>

section \<open>Data\<close>

record payload =
  pl_Type :: int32
  pl_MessageId :: bytes
  pl_Data :: bytes
  pl_ReplyToId :: bytes
  pl_NoReply :: bool

record wire_message =
  wm_Payload :: bytes
  wm_Encrypted :: bool
  wm_Nonce :: bytes
  wm_EncryptedKey :: bytes

text \<open>The dynamic types that the \<^verbatim>\<open>interface{}\<close> argument of the send functions can have.\<close>

datatype idata = DBytes bytes | DString string | DPayload payload | DNil | DOther

definition nonceSize :: nat where "nonceSize = 24"
definition sharedKeySize :: nat where "sharedKeySize = 32"
definition MessageIDSize :: nat where "MessageIDSize = 8"

section \<open>Third-party functions\<close>

text \<open>The overhead of a sealed box is the 16 bytes of its authentication tag.\<close>

definition box_Overhead :: nat where "box_Overhead = 16"

lemmas size_defs = nonceSize_def sharedKeySize_def MessageIDSize_def box_Overhead_def

record box_ext =
  SealAfterPrecomputation :: "bytes \<Rightarrow> bytes \<Rightarrow> bytes \<Rightarrow> bytes"
  OpenAfterPrecomputation :: "bytes \<Rightarrow> bytes \<Rightarrow> bytes \<Rightarrow> bytes option"
  Precompute :: "bytes \<Rightarrow> bytes \<Rightarrow> bytes"
  PublicKeyToCurve25519PublicKey :: "bytes \<Rightarrow> bytes option"

definition box_laws :: "box_ext \<Rightarrow> bool" where
  "box_laws bx \<longleftrightarrow>
     (\<forall>m n k. length (SealAfterPrecomputation bx m n k) = length m + box_Overhead)
   \<and> (\<forall>m n k. OpenAfterPrecomputation bx (SealAfterPrecomputation bx m n k) n k = Some m)"

record proto_ext =
  MarshalPayload :: "payload \<Rightarrow> bytes result"
  UnmarshalPayload :: "bytes \<Rightarrow> payload result"
  MarshalMessage :: "wire_message \<Rightarrow> bytes result"
  UnmarshalMessage :: "bytes \<Rightarrow> wire_message result"
  MarshalTextData :: "string \<Rightarrow> bytes result"
  UnmarshalTextData :: "bytes \<Rightarrow> string result"

definition proto_laws :: "proto_ext \<Rightarrow> bool" where
  "proto_laws px \<longleftrightarrow>
     (\<forall>p b. MarshalPayload px p = Ok b \<longrightarrow> UnmarshalPayload px b = Ok p)
   \<and> (\<forall>m b. MarshalMessage px m = Ok b \<longrightarrow> UnmarshalMessage px b = Ok m)
   \<and> (\<forall>t b. MarshalTextData px t = Ok b \<longrightarrow> UnmarshalTextData px b = Ok t)"

type_synonym 'w rand = "nat \<Rightarrow> ('w, err, bytes) act"

text \<open>\<^verbatim>\<open>rand.Read\<close> fills the whole buffer when it returns no error.\<close>

definition rand_laws :: "'w rand \<Rightarrow> bool" where
  "rand_laws rand \<longleftrightarrow> (\<forall>n w b w'. rand n w = (Ok b, w') \<longrightarrow> length b = n)"

lemma rand_length: "rand_laws rand \<Longrightarrow> rand n w = (Ok b, w') \<Longrightarrow> length b = n"
  by (auto simp: rand_laws_def)

section \<open>Operations\<close>

definition RandomBytes :: "'w rand \<Rightarrow> nat \<Rightarrow> ('w, err, bytes) act" where
  "RandomBytes rand numBytes = bnd (rand numBytes) (\<lambda>b. ret b)"

definition encrypt :: "box_ext \<Rightarrow> 'w rand \<Rightarrow> bytes \<Rightarrow> bytes \<Rightarrow> ('w, err, bytes \<times> bytes) act" where
  "encrypt bx rand msg sharedKey =
     bnd (rand nonceSize) (\<lambda>nonce.
       ret (append_into (length msg + box_Overhead) (SealAfterPrecomputation bx msg nonce sharedKey), nonce))"

definition decrypt :: "box_ext \<Rightarrow> bytes \<Rightarrow> bytes \<Rightarrow> bytes \<Rightarrow> bytes result" where
  "decrypt bx msg nonce sharedKey =
     (if length msg < box_Overhead then Panic NegativeLength
      else (case OpenAfterPrecomputation bx msg nonce sharedKey of
              None \<Rightarrow> Err ErrDecryptFailed
            | Some out \<Rightarrow> Ok (append_into (length msg - box_Overhead) out)))"

definition newBinaryPayload :: "'w rand \<Rightarrow> bytes \<Rightarrow> bytes \<Rightarrow> bytes \<Rightarrow> bool \<Rightarrow> ('w, err, payload) act" where
  "newBinaryPayload rand data messageID replyToID noReply =
     bnd (if length messageID = 0 \<and> length replyToID = 0 then RandomBytes rand MessageIDSize else ret messageID)
       (\<lambda>messageID. ret \<lparr>pl_Type = BinaryType, pl_MessageId = messageID, pl_Data = data,
          pl_ReplyToId = replyToID, pl_NoReply = noReply\<rparr>)"

definition newTextPayload :: "proto_ext \<Rightarrow> 'w rand \<Rightarrow> string \<Rightarrow> bytes \<Rightarrow> bytes \<Rightarrow> bool \<Rightarrow> ('w, err, payload) act" where
  "newTextPayload px rand txt messageID replyToID noReply =
     bnd (if length messageID = 0 \<and> length replyToID = 0 then RandomBytes rand MessageIDSize else ret messageID)
       (\<lambda>messageID. bnd (of_res (MarshalTextData px txt))
         (\<lambda>data. ret \<lparr>pl_Type = TextType, pl_MessageId = messageID, pl_Data = data,
            pl_ReplyToId = replyToID, pl_NoReply = noReply\<rparr>))"

definition newAckPayload :: "bytes \<Rightarrow> payload result" where
  "newAckPayload replyToID = Ok \<lparr>pl_Type = AckType, pl_MessageId = [], pl_Data = [],
     pl_ReplyToId = replyToID, pl_NoReply = False\<rparr>"

fun newMessagePayload :: "proto_ext \<Rightarrow> 'w rand \<Rightarrow> idata \<Rightarrow> bytes \<Rightarrow> bool \<Rightarrow> ('w, err, payload) act" where
  "newMessagePayload px rand (DBytes v) messageID noReply = newBinaryPayload rand v messageID [] noReply"
| "newMessagePayload px rand (DString v) messageID noReply = newTextPayload px rand v messageID [] noReply"
| "newMessagePayload px rand _ messageID noReply = throw ErrInvalidPayloadType"

fun NewReplyPayload :: "proto_ext \<Rightarrow> 'w rand \<Rightarrow> idata \<Rightarrow> bytes \<Rightarrow> ('w, err, payload) act" where
  "NewReplyPayload px rand (DBytes v) replyToID = newBinaryPayload rand v [] replyToID False"
| "NewReplyPayload px rand (DString v) replyToID = newTextPayload px rand v [] replyToID False"
| "NewReplyPayload px rand DNil replyToID = of_res (newAckPayload replyToID)"
| "NewReplyPayload px rand _ replyToID = throw ErrInvalidPayloadType"

text \<open>
  \<^verbatim>\<open>Message.Reply\<close> calls the closure in the message. \<open>send\<close> is the send method of the client or
  multiclient that delivered the message. Calling a nil closure panics.
\<close>

fun Message_Reply :: "proto_ext \<Rightarrow> 'w rand \<Rightarrow> (string list \<Rightarrow> payload \<Rightarrow> bool \<Rightarrow> int32 \<Rightarrow> ('w, err, unit) act) \<Rightarrow>
    message \<Rightarrow> idata \<Rightarrow> ('w, err, unit) act" where
  "Message_Reply px rand send msg data =
     (case m_reply msg of
        NilReply \<Rightarrow> crash NilDereference
      | IgnoreReply \<Rightarrow> ret ()
      | SendReply src messageID encrypted \<Rightarrow>
          bnd (NewReplyPayload px rand data messageID) (\<lambda>payload. send [src] payload encrypted 0))"

definition Message_ReplyBinary :: "proto_ext \<Rightarrow> 'w rand \<Rightarrow> (string list \<Rightarrow> payload \<Rightarrow> bool \<Rightarrow> int32 \<Rightarrow> ('w, err, unit) act) \<Rightarrow>
    message \<Rightarrow> bytes \<Rightarrow> ('w, err, unit) act" where
  "Message_ReplyBinary px rand send msg data = Message_Reply px rand send msg (DBytes data)"

definition Message_ReplyText :: "proto_ext \<Rightarrow> 'w rand \<Rightarrow> (string list \<Rightarrow> payload \<Rightarrow> bool \<Rightarrow> int32 \<Rightarrow> ('w, err, unit) act) \<Rightarrow>
    message \<Rightarrow> string \<Rightarrow> ('w, err, unit) act" where
  "Message_ReplyText px rand send msg data = Message_Reply px rand send msg (DString data)"

text \<open>What the data of a payload is to the receiver, by its type, as the receiving client decodes it.\<close>

definition payload_data :: "proto_ext \<Rightarrow> payload \<Rightarrow> bytes result" where
  "payload_data px p =
     (if pl_Type p = TextType then UnmarshalTextData px (pl_Data p)
      else if pl_Type p = AckType then Ok [] else Ok (pl_Data p))"

section \<open>Lemmas\<close>

lemma encrypt_Ok:
  assumes "box_laws bx" and "encrypt bx rand msg key w = (Ok (c, nonce), w')"
  shows "c = SealAfterPrecomputation bx msg nonce key" and "rand nonceSize w = (Ok nonce, w')"
  using assms by (auto simp: encrypt_def box_laws_def)

lemma decrypt_seal:
  assumes "box_laws bx"
  shows "decrypt bx (SealAfterPrecomputation bx msg nonce key) nonce key = Ok msg"
  using assms by (simp add: decrypt_def box_laws_def)

lemma decrypt_no_panic_iff: "is_panic (decrypt bx msg nonce key) \<longleftrightarrow> length msg < box_Overhead"
  by (auto simp: decrypt_def split: option.splits)

lemmas newPayload_defs = newBinaryPayload_def newTextPayload_def newAckPayload_def RandomBytes_def

lemma newMessagePayload_id:
  assumes "rand_laws rand" and "newMessagePayload px rand data messageID noReply w = (Ok p, w')"
  shows "pl_MessageId p \<noteq> [] \<and> pl_ReplyToId p = [] \<and> pl_NoReply p = noReply
    \<and> (messageID \<noteq> [] \<longrightarrow> pl_MessageId p = messageID)"
proof -
  have "b \<noteq> []" if "rand MessageIDSize w = (Ok b, w')" for b w w'
    using rand_length [OF assms(1) that] by (auto simp: MessageIDSize_def)
  with assms(2) show ?thesis
    by (cases data) (auto simp: newPayload_defs split: if_splits)
qed

lemma newMessagePayload_data:
  assumes "proto_laws px" and "newMessagePayload px rand data messageID noReply w = (Ok p, w')"
  shows "(\<exists>b. data = DBytes b \<and> pl_Type p = BinaryType \<and> payload_data px p = Ok b)
    \<or> (\<exists>t. data = DString t \<and> pl_Type p = TextType \<and> payload_data px p = Ok t)"
  using assms
  by (cases data) (auto simp: newPayload_defs payload_data_def proto_laws_def payload_type_defs split: if_splits)

lemma NewReplyPayload_reply:
  assumes "replyToID \<noteq> []" and "NewReplyPayload px rand data replyToID w = (Ok p, w')"
  shows "pl_ReplyToId p = replyToID \<and> pl_MessageId p = [] \<and> \<not> pl_NoReply p \<and> w' = w"
  using assms by (cases data) (auto simp: newPayload_defs)

section \<open>Concrete instances of the third-party functions\<close>

text \<open>
  Instances that satisfy the laws, to show that the laws can hold together: a box that appends a
  constant tag, a random source of zeros, and a codec that writes the fields in hexadecimal with
  dots between them.
\<close>

definition plain_box :: box_ext where
  "plain_box = \<lparr>SealAfterPrecomputation = (\<lambda>m n k. m @ replicate 16 zero_byte),
     OpenAfterPrecomputation = (\<lambda>c n k. Some (take (length c - 16) c)),
     Precompute = (\<lambda>pk sk. replicate 32 zero_byte),
     PublicKeyToCurve25519PublicKey = Some\<rparr>"

lemma plain_box_laws: "box_laws plain_box"
  by (simp add: box_laws_def plain_box_def box_Overhead_def)

definition zero_rand :: "unit rand" where
  "zero_rand n = ret (replicate n zero_byte)"

lemma zero_rand_laws: "rand_laws zero_rand"
  by (auto simp: rand_laws_def zero_rand_def)

definition bool_bytes :: "bool \<Rightarrow> bytes" where
  "bool_bytes b = (if b then ''1'' else [])"

definition dotted :: "bytes list \<Rightarrow> bytes" where
  "dotted fs = Join (map hex_encode fs)"

definition undotted :: "bytes \<Rightarrow> bytes option list" where
  "undotted b = map hex_decode (Split b)"

lemma hex_digit_not_dot: "d < 16 \<Longrightarrow> hex_digit d \<noteq> dot"
  using hex_value_digit [of d] by (auto simp: hex_value_def)

lemma hex_encode_no_dot: "dot \<notin> set (hex_encode bs)"
proof (induction bs)
  case (Cons b bs)
  have "(of_char b :: nat) < 256" by (rule nat_of_char_less_256)
  then have "(of_char b :: nat) div 16 < 16" by (simp add: less_mult_imp_div_less)
  then have "hex_digit ((of_char b :: nat) div 16) \<noteq> dot" and "hex_digit ((of_char b :: nat) mod 16) \<noteq> dot"
    by (simp_all add: hex_digit_not_dot)
  with Cons.IH show ?case by auto
qed simp

lemma undotted_dotted: "fs \<noteq> [] \<Longrightarrow> undotted (dotted fs) = map Some fs"
  by (simp add: undotted_def dotted_def Split_Join hex_encode_no_dot)

definition dotted_proto :: proto_ext where
  "dotted_proto = \<lparr>
     MarshalPayload = (\<lambda>p. if unat (pl_Type p) < 256
        then Ok (dotted [[char_of (unat (pl_Type p))], pl_MessageId p, pl_Data p, pl_ReplyToId p, bool_bytes (pl_NoReply p)])
        else Err ErrInvalidPayloadType),
     UnmarshalPayload = (\<lambda>b. case undotted b of
          [Some [t], Some i, Some d, Some r, Some n] \<Rightarrow>
            Ok \<lparr>pl_Type = of_nat (of_char t), pl_MessageId = i, pl_Data = d, pl_ReplyToId = r, pl_NoReply = (n = ''1'')\<rparr>
        | _ \<Rightarrow> Err ErrInvalidPayloadType),
     MarshalMessage = (\<lambda>m. Ok (dotted [wm_Payload m, bool_bytes (wm_Encrypted m), wm_Nonce m, wm_EncryptedKey m])),
     UnmarshalMessage = (\<lambda>b. case undotted b of
          [Some p, Some e, Some n, Some k] \<Rightarrow>
            Ok \<lparr>wm_Payload = p, wm_Encrypted = (e = ''1''), wm_Nonce = n, wm_EncryptedKey = k\<rparr>
        | _ \<Rightarrow> Err ErrInvalidPayloadType),
     MarshalTextData = Ok, UnmarshalTextData = Ok\<rparr>"

lemma bool_bytes_iff [simp]: "bool_bytes b = ''1'' \<longleftrightarrow> b"
  by (simp add: bool_bytes_def)

lemma dotted_proto_laws: "proto_laws dotted_proto"
  by (auto simp: proto_laws_def dotted_proto_def undotted_dotted split: if_splits)

section \<open>Properties\<close>

text \<open>
  C25: what \<open>encrypt\<close> produces, \<open>decrypt\<close> with the same key and the returned nonce turns back into
  the message, and the ciphertext is exactly 16 bytes longer than the message.
\<close>

theorem decrypt_encrypt:
  assumes "box_laws bx" and "encrypt bx rand msg key w = (Ok (c, nonce), w')"
  shows "decrypt bx c nonce key = Ok msg \<and> length c = length msg + box_Overhead"
  using encrypt_Ok [OF assms] decrypt_seal [OF assms(1)] assms(1) by (simp add: box_laws_def)

theorem decrypt_encrypt_witness:
  "decrypt plain_box (''hi'' @ replicate 16 zero_byte) (replicate 24 zero_byte) (replicate 32 zero_byte) = Ok ''hi''"
  using decrypt_encrypt [OF plain_box_laws, of zero_rand "''hi''" "replicate 32 zero_byte" "()"
      "''hi'' @ replicate 16 zero_byte" "replicate 24 zero_byte" "()"]
  by (simp add: encrypt_def zero_rand_def plain_box_def size_defs)

text \<open>
  every new message has an id and is no reply, a caller's id is used when there is one, and
  the receiver's decoding of the payload gives the caller's bytes or text back.
\<close>

theorem newMessagePayload_roundtrip:
  assumes "rand_laws rand" and "proto_laws px"
    and "newMessagePayload px rand data messageID noReply w = (Ok p, w')"
  shows "pl_MessageId p \<noteq> [] \<and> pl_ReplyToId p = [] \<and> (messageID \<noteq> [] \<longrightarrow> pl_MessageId p = messageID)
    \<and> (data = DBytes b \<longrightarrow> payload_data px p = Ok b) \<and> (data = DString t \<longrightarrow> payload_data px p = Ok t)"
  using newMessagePayload_id [OF assms(1,3)] newMessagePayload_data [OF assms(2,3)] by auto

theorem newMessagePayload_roundtrip_witness:
  "\<exists>p. newMessagePayload dotted_proto zero_rand (DString ''hello'') [] False () = (Ok p, ())
     \<and> pl_MessageId p \<noteq> [] \<and> payload_data dotted_proto p = Ok ''hello''"
proof -
  obtain p where p: "newMessagePayload dotted_proto zero_rand (DString ''hello'') [] False () = (Ok p, ())"
    by (simp add: newPayload_defs zero_rand_def dotted_proto_def bnd_def)
  show ?thesis
    using newMessagePayload_roundtrip [OF zero_rand_laws dotted_proto_laws p, of "[]" "''hello''"] p by auto
qed

end
