(* ===== verification/Nkn_Transaction.thy ===== *)
theory Nkn_Transaction
  imports Nkn_Config
begin

text \<open>
  Amounts (\<^verbatim>\<open>Amount\<close> of \<^verbatim>\<open>src/util.go\<close>), transactions as far as the SDK looks into them, and the
  \<^verbatim>\<open>rpcClient\<close> interface of \<^verbatim>\<open>src/rpc.go\<close> as a record of the operations it offers.

  An amount is a \<^verbatim>\<open>Fixed64\<close>, a signed 64-bit number of the smallest unit. A program hash is a byte
  string. A transaction is the part of \<^verbatim>\<open>pb.Transaction\<close> that the SDK reads or sets.
\<close>

type_synonym fixed64 = int64
type_synonym program_hash = bytes

record transaction =
  tx_Payload :: bytes
  tx_Nonce :: uint64
  tx_Fee :: int64
  tx_Attributes :: bytes
  tx_Programs :: "bytes list"

record nano_pay_pb =
  npb_Sender :: bytes
  npb_Recipient :: bytes
  npb_Id :: uint64
  npb_Amount :: int64
  npb_TxnExpiration :: uint32
  npb_NanoPayExpiration :: uint32

text \<open>The result of \<^verbatim>\<open>transaction.Unpack\<close>, by its dynamic type.\<close>

datatype unpacked = UNanoPay nano_pay_pb | UOther

section \<open>Amounts\<close>

definition NewAmount :: "(string \<Rightarrow> fixed64 result) \<Rightarrow> string \<Rightarrow> fixed64 result" where
  "NewAmount StringToFixed64 s = and_then (StringToFixed64 s) (\<lambda>fixed. Ok fixed)"

definition Amount_ToFixed64 :: "fixed64 option \<Rightarrow> fixed64" where
  "Amount_ToFixed64 amount = (case amount of None \<Rightarrow> 0 | Some a \<Rightarrow> a)"

section \<open>The RPC client interface\<close>

record subscribers =
  sb_Subscribers :: "(string \<times> string) list"
  sb_SubscribersInTxPool :: "(string \<times> string) list"

record subscription =
  sn_Meta :: string
  sn_ExpiresAt :: int32

record registrant =
  rg_Registrant :: string
  rg_ExpiresAt :: int32

text \<open>
  The methods with a context and those without are one here: the latter call the former with a
  background context.
\<close>

record 'w rpc_client =
  rpcGetNonce :: "bool \<Rightarrow> ('w, err, int64) act"
  rpcGetNonceByAddress :: "string \<Rightarrow> bool \<Rightarrow> ('w, err, int64) act"
  rpcBalance :: "('w, err, fixed64) act"
  rpcBalanceByAddress :: "string \<Rightarrow> ('w, err, fixed64) act"
  rpcGetHeight :: "('w, err, int32) act"
  rpcGetSubscribers :: "string \<Rightarrow> int \<Rightarrow> int \<Rightarrow> bool \<Rightarrow> bool \<Rightarrow> bytes \<Rightarrow> ('w, err, subscribers) act"
  rpcGetSubscription :: "string \<Rightarrow> string \<Rightarrow> ('w, err, subscription) act"
  rpcGetSubscribersCount :: "string \<Rightarrow> bytes \<Rightarrow> ('w, err, int) act"
  rpcGetRegistrant :: "string \<Rightarrow> ('w, err, registrant) act"
  rpcSendRawTransaction :: "transaction \<Rightarrow> ('w, err, string) act"

end
