(* ===== verification/Nkn_NanoPay.thy ===== *)
theory Nkn_NanoPay
  imports Nkn_Transaction Nkn_Events
begin

text \<open>
  Nano payments (\<^verbatim>\<open>src/nanopay.go\<close>): the payer's \<^verbatim>\<open>NanoPay\<close>, which signs transactions of growing
  amount, and the recipient's \<^verbatim>\<open>NanoPayClaimer\<close>, which accepts them and sends the latest one to the
  chain.

  Parsing, unpacking, signing and verifying transactions belong to the node's packages and to
  the wallet: they are parameters (\<open>nano_ext\<close>). The clock, randomness and the RPC client are
  actions over the environment state. The state of an operation is the object paired with the
  environment; one operation is one critical section under the object's lock, as in the code.
  \<^verbatim>\<open>Claim\<close> makes its first checks, which only read the transaction, before it takes the lock.
\<close>

section \<open>State\<close>

definition senderExpirationDelta :: uint32 where "senderExpirationDelta = 5"
definition forceFlushDelta :: uint32 where "forceFlushDelta = 2"
definition receiverExpirationDelta :: uint32 where "receiverExpirationDelta = 3"

record nano_pay =
  np_senderProgramHash :: program_hash
  np_recipientAddress :: string
  np_recipientProgramHash :: program_hash
  np_fee :: fixed64
  np_duration :: uint32
  np_amount :: fixed64
  np_expiration :: uint32
  np_id :: uint64

record claimer =
  npc_recipientAddress :: string
  npc_recipientProgramHash :: program_hash
  npc_minFlushAmount :: fixed64
  npc_amount :: fixed64
  npc_closed :: bool
  npc_closeChan :: "unit chan"
  npc_expiration :: uint32
  npc_id :: "uint64 option"
  npc_lastClaimTime :: int
  npc_prevClaimedAmount :: fixed64
  npc_prevFlushAmount :: fixed64
  npc_tx :: "transaction option"

text \<open>
  Times are milliseconds since the epoch. \<open>randUint64\<close> retries until the random source answers,
  so it always returns a value.
\<close>

record 'w nano_ext =
  ToScriptHash :: "string \<Rightarrow> program_hash result"
  StringToFixed64 :: "string \<Rightarrow> fixed64 result"
  NewNanoPayTransaction :: "program_hash \<Rightarrow> program_hash \<Rightarrow> uint64 \<Rightarrow> fixed64 \<Rightarrow> uint32 \<Rightarrow> uint32 \<Rightarrow> transaction result"
  SignTx :: "transaction \<Rightarrow> transaction result"
  Unpack :: "bytes \<Rightarrow> unpacked result"
  Uint160ParseFromBytes :: "bytes \<Rightarrow> program_hash result"
  Uint160_CompareTo :: "program_hash \<Rightarrow> program_hash \<Rightarrow> int"
  Uint160_ToAddress :: "program_hash \<Rightarrow> string result"
  VerifyTransaction :: "transaction \<Rightarrow> uint32 \<Rightarrow> unit result"
  randUint64 :: "'w \<Rightarrow> uint64 \<times> 'w"
  now :: "'w \<Rightarrow> int \<times> 'w"

section \<open>The payer\<close>

definition NewNanoPay :: "'w nano_ext \<Rightarrow> program_hash \<Rightarrow> string \<Rightarrow> string \<Rightarrow> int \<Rightarrow> ('w, err, nano_pay) act" where
  "NewNanoPay x senderHash recipientAddress fee duration =
     bnd (of_res (ToScriptHash x recipientAddress)) (\<lambda>programHash.
     bnd (of_res (StringToFixed64 x fee)) (\<lambda>feeFixed64.
     (\<lambda>w. case randUint64 x w of (i, w') \<Rightarrow>
        (Ok \<lparr>np_senderProgramHash = senderHash, np_recipientAddress = recipientAddress,
             np_recipientProgramHash = programHash, np_fee = feeFixed64, np_duration = word_of_int duration,
             np_amount = 0, np_expiration = 0, np_id = i\<rparr>, w'))))"

definition NanoPay_Recipient :: "nano_pay \<Rightarrow> string" where
  "NanoPay_Recipient np = np_recipientAddress np"

text \<open>
  \<^verbatim>\<open>IncrementAmount\<close>, in the order of its body: the height, where a failed query counts as height 0
  and is only an error when the channel has no expiration yet; the start of a new channel when the
  old one is about to expire; the increment; the transaction for the new amount.
\<close>

definition np_height :: "'w rpc_client \<Rightarrow> (nano_pay \<times> 'w, err, uint32) act" where
  "np_height rpc =
     attempt (env (rpcGetHeight rpc))
       (\<lambda>err. bnd (obj np_expiration) (\<lambda>expiration. if expiration = 0 then throw err else ret 0))
       (\<lambda>height. ret height)"

definition np_renew :: "'w nano_ext \<Rightarrow> uint32 \<Rightarrow> (nano_pay \<times> 'w, err, unit) act" where
  "np_renew x height =
     bnd (obj np_expiration) (\<lambda>expiration.
       if expiration = 0 \<or> expiration \<le> height + senderExpirationDelta
       then bnd (env_val (randUint64 x)) (\<lambda>i.
              upd (\<lambda>np. np\<lparr>np_id := i, np_expiration := height + np_duration np, np_amount := 0\<rparr>))
       else ret ())"

definition np_transaction :: "'w nano_ext \<Rightarrow> string \<Rightarrow> (nano_pay \<times> 'w, err, transaction) act" where
  "np_transaction x fee =
     bnd (obj (\<lambda>np. np)) (\<lambda>np.
     bnd (of_res (NewNanoPayTransaction x (np_senderProgramHash np) (np_recipientProgramHash np)
            (np_id np) (np_amount np) (np_expiration np) (np_expiration np))) (\<lambda>tx.
     bnd (if length fee > 0
          then bnd (of_res (StringToFixed64 x fee)) (\<lambda>feeFixed64. ret (tx\<lparr>tx_Fee := feeFixed64\<rparr>))
          else ret (tx\<lparr>tx_Fee := np_fee np\<rparr>)) (\<lambda>tx.
     of_res (SignTx x tx))))"

definition IncrementAmount :: "'w nano_ext \<Rightarrow> 'w rpc_client \<Rightarrow> string \<Rightarrow> string \<Rightarrow> (nano_pay \<times> 'w, err, transaction) act" where
  "IncrementAmount x rpc delta fee =
     bnd (np_height rpc) (\<lambda>height.
     bnd (np_renew x height) (\<lambda>_.
     bnd (of_res (StringToFixed64 x delta)) (\<lambda>deltaValue.
     bnd (upd (\<lambda>np. np\<lparr>np_amount := np_amount np + deltaValue\<rparr>)) (\<lambda>_.
     np_transaction x fee))))"

section \<open>The recipient\<close>

definition claimer_new :: "string \<Rightarrow> program_hash \<Rightarrow> fixed64 \<Rightarrow> int \<Rightarrow> claimer" where
  "claimer_new addr receiver minFlush t =
     \<lparr>npc_recipientAddress = addr, npc_recipientProgramHash = receiver, npc_minFlushAmount = minFlush,
      npc_amount = 0, npc_closed = False, npc_closeChan = make_chan 0, npc_expiration = 0, npc_id = None,
      npc_lastClaimTime = t, npc_prevClaimedAmount = 0, npc_prevFlushAmount = 0, npc_tx = None\<rparr>"

definition NewNanoPayClaimer :: "'w nano_ext \<Rightarrow> string \<Rightarrow> string \<Rightarrow> ('w, err, claimer) act" where
  "NewNanoPayClaimer x recipientAddress minFlushAmount =
     bnd (of_res (ToScriptHash x recipientAddress)) (\<lambda>receiver.
     bnd (of_res (StringToFixed64 x minFlushAmount)) (\<lambda>minFlush.
     (\<lambda>w. case now x w of (t, w') \<Rightarrow> (Ok (claimer_new recipientAddress receiver minFlush t), w'))))"

definition Claimer_Recipient :: "claimer \<Rightarrow> string" where
  "Claimer_Recipient c = npc_recipientAddress c"

definition claimer_close :: "claimer \<Rightarrow> (err, unit) res \<times> claimer" where
  "claimer_close c =
     (if npc_closed c then (Ok (), c)
      else (case chan_close (npc_closeChan c) of
              (r, ch) \<Rightarrow> (r, c\<lparr>npc_closed := True, npc_closeChan := ch\<rparr>)))"

definition Claimer_Close :: "(claimer \<times> 'w, err, unit) act" where
  "Claimer_Close = (\<lambda>(c, w). case claimer_close c of (r, c') \<Rightarrow> (r, (c', w)))"

definition Claimer_IsClosed :: "claimer \<Rightarrow> bool" where
  "Claimer_IsClosed c = npc_closed c"

text \<open>\<^verbatim>\<open>closeWithError\<close>: close, and return the error; a failing close would add its own error.\<close>

definition closeWithError :: "err \<Rightarrow> (claimer \<times> 'w, err, 'a) act" where
  "closeWithError e =
     attempt Claimer_Close (\<lambda>err2. throw (MultiError [e, err2])) (\<lambda>_. throw e)"

text \<open>A call of library code whose error closes the claimer.\<close>

definition or_close :: "'a result \<Rightarrow> (claimer \<times> 'w, err, 'a) act" where
  "or_close r = (case r of Ok a \<Rightarrow> ret a | Err e \<Rightarrow> closeWithError e | Panic p \<Rightarrow> crash p)"

definition flush :: "'w nano_ext \<Rightarrow> 'w rpc_client \<Rightarrow> bool \<Rightarrow> (claimer \<times> 'w, err, unit) act" where
  "flush x rpc force =
     bnd (obj (\<lambda>c. c)) (\<lambda>c.
       if \<not> force \<and> npc_amount c - npc_prevFlushAmount c <s npc_minFlushAmount c then ret ()
       else (case npc_tx c of
          None \<Rightarrow> ret ()
        | Some tx \<Rightarrow>
            bnd (or_close (Unpack x (tx_Payload tx))) (\<lambda>payload.
              case payload of
                UOther \<Rightarrow> closeWithError ErrNotNanoPay
              | UNanoPay npPayload \<Rightarrow>
                  bnd (env (rpcSendRawTransaction rpc tx)) (\<lambda>_.
                  bnd (env_val (now x)) (\<lambda>t.
                    upd (\<lambda>c. c\<lparr>npc_tx := None, npc_expiration := 0, npc_lastClaimTime := t,
                                npc_prevFlushAmount := npb_Amount npPayload\<rparr>))))))"

definition Flush :: "'w nano_ext \<Rightarrow> 'w rpc_client \<Rightarrow> (claimer \<times> 'w, err, unit) act" where
  "Flush x rpc = flush x rpc False"

definition Claimer_Amount :: "claimer \<Rightarrow> fixed64" where
  "Claimer_Amount c = npc_prevClaimedAmount c + npc_amount c"

text \<open>The checks \<^verbatim>\<open>Claim\<close> makes before it takes the lock: they give the payload and the sender's address.\<close>

definition claim_check :: "'w nano_ext \<Rightarrow> transaction \<Rightarrow> uint32 \<Rightarrow> (claimer \<times> 'w, err, nano_pay_pb \<times> string) act" where
  "claim_check x tx height =
     bnd (or_close (Unpack x (tx_Payload tx))) (\<lambda>payload.
     case payload of
       UOther \<Rightarrow> closeWithError ErrNotNanoPay
     | UNanoPay npPayload \<Rightarrow>
         bnd (or_close (Uint160ParseFromBytes x (npb_Recipient npPayload))) (\<lambda>recipient.
         bnd (obj npc_recipientProgramHash) (\<lambda>own.
         if Uint160_CompareTo x recipient own \<noteq> 0 then closeWithError ErrWrongRecipient
         else
         bnd (or_close (VerifyTransaction x tx height)) (\<lambda>_.
         bnd (or_close (Uint160ParseFromBytes x (npb_Sender npPayload))) (\<lambda>sender.
         bnd (or_close (Uint160_ToAddress x sender)) (\<lambda>senderAddress.
         ret (npPayload, senderAddress)))))))"

text \<open>Under the lock: the update of an earlier payment, or the change to a new one.\<close>

definition claim_switch :: "'w nano_ext \<Rightarrow> 'w rpc_client \<Rightarrow> nano_pay_pb \<Rightarrow> (claimer \<times> 'w, err, unit) act" where
  "claim_switch x rpc npPayload =
     bnd (obj (\<lambda>c. c)) (\<lambda>c.
       case npc_id c of
         None \<Rightarrow> ret ()
       | Some i \<Rightarrow>
           if i = npb_Id npPayload
           then (if npb_Amount npPayload \<le>s npc_amount c then closeWithError ErrInvalidAmount else ret ())
           else attempt (flush x rpc False) closeWithError (\<lambda>_.
                  upd (\<lambda>c. c\<lparr>npc_id := None,
                              npc_prevClaimedAmount := npc_prevClaimedAmount c + npc_amount c,
                              npc_prevFlushAmount := 0, npc_amount := 0\<rparr>)))"

text \<open>Still under the lock: the balance and expiration checks, and the new state.\<close>

definition claim_accept :: "transaction \<Rightarrow> uint32 \<Rightarrow> nano_pay_pb \<Rightarrow> fixed64 \<Rightarrow> (claimer \<times> 'w, err, fixed64) act" where
  "claim_accept tx height npPayload senderBalance =
     bnd (obj (\<lambda>c. c)) (\<lambda>c.
     if senderBalance + npc_prevFlushAmount c <s npb_Amount npPayload + tx_Fee tx
     then closeWithError ErrInsufficientBalance
     else if npb_TxnExpiration npPayload \<le> height + receiverExpirationDelta
     then closeWithError ErrExpiredNanoPayTxn
     else if npb_NanoPayExpiration npPayload \<le> height + receiverExpirationDelta
     then closeWithError ErrExpiredNanoPay
     else
     bnd (upd (\<lambda>c. c\<lparr>npc_tx := Some tx, npc_id := Some (npb_Id npPayload),
                     npc_expiration := npb_TxnExpiration npPayload, npc_amount := npb_Amount npPayload\<rparr>)) (\<lambda>_.
     obj Claimer_Amount))"

definition Claim :: "'w nano_ext \<Rightarrow> 'w rpc_client \<Rightarrow> transaction \<Rightarrow> (claimer \<times> 'w, err, fixed64) act" where
  "Claim x rpc tx =
     bnd (env (rpcGetHeight rpc)) (\<lambda>height.
     bnd (claim_check x tx height) (\<lambda>(npPayload, senderAddress).
     bnd (obj npc_closed) (\<lambda>closed.
     if closed then throw ErrNanoPayClosed else
     bnd (claim_switch x rpc npPayload) (\<lambda>_.
     bnd (env (rpcBalanceByAddress rpc senderAddress)) (\<lambda>senderBalance.
     claim_accept tx height npPayload senderBalance)))))"

section \<open>The background loop\<close>

text \<open>
  One round of the loop that \<^verbatim>\<open>NewNanoPayClaimer\<close> starts, after its one minute sleep. The next thing
  to do is another round, a sleep (its length in milliseconds) that a close interrupts, or leaving
  the loop. \<open>ConsensusDuration\<close> is the node's block time in milliseconds.
\<close>

datatype loop_next = NextRound | SleepThenNext int | LeaveLoop

definition claimer_round :: "'w nano_ext \<Rightarrow> 'w rpc_client \<Rightarrow> int \<Rightarrow> int32 \<Rightarrow>
    (claimer \<times> err on_event \<times> 'w) \<Rightarrow> loop_next result \<times> (claimer \<times> err on_event \<times> 'w)" where
  "claimer_round x rpc ConsensusDuration claimIntervalMs = (\<lambda>(c, onError, w).
     if npc_closed c then (Ok LeaveLoop, (c, onError, w))
     else if npc_tx c = None then (Ok NextRound, (c, onError, w))
     else if npc_amount c - npc_prevFlushAmount c <s npc_minFlushAmount c then (Ok NextRound, (c, onError, w))
     else
       (let (t, w) = now x w;
            dueTime = npc_lastClaimTime c + sint claimIntervalMs;
            do_flush = (\<lambda>w. case Flush x rpc (c, w) of
                (Ok _, (c', w')) \<Rightarrow> (Ok NextRound, (c', onError, w'))
              | (Panic p, (c', w')) \<Rightarrow> (Panic p, (c', onError, w'))
              | (Err e, (c', w')) \<Rightarrow>
                  (case (closeWithError e :: (claimer \<times> 'w, err, unit) act) (c', w') of
                     (Err e', (c'', w'')) \<Rightarrow>
                        (case OnError_receive e' onError of
                           (Panic p, oe) \<Rightarrow> (Panic p, (c'', oe, w''))
                         | (_, oe) \<Rightarrow> (Ok LeaveLoop, (c'', oe, w'')))
                   | (Ok _, (c'', w'')) \<Rightarrow> (Ok LeaveLoop, (c'', onError, w''))
                   | (Panic p, (c'', w'')) \<Rightarrow> (Panic p, (c'', onError, w''))))
        in if t < dueTime
           then (case rpcGetHeight rpc w of
               (Err e, w') \<Rightarrow>
                  (case OnError_receive e onError of
                     (Panic p, oe) \<Rightarrow> (Panic p, (c, oe, w'))
                   | (_, oe) \<Rightarrow> (Ok NextRound, (c, oe, w')))
             | (Panic p, w') \<Rightarrow> (Panic p, (c, onError, w'))
             | (Ok height, w') \<Rightarrow>
                  if npc_expiration c > height + forceFlushDelta
                  then (Ok (SleepThenNext (min (dueTime - t)
                          (uint (npc_expiration c - height - forceFlushDelta) * ConsensusDuration))),
                        (c, onError, w'))
                  else do_flush w')
           else do_flush w))"

text \<open>
  One round of the deferred loop that runs when the background loop has been left at time \<open>t\<close>: flush,
  and retry within the linger time, sleeping a minute or until the linger time is over. When it is
  left, the error channel is closed.
\<close>

definition linger_round :: "'w nano_ext \<Rightarrow> 'w rpc_client \<Rightarrow> int32 \<Rightarrow> int \<Rightarrow> (claimer \<times> 'w, err, loop_next) act" where
  "linger_round x rpc lingerMs t =
     attempt (Flush x rpc)
       (\<lambda>err. bnd (env_val (now x)) (\<lambda>t1.
          if t1 - t > sint lingerMs then ret LeaveLoop
          else bnd (env_val (now x)) (\<lambda>t2. ret (SleepThenNext (min 60000 (t + sint lingerMs - t2))))))
       (\<lambda>_. ret LeaveLoop)"

section \<open>Invariant of the claimer\<close>

text \<open>
  \<open>payment_to x r tx p\<close>: the transaction unpacks to the nano payment \<open>p\<close> to the recipient \<open>r\<close> and has
  passed verification at some height.
\<close>

definition payment_to :: "'w nano_ext \<Rightarrow> program_hash \<Rightarrow> transaction \<Rightarrow> nano_pay_pb \<Rightarrow> bool" where
  "payment_to x r tx p \<longleftrightarrow> Unpack x (tx_Payload tx) = Ok (UNanoPay p)
     \<and> (\<exists>q. Uint160ParseFromBytes x (npb_Recipient p) = Ok q \<and> Uint160_CompareTo x q r = 0)
     \<and> (\<exists>h. VerifyTransaction x tx h = Ok ())"

definition claimer_inv :: "'w nano_ext \<Rightarrow> program_hash \<Rightarrow> claimer \<Rightarrow> bool" where
  "claimer_inv x r c \<longleftrightarrow>
     npc_recipientProgramHash c = r
   \<and> (npc_closed c \<longleftrightarrow> ch_closed (npc_closeChan c))
   \<and> (npc_id c = None \<longrightarrow> npc_amount c = 0)
   \<and> (\<forall>tx. npc_tx c = Some tx \<longrightarrow> (\<exists>p. payment_to x r tx p
        \<and> (\<forall>i. npc_id c = Some i \<longrightarrow> npb_Id p = i \<and> npb_Amount p = npc_amount c)))"

abbreviation claimer_ok :: "'w nano_ext \<Rightarrow> program_hash \<Rightarrow> claimer \<times> 'w \<Rightarrow> bool" where
  "claimer_ok x r \<equiv> (\<lambda>s. claimer_inv x r (fst s))"

definition close_claimer :: "claimer \<Rightarrow> claimer" where
  "close_claimer c = (if npc_closed c then c
     else c\<lparr>npc_closed := True, npc_closeChan := npc_closeChan c\<lparr>ch_closed := True\<rparr>\<rparr>)"

lemma close_claimer_simps [simp]:
  "npc_closed (close_claimer c)" "npc_amount (close_claimer c) = npc_amount c"
  "npc_prevClaimedAmount (close_claimer c) = npc_prevClaimedAmount c"
  "npc_id (close_claimer c) = npc_id c" "npc_tx (close_claimer c) = npc_tx c"
  "npc_prevFlushAmount (close_claimer c) = npc_prevFlushAmount c"
  "npc_recipientProgramHash (close_claimer c) = npc_recipientProgramHash c"
  by (simp_all add: close_claimer_def)

lemma claimer_inv_close: "claimer_inv x r c \<Longrightarrow> claimer_inv x r (close_claimer c)"
  by (simp add: claimer_inv_def close_claimer_def)

lemma claimer_inv_new: "claimer_inv x r (claimer_new a r m t)"
  by (simp add: claimer_inv_def claimer_new_def make_chan_def)

lemma Claimer_Close_eq: "claimer_inv x r c \<Longrightarrow> Claimer_Close (c, w) = (Ok (), (close_claimer c, w))"
  by (simp add: Claimer_Close_def claimer_close_def close_claimer_def chan_close_def claimer_inv_def)

lemma closeWithError_eq: "claimer_inv x r c \<Longrightarrow> closeWithError e (c, w) = (Err e, (close_claimer c, w))"
  by (simp add: closeWithError_def attempt_def Claimer_Close_eq)

lemma closeWithError_not_Ok [simp]: "closeWithError e s \<noteq> (Ok a, t)"
  by (simp add: closeWithError_def attempt_def split: prod.splits res.splits)

lemma closeWithError_closed: "closeWithError e (c, w) = (r, (c', w')) \<Longrightarrow> npc_closed c \<Longrightarrow> npc_closed c'"
  by (auto simp: closeWithError_def attempt_def Claimer_Close_def claimer_close_def)

lemma keeps_closeWithError [keeps_intros]: "keeps (claimer_ok x r) (closeWithError e)"
  by (auto simp: keeps_def closeWithError_eq claimer_inv_close)

lemma keeps_or_close [keeps_intros]: "keeps (claimer_ok x r) (or_close z)"
  by (cases z) (auto simp: or_close_def intro: keeps_intros)

lemma or_close_OkE [elim!]:
  assumes "or_close z s = (Ok a, t)"
  obtains "z = Ok a" and "t = s"
  using assms by (cases z) (auto simp: or_close_def)

lemma keeps_case_unpacked [keeps_intros]:
  "keeps P m \<Longrightarrow> (\<And>p. keeps P (f p)) \<Longrightarrow> keeps P (case u of UNanoPay p \<Rightarrow> f p | UOther \<Rightarrow> m)"
  by (cases u) auto

lemma keeps_flush [keeps_intros]: "keeps (claimer_ok x r) (flush x rpc force)"
  unfolding flush_def
  by (intro keeps_intros) (auto simp: claimer_inv_def)

lemma keeps_claim_check [keeps_intros]: "keeps (claimer_ok x r) (claim_check x tx height)"
  unfolding claim_check_def by (intro keeps_intros)

lemma keeps_claim_switch [keeps_intros]: "keeps (claimer_ok x r) (claim_switch x rpc p)"
  unfolding claim_switch_def
  by (intro keeps_intros) (auto simp: claimer_inv_def)

lemma claim_check_Ok:
  assumes "claim_check x tx height (c, w) = (Ok (p, sa), s')"
  shows "s' = (c, w)" and "Unpack x (tx_Payload tx) = Ok (UNanoPay p)"
    and "\<exists>q. Uint160ParseFromBytes x (npb_Recipient p) = Ok q \<and> Uint160_CompareTo x q (npc_recipientProgramHash c) = 0"
    and "VerifyTransaction x tx height = Ok ()"
    and "\<exists>q. Uint160ParseFromBytes x (npb_Sender p) = Ok q \<and> Uint160_ToAddress x q = Ok sa"
  using assms by (auto simp: claim_check_def split: unpacked.splits if_splits)

lemma claim_check_payment:
  "claimer_ok x r s \<Longrightarrow> claim_check x tx height s = (Ok a, s') \<Longrightarrow> payment_to x r tx (fst a)"
  using claim_check_Ok [of x tx height "fst s" "snd s" "fst a" "snd a" s']
  by (auto simp: payment_to_def claimer_inv_def)

lemma keeps_Claim [keeps_intros]: "keeps (claimer_ok x r) (Claim x rpc tx)"
  unfolding Claim_def
proof (rule keeps_bnd, rule keeps_env, simp,
    rule keeps_bnd_post [where Q = "\<lambda>a. payment_to x r tx (fst a)"], rule keeps_claim_check,
    erule (1) claim_check_payment)
qed (unfold claim_accept_def, intro keeps_intros, auto simp: claimer_inv_def)

lemma keeps_claimer_round:
  assumes "claimer_inv x r c" and "claimer_round x rpc cd iv (c, oe, w) = (res, (c', oe', w'))"
  shows "claimer_inv x r c'"
proof -
  have fl: "claimer_inv x r d" if "Flush x rpc (c, v) = (q, (d, v'))" for q d v v'
    using keepsD_eq [OF keeps_flush, of x r "(c, v)" rpc False q "(d, v')"] that assms(1)
    by (simp add: Flush_def)
  from assms show ?thesis
    unfolding claimer_round_def Let_def
    by (auto split: if_splits prod.splits res.splits dest!: fl simp: closeWithError_eq claimer_inv_close)
qed

section \<open>The claimer as a state machine\<close>

inductive claimer_step :: "'w nano_ext \<Rightarrow> 'w rpc_client \<Rightarrow> claimer \<times> 'w \<Rightarrow> claimer \<times> 'w \<Rightarrow> bool" for x rpc where
  claim: "Claim x rpc tx s = (res, t) \<Longrightarrow> claimer_step x rpc s t"
| flush: "Flush x rpc s = (res, t) \<Longrightarrow> claimer_step x rpc s t"
| close: "Claimer_Close s = (res, t) \<Longrightarrow> claimer_step x rpc s t"
| round: "claimer_round x rpc cd iv (c, oe, w) = (res, (c', oe', w')) \<Longrightarrow> claimer_step x rpc (c, w) (c', w')"
| linger: "linger_round x rpc lingerMs t0 s = (res, t) \<Longrightarrow> claimer_step x rpc s t"
| world: "claimer_step x rpc (c, w) (c, w')"

definition claimer_start :: "program_hash \<Rightarrow> claimer \<times> 'w \<Rightarrow> bool" where
  "claimer_start r s \<longleftrightarrow> (\<exists>a m t. fst s = claimer_new a r m t)"

lemma keeps_Claimer_Close: "keeps (claimer_ok x r) Claimer_Close"
  by (auto simp: keeps_def Claimer_Close_eq claimer_inv_close)

lemma keeps_linger_round: "keeps (claimer_ok x r) (linger_round x rpc lingerMs t0)"
  unfolding linger_round_def Flush_def by (intro keeps_intros keeps_flush) simp_all

interpretation claimer: invariant_system "claimer_start r" "claimer_step x rpc" "claimer_ok x r"
  for x :: "'w nano_ext" and rpc r
proof unfold_locales
  fix s :: "claimer \<times> 'w"
  assume "claimer_start r s"
  then show "claimer_ok x r s" by (auto simp: claimer_start_def claimer_inv_new)
next
  fix s t :: "claimer \<times> 'w"
  assume inv: "claimer_ok x r s" and "claimer_step x rpc s t"
  from this(2) show "claimer_ok x r t"
  proof cases
    case (claim tx res)
    then show ?thesis using keepsD_eq [OF keeps_Claim inv] by blast
  next
    case (flush res)
    then show ?thesis using keepsD_eq [OF keeps_flush inv] unfolding Flush_def by blast
  next
    case (close res)
    then show ?thesis using keepsD_eq [OF keeps_Claimer_Close inv] by blast
  next
    case (round cd iv c oe w res c' oe' w')
    then show ?thesis using keeps_claimer_round inv by fastforce
  next
    case (linger lingerMs t0 res)
    then show ?thesis using keepsD_eq [OF keeps_linger_round inv] by blast
  next
    case (world c w w')
    then show ?thesis using inv by simp
  qed
qed

section \<open>What a successful claim does\<close>

lemma flush_frame:
  assumes "flush x rpc force (c, w) = (res, (c', w'))"
  shows "npc_amount c' = npc_amount c \<and> npc_prevClaimedAmount c' = npc_prevClaimedAmount c
    \<and> npc_id c' = npc_id c \<and> npc_minFlushAmount c' = npc_minFlushAmount c
    \<and> (npc_closed c \<longrightarrow> npc_closed c') \<and> (res = Ok () \<longrightarrow> npc_closed c' = npc_closed c)"
  using assms
  by (auto simp: flush_def or_close_def closeWithError_def attempt_def Claimer_Close_def claimer_close_def
      bnd_def env_def env_val_def upd_def obj_def split: if_splits option.splits prod.splits res.splits unpacked.splits)

lemma claim_switch_Ok:
  assumes "claimer_inv x r c" and "claim_switch x rpc p (c, w) = (Ok (), (c', w'))"
  shows "npc_closed c' = npc_closed c"
    and "npc_id c = Some (npb_Id p) \<Longrightarrow> c' = c \<and> npc_amount c <s npb_Amount p"
    and "npc_id c \<noteq> Some (npb_Id p) \<Longrightarrow>
      npc_amount c' = 0 \<and> npc_prevClaimedAmount c' = npc_prevClaimedAmount c + npc_amount c"
  using assms
  by (auto simp: claim_switch_def attempt_def claimer_inv_def upd_def sless_sint sle_sint
      split: option.splits if_splits prod.splits res.splits dest: flush_frame)

lemma claim_accept_Ok:
  assumes "claim_accept tx height p bal (c, w) = (Ok a, (c', w'))"
  shows "\<not> bal + npc_prevFlushAmount c <s npb_Amount p + tx_Fee tx"
    "height + receiverExpirationDelta < npb_TxnExpiration p"
    "height + receiverExpirationDelta < npb_NanoPayExpiration p"
    "c' = c\<lparr>npc_tx := Some tx, npc_id := Some (npb_Id p), npc_expiration := npb_TxnExpiration p,
             npc_amount := npb_Amount p\<rparr>"
    "a = Claimer_Amount c'"
  using assms by (auto simp: claim_accept_def not_le split: if_splits)

lemma Claim_OkE:
  assumes "Claim x rpc tx (c, w) = (Ok a, (c', w'))"
  obtains height p sa bal c1 w1 w2 w3 where
    "rpcGetHeight rpc w = (Ok height, w1)"
    "claim_check x tx height (c, w1) = (Ok (p, sa), (c, w1))" "\<not> npc_closed c"
    "claim_switch x rpc p (c, w1) = (Ok (), (c1, w2))"
    "rpcBalanceByAddress rpc sa w2 = (Ok bal, w3)"
    "\<not> bal + npc_prevFlushAmount c1 <s npb_Amount p + tx_Fee tx"
    "height + receiverExpirationDelta < npb_TxnExpiration p"
    "height + receiverExpirationDelta < npb_NanoPayExpiration p"
    "c' = c1\<lparr>npc_tx := Some tx, npc_id := Some (npb_Id p), npc_expiration := npb_TxnExpiration p,
             npc_amount := npb_Amount p\<rparr>"
    "a = Claimer_Amount c'"
proof -
  from assms obtain height p sa w1 s2 where h: "rpcGetHeight rpc w = (Ok height, w1)"
    and ck: "claim_check x tx height (c, w1) = (Ok (p, sa), s2)"
    and k: "bnd (obj npc_closed) (\<lambda>closed. if closed then throw ErrNanoPayClosed else
       bnd (claim_switch x rpc p) (\<lambda>_. bnd (env (rpcBalanceByAddress rpc sa))
         (\<lambda>senderBalance. claim_accept tx height p senderBalance))) s2 = (Ok a, (c', w'))"
    unfolding Claim_def by (elim bnd_OkE env_OkE) force
  from claim_check_Ok(1) [OF ck] have s2: "s2 = (c, w1)" .
  with k have opn: "\<not> npc_closed c" by auto
  with k s2 have "bnd (claim_switch x rpc p) (\<lambda>_. bnd (env (rpcBalanceByAddress rpc sa))
      (\<lambda>senderBalance. claim_accept tx height p senderBalance)) (c, w1) = (Ok a, (c', w'))" by simp
  then obtain u s3 where sw: "claim_switch x rpc p (c, w1) = (Ok u, s3)"
    and k': "bnd (env (rpcBalanceByAddress rpc sa)) (\<lambda>senderBalance. claim_accept tx height p senderBalance) s3
       = (Ok a, (c', w'))"
    by (rule bnd_OkE)
  obtain c1 w2 where s3: "s3 = (c1, w2)" by (cases s3)
  from k' obtain bal w3 where "rpcBalanceByAddress rpc sa w2 = (Ok bal, w3)"
    and "claim_accept tx height p bal (c1, w3) = (Ok a, (c', w'))"
    unfolding s3 by (elim bnd_OkE env_OkE) simp
  with h ck opn sw s2 s3 claim_accept_Ok show ?thesis by (intro that) simp_all
qed

definition closed_at :: "fixed64 \<Rightarrow> claimer \<times> 'w \<Rightarrow> bool" where
  "closed_at a s \<longleftrightarrow> npc_closed (fst s) \<and> Claimer_Amount (fst s) = a"

lemma keeps_closed_closeWithError [keeps_intros]: "keeps (closed_at a) (closeWithError e)"
  by (auto simp: keeps_def closed_at_def closeWithError_def attempt_def Claimer_Close_def claimer_close_def)

lemma keeps_closed_or_close [keeps_intros]: "keeps (closed_at a) (or_close z)"
  by (cases z) (auto simp: or_close_def intro: keeps_intros)

lemma keeps_closed_guard: "keeps (closed_at a) (bnd (obj npc_closed) (\<lambda>closed. if closed then throw e else m))"
  by (auto simp: keeps_def closed_at_def)

lemma keeps_closed_Claim: "keeps (closed_at a) (Claim x rpc tx)"
  unfolding Claim_def claim_check_def
  by (intro keeps_intros keeps_closed_guard) (simp_all add: closed_at_def)

lemma closed_Claim:
  assumes "npc_closed c" and "Claim x rpc tx (c, w) = (res, (c', w'))"
  shows "npc_closed c' \<and> Claimer_Amount c' = Claimer_Amount c \<and> \<not> is_ok res"
proof -
  have "closed_at (Claimer_Amount c) (c', w')"
    using keepsD_eq [OF keeps_closed_Claim _ assms(2), of "Claimer_Amount c"] assms(1) by (simp add: closed_at_def)
  moreover have "\<not> is_ok res"
    using assms by (auto simp: is_ok_iff elim!: Claim_OkE)
  ultimately show ?thesis by (simp add: closed_at_def)
qed

section \<open>A concrete environment\<close>

text \<open>
  Instances of the third-party functions in which the payments \<open>''A''\<close>, \<open>''B''\<close> and \<open>''C''\<close> exist, and
  an RPC client that answers every query.
\<close>

definition demo_payment :: "uint64 \<Rightarrow> int64 \<Rightarrow> nano_pay_pb" where
  "demo_payment i a = \<lparr>npb_Sender = ''S'', npb_Recipient = ''R'', npb_Id = i, npb_Amount = a,
     npb_TxnExpiration = 50, npb_NanoPayExpiration = 60\<rparr>"

definition demo_tx :: "bytes \<Rightarrow> transaction" where
  "demo_tx b = \<lparr>tx_Payload = b, tx_Nonce = 0, tx_Fee = 1, tx_Attributes = [], tx_Programs = []\<rparr>"

definition demo_ext :: "unit nano_ext" where
  "demo_ext = \<lparr>ToScriptHash = Ok, StringToFixed64 = (\<lambda>s. Ok (of_nat (length s))),
     NewNanoPayTransaction = (\<lambda>s r i a e e'. Ok (demo_tx ''A'')),
     SignTx = Ok,
     Unpack = (\<lambda>b. if b = ''A'' then Ok (UNanoPay (demo_payment 7 40))
        else if b = ''B'' then Ok (UNanoPay (demo_payment 7 65))
        else if b = ''C'' then Ok (UNanoPay (demo_payment 8 10)) else Ok UOther),
     Uint160ParseFromBytes = Ok, Uint160_CompareTo = (\<lambda>a b. if a = b then 0 else 1),
     Uint160_ToAddress = Ok, VerifyTransaction = (\<lambda>tx h. Ok ()), randUint64 = (\<lambda>w. (7, w)), now = (\<lambda>w. (0, w))\<rparr>"

definition demo_rpc :: "unit rpc_client" where
  "demo_rpc = \<lparr>rpcGetNonce = (\<lambda>b. ret 0), rpcGetNonceByAddress = (\<lambda>a b. ret 0), rpcBalance = ret 1000,
     rpcBalanceByAddress = (\<lambda>a. ret 1000), rpcGetHeight = ret 10,
     rpcGetSubscribers = (\<lambda>t ofs lim m p h. ret \<lparr>sb_Subscribers = [], sb_SubscribersInTxPool = []\<rparr>),
     rpcGetSubscription = (\<lambda>t a. ret \<lparr>sn_Meta = [], sn_ExpiresAt = 0\<rparr>), rpcGetSubscribersCount = (\<lambda>t h. ret 0),
     rpcGetRegistrant = (\<lambda>n. ret \<lparr>rg_Registrant = [], rg_ExpiresAt = 0\<rparr>), rpcSendRawTransaction = (\<lambda>tx. ret ''hash'')\<rparr>"

definition demo_claimer :: claimer where
  "demo_claimer = claimer_new ''NKN'' ''R'' 20 0"

definition demo_claimed :: claimer where
  "demo_claimed = demo_claimer\<lparr>npc_tx := Some (demo_tx ''A''), npc_id := Some 7, npc_expiration := 50, npc_amount := 40\<rparr>"

definition demo_nano_pay :: nano_pay where
  "demo_nano_pay = \<lparr>np_senderProgramHash = ''S'', np_recipientAddress = ''NKN'', np_recipientProgramHash = ''R'',
     np_fee = 1, np_duration = 100, np_amount = 0, np_expiration = 0, np_id = 7\<rparr>"

lemmas demo_defs = demo_payment_def demo_tx_def demo_ext_def demo_rpc_def demo_claimer_def demo_claimed_def claimer_new_def

lemmas claim_defs = Claim_def claim_check_def claim_switch_def claim_accept_def or_close_def Claimer_Amount_def
  receiverExpirationDelta_def

lemma demo_claim_A: "Claim demo_ext demo_rpc (demo_tx ''A'') (demo_claimer, ()) = (Ok 40, (demo_claimed, ()))"
  by (simp add: claim_defs demo_defs bnd_def word_sless_alt)

lemma demo_start: "claimer_start ''R'' (demo_claimer, ())"
  by (auto simp: claimer_start_def demo_claimer_def)

lemma demo_reach: "(claimer_step demo_ext demo_rpc)\<^sup>*\<^sup>* (demo_claimer, ()) (demo_claimed, ())"
  by (rule r_into_rtranclp) (rule claimer_step.claim [OF demo_claim_A])

section \<open>Properties\<close>

text \<open>
  C4: every state a claimer can reach, by any sequence of claims, flushes, closes and rounds of its
  background loop with any answers of the network, satisfies the invariant: the transaction it
  holds for the chain is a verified nano payment to this recipient, it is the one the recorded id
  and amount come from, and closing the claimer does not panic.
\<close>

theorem claimer_reachable_invariant:
  assumes "claimer_start r s" and "(claimer_step x rpc)\<^sup>*\<^sup>* s (c, w)"
  shows "(\<forall>tx. npc_tx c = Some tx \<longrightarrow> (\<exists>p. payment_to x r tx p
        \<and> (\<forall>i. npc_id c = Some i \<longrightarrow> npb_Id p = i \<and> npb_Amount p = npc_amount c)))
    \<and> fst (Claimer_Close (c, w)) = Ok () \<and> npc_closed (fst (snd (Claimer_Close (c, w))))"
proof -
  from claimer.reachable_inv [OF assms] have "claimer_inv x r c" by simp
  moreover from this have "Claimer_Close (c, w) = (Ok (), (close_claimer c, w))" by (rule Claimer_Close_eq)
  ultimately show ?thesis by (simp add: claimer_inv_def)
qed

theorem claimer_reachable_invariant_witness:
  "npc_tx demo_claimed = Some (demo_tx ''A'') \<and> (\<exists>p. payment_to demo_ext ''R'' (demo_tx ''A'') p \<and> npb_Amount p = 40)"
proof -
  have "npc_tx demo_claimed = Some (demo_tx ''A'')" "npc_id demo_claimed = Some 7" "npc_amount demo_claimed = 40"
    by (simp_all add: demo_claimed_def)
  with claimer_reachable_invariant [OF demo_start demo_reach] show ?thesis by auto
qed

text \<open>
  C11: what a claim counts. When a claim succeeds on a claimer in a reachable state, the returned
  total is the total before plus the increase: the amount of the payment when it is a new payment,
  the difference to the amount already counted when it continues the current one, in which case
  the amount is strictly larger.
\<close>

theorem Claim_accounting:
  assumes "claimer_start r s" and "(claimer_step x rpc)\<^sup>*\<^sup>* s (c, w)"
    and "Claim x rpc tx (c, w) = (Ok a, (c', w'))"
  shows "\<exists>p. payment_to x r tx p \<and> npc_tx c' = Some tx \<and> a = Claimer_Amount c'
    \<and> (if npc_id c = Some (npb_Id p)
       then a = Claimer_Amount c + (npb_Amount p - npc_amount c) \<and> npc_amount c <s npb_Amount p
       else a = Claimer_Amount c + npb_Amount p)"
proof -
  from claimer.reachable_inv [OF assms(1,2)] have inv: "claimer_inv x r c" by simp
  from assms(3) obtain height p sa bal c1 w1 w2 w3 where
    ck: "claim_check x tx height (c, w1) = (Ok (p, sa), (c, w1))"
    and sw: "claim_switch x rpc p (c, w1) = (Ok (), (c1, w2))"
    and c': "c' = c1\<lparr>npc_tx := Some tx, npc_id := Some (npb_Id p), npc_expiration := npb_TxnExpiration p,
             npc_amount := npb_Amount p\<rparr>" and a: "a = Claimer_Amount c'"
    by (rule Claim_OkE)
  have "payment_to x r tx p"
    using claim_check_payment [of x r "(c, w1)", OF _ ck] inv by simp
  then show ?thesis
    using claim_switch_Ok(2,3) [OF inv sw] c' a by (intro exI [of _ p]) (auto simp: Claimer_Amount_def)
qed

theorem Claim_accounting_witness:
  "\<exists>c' w'. Claim demo_ext demo_rpc (demo_tx ''B'') (demo_claimed, ()) = (Ok 65, (c', w')) \<and> npc_tx c' = Some (demo_tx ''B'')"
proof -
  obtain c' w' where c: "Claim demo_ext demo_rpc (demo_tx ''B'') (demo_claimed, ()) = (Ok 65, (c', w'))"
    by (simp add: claim_defs demo_defs bnd_def word_sless_alt word_sle_eq)
  show ?thesis using Claim_accounting [OF demo_start demo_reach c] c by blast
qed

text \<open>
  C15: a claim is only accepted when it is safe to. The payment is to this recipient and verified
  at the current height, both its expirations lie more than three blocks ahead, the sender's balance
  together with what was already flushed covers amount and fee, and the claimer is open.
\<close>

theorem Claim_safe:
  assumes "Claim x rpc tx (c, w) = (Ok a, (c', w'))"
  shows "\<exists>height w1 p q c1. rpcGetHeight rpc w = (Ok height, w1) \<and> Unpack x (tx_Payload tx) = Ok (UNanoPay p)
    \<and> Uint160ParseFromBytes x (npb_Recipient p) = Ok q \<and> Uint160_CompareTo x q (npc_recipientProgramHash c) = 0
    \<and> VerifyTransaction x tx height = Ok () \<and> \<not> npc_closed c
    \<and> height + 3 < npb_TxnExpiration p \<and> height + 3 < npb_NanoPayExpiration p
    \<and> (\<exists>sa bal w2 w3. claim_switch x rpc p (c, w1) = (Ok (), (c1, w2)) \<and> rpcBalanceByAddress rpc sa w2 = (Ok bal, w3)
        \<and> npb_Amount p + tx_Fee tx \<le>s bal + npc_prevFlushAmount c1)"
proof -
  from assms obtain height p sa bal c1 w1 w2 w3 where
    h: "rpcGetHeight rpc w = (Ok height, w1)"
    and ck: "claim_check x tx height (c, w1) = (Ok (p, sa), (c, w1))" and op: "\<not> npc_closed c"
    and sw: "claim_switch x rpc p (c, w1) = (Ok (), (c1, w2))"
    and bal: "rpcBalanceByAddress rpc sa w2 = (Ok bal, w3)"
    and le: "\<not> bal + npc_prevFlushAmount c1 <s npb_Amount p + tx_Fee tx"
    and ex: "height + receiverExpirationDelta < npb_TxnExpiration p"
      "height + receiverExpirationDelta < npb_NanoPayExpiration p"
    by (rule Claim_OkE)
  from claim_check_Ok(3) [OF ck] obtain q where
    "Uint160ParseFromBytes x (npb_Recipient p) = Ok q" "Uint160_CompareTo x q (npc_recipientProgramHash c) = 0"
    by blast
  moreover from le have "npb_Amount p + tx_Fee tx \<le>s bal + npc_prevFlushAmount c1"
    by (simp add: sless_sint sle_sint)
  ultimately show ?thesis
    using h claim_check_Ok(2,4) [OF ck] op sw bal ex unfolding receiverExpirationDelta_def by blast
qed

theorem Claim_safe_witness:
  "\<not> npc_closed demo_claimer \<and> VerifyTransaction demo_ext (demo_tx ''A'') 10 = Ok ()"
  using Claim_safe [OF demo_claim_A] by (auto simp: demo_rpc_def)

text \<open>
  closing is final. Once a claimer is closed, no claim is accepted any more, whatever it is
  given, the counted total does not change, and it stays closed.
\<close>

theorem closed_claimer_stays_closed:
  assumes "npc_closed c" and "Claim x rpc tx (c, w) = (res, (c', w'))"
  shows "npc_closed c' \<and> \<not> is_ok res \<and> Claimer_Amount c' = Claimer_Amount c
    \<and> npc_closed (fst (snd (Flush x rpc (c, w)))) \<and> Claimer_Close (c, w) = (Ok (), (c, w))"
proof -
  obtain q d v where "Flush x rpc (c, w) = (q, (d, v))" by (metis surj_pair)
  with flush_frame [of x rpc False c w q d v] assms(1) have "npc_closed (fst (snd (Flush x rpc (c, w))))"
    by (simp add: Flush_def)
  moreover have "Claimer_Close (c, w) = (Ok (), (c, w))"
    using assms(1) by (simp add: Claimer_Close_def claimer_close_def)
  ultimately show ?thesis using closed_Claim [OF assms] by blast
qed

theorem closed_claimer_stays_closed_witness:
  "\<exists>res c' w'. Claim demo_ext demo_rpc (demo_tx ''B'') (close_claimer demo_claimed, ()) = (res, (c', w'))
     \<and> npc_closed c' \<and> \<not> is_ok res"
proof -
  obtain res c' w' where c: "Claim demo_ext demo_rpc (demo_tx ''B'') (close_claimer demo_claimed, ()) = (res, (c', w'))"
    by (metis surj_pair)
  show ?thesis using closed_claimer_stays_closed [OF _ c] c by auto
qed

text \<open>
  a payment below the flush threshold is dropped when the payer changes to a new payment. The
  claimer counts it as claimed, but it never sends the transaction: the outcome does not depend on
  \<open>SendRawTransaction\<close> at all, and the held transaction is replaced. The comment above \<^verbatim>\<open>Claim\<close> says
  that the previous state is flushed and sent to chain before the new one is accepted.
\<close>

theorem small_remainder_not_flushed:
  assumes "npc_id c = Some i" and "i \<noteq> npb_Id p"
    and "npc_amount c - npc_prevFlushAmount c <s npc_minFlushAmount c"
  shows "claim_switch x (rpc\<lparr>rpcSendRawTransaction := send\<rparr>) p (c, w) =
    (Ok (), (c\<lparr>npc_id := None, npc_prevClaimedAmount := npc_prevClaimedAmount c + npc_amount c,
               npc_prevFlushAmount := 0, npc_amount := 0\<rparr>, w))"
  using assms by (simp add: claim_switch_def attempt_def flush_def)

theorem small_remainder_not_flushed_witness:
  "claim_switch demo_ext (demo_rpc\<lparr>rpcSendRawTransaction := (\<lambda>tx. crash NilDereference)\<rparr>) (demo_payment 8 10)
     (demo_claimed\<lparr>npc_prevFlushAmount := 30\<rparr>, ()) =
   (Ok (), (demo_claimed\<lparr>npc_prevFlushAmount := 0, npc_id := None, npc_prevClaimedAmount := 40, npc_amount := 0\<rparr>, ()))"
  using small_remainder_not_flushed [of "demo_claimed\<lparr>npc_prevFlushAmount := 30\<rparr>" 7 "demo_payment 8 10" demo_ext
      "\<lambda>tx. crash NilDereference" demo_rpc "()"]
  by (simp add: demo_defs word_sless_alt)



end
