(* ===== verification/Go_JSON.thy ===== *)
theory Go_JSON
  imports Go_Strings
begin

text \<open>
  What the SDK uses of \<^verbatim>\<open>encoding/json\<close>. A text is parsed to a tree by a parameter of the functions
  that use it; decoding the tree into a Go value is defined here. A decoder takes the value that is
  already in the variable and returns the new value and whether there was a type error: like
  \<^verbatim>\<open>json.Unmarshal\<close>, decoding goes on after a type error in one field and reports it at the end,
  null leaves a value as it is, unknown keys are skipped, keys match without regard to case, and a
  later key overwrites an earlier one.
\<close>

datatype json =
    JNull
  | JBool bool
  | JInt int
  | JFrac
  | JStr string
  | JArr "json list"
  | JObj "(string \<times> json) list"

text \<open>\<open>JFrac\<close> is a number that is no integer; the SDK decodes none.\<close>

type_synonym 'r decoder = "'r \<Rightarrow> json \<Rightarrow> 'r \<times> bool"

definition lower_char :: "char \<Rightarrow> char" where
  "lower_char c = (let n = of_char c :: nat in if 65 \<le> n \<and> n \<le> 90 then char_of (n + 32) else c)"

definition key_eq :: "string \<Rightarrow> string \<Rightarrow> bool" where
  "key_eq a b \<longleftrightarrow> map lower_char a = map lower_char b"

fun dec_string :: "string decoder" where
  "dec_string old (JStr s) = (s, True)"
| "dec_string old JNull = (old, True)"
| "dec_string old _ = (old, False)"

text \<open>An unsigned integer of a given width, and a signed one.\<close>

fun dec_uint :: "'n::len word decoder" where
  "dec_uint old (JInt i) = (if 0 \<le> i \<and> i < 2 ^ LENGTH('n) then (word_of_int i, True) else (old, False))"
| "dec_uint old JNull = (old, True)"
| "dec_uint old _ = (old, False)"

fun dec_sint :: "'n::len word decoder" where
  "dec_sint old (JInt i) =
     (if - (2 ^ (LENGTH('n) - 1)) \<le> i \<and> i < 2 ^ (LENGTH('n) - 1) then (word_of_int i, True) else (old, False))"
| "dec_sint old JNull = (old, True)"
| "dec_sint old _ = (old, False)"

text \<open>A Go \<^verbatim>\<open>int\<close> has 64 bits on the platforms the SDK supports.\<close>

fun dec_int :: "int decoder" where
  "dec_int old (JInt i) = (if - (2 ^ 63) \<le> i \<and> i < 2 ^ 63 then (i, True) else (old, False))"
| "dec_int old JNull = (old, True)"
| "dec_int old _ = (old, False)"

text \<open>A struct: the decoders of its fields by key.\<close>

fun dec_fields :: "(string \<times> 'r decoder) list \<Rightarrow> (string \<times> json) list \<Rightarrow> 'r \<Rightarrow> 'r \<times> bool" where
  "dec_fields ds [] r = (r, True)"
| "dec_fields ds ((k, v) # kvs) r =
     (case find (\<lambda>(k', _). key_eq k k') ds of
        None \<Rightarrow> dec_fields ds kvs r
      | Some (_, d) \<Rightarrow>
          (case d r v of (r', b) \<Rightarrow> (case dec_fields ds kvs r' of (r'', b') \<Rightarrow> (r'', b \<and> b'))))"

fun dec_struct :: "(string \<times> 'r decoder) list \<Rightarrow> 'r decoder" where
  "dec_struct ds r (JObj kvs) = dec_fields ds kvs r"
| "dec_struct ds r JNull = (r, True)"
| "dec_struct ds r _ = (r, False)"

text \<open>The decoder of one field, from the decoder of its value.\<close>

definition at_field :: "('r \<Rightarrow> 'v) \<Rightarrow> ('v \<Rightarrow> 'r \<Rightarrow> 'r) \<Rightarrow> 'v decoder \<Rightarrow> 'r decoder" where
  "at_field getf setf d r j = (case d (getf r) j of (v, b) \<Rightarrow> (setf v r, b))"

text \<open>A \<^verbatim>\<open>map[string]interface{}\<close>: entries are added to the map that is there.\<close>

fun dec_map :: "(string \<times> json) list decoder" where
  "dec_map old (JObj kvs) = (old @ kvs, True)"
| "dec_map old JNull = (old, True)"
| "dec_map old _ = (old, False)"

definition map_get :: "(string \<times> json) list \<Rightarrow> string \<Rightarrow> json option" where
  "map_get kvs k = map_of (rev kvs) k"

text \<open>The entries of a Go map built from a list of assignments: one per key, with the last value.\<close>

fun go_map :: "('k \<times> 'v) list \<Rightarrow> ('k \<times> 'v) list" where
  "go_map [] = []"
| "go_map ((k, v) # kvs) = (if k \<in> fst ` set kvs then go_map kvs else (k, v) # go_map kvs)"

lemma go_map_keys [simp]: "fst ` set (go_map kvs) = fst ` set kvs"
  by (induction kvs rule: go_map.induct) auto

lemma go_map_distinct: "distinct (map fst (go_map kvs))"
  by (induction kvs rule: go_map.induct) auto

lemma go_map_lookup: "map_of (go_map kvs) k = map_of (rev kvs) k"
proof (induction kvs rule: go_map.induct)
  case (2 k' v kvs)
  show ?case
  proof (cases "k' \<in> fst ` set kvs")
    case True
    then have "map_of (rev kvs) k' \<noteq> None" by (simp add: map_of_eq_None_iff)
    with 2 True show ?thesis by (auto simp: map_add_def split: option.splits)
  next
    case False
    then have "map_of (rev kvs) k' = None" by (simp add: map_of_eq_None_iff)
    with 2 False show ?thesis by (auto simp: map_add_def split: option.splits)
  qed
qed simp

end
