(* ===== verification/Nkn_RPC.thy ===== *)
theory Nkn_RPC
  imports Nkn_Transaction Nkn_Events Go_JSON "HOL-Library.Sublist"
begin

text \<open>
  Remote procedure calls (\<^verbatim>\<open>src/rpc.go\<close>): the call itself and the queries built on it. The network
  and the JSON text syntax are parameters (\<open>net_ext\<close>). \<open>Http_Do\<close> is one HTTP exchange: the status
  and the body, or the error of the transport. \<open>ctx_Err\<close> is the error of the caller's context, none
  while it is neither cancelled nor past its deadline. \<open>arrival\<close> is the order in which the workers
  get to handle the seed addresses; with one worker, the default, it is the order of the list.
  Log lines are not modelled.
\<close>

section \<open>Data\<close>

record err_resp =
  er_Code :: int32
  er_Message :: string
  er_Data :: string

record 'w net_ext =
  Http_Do :: "string \<Rightarrow> bytes \<Rightarrow> int32 \<Rightarrow> dial_fn option \<Rightarrow> ('w, err, int \<times> bytes) act"
  Http_StatusText :: "int \<Rightarrow> string"
  Json_Parse :: "bytes \<Rightarrow> json option"
  Json_Print :: "json \<Rightarrow> bytes result"
  ctx_Err :: "'w \<Rightarrow> err option"
  arrival :: "int32 \<Rightarrow> string list \<Rightarrow> 'w \<Rightarrow> string list"
  Parse_Fixed64 :: "string \<Rightarrow> fixed64 result"
  Tx_Marshal :: "transaction \<Rightarrow> bytes result"

definition one_worker_in_order :: "'w net_ext \<Rightarrow> bool" where
  "one_worker_in_order net \<longleftrightarrow> (\<forall>as w. arrival net 1 as w = as)"

section \<open>The call\<close>

definition httpPost :: "'w net_ext \<Rightarrow> string \<Rightarrow> bytes \<Rightarrow> int32 \<Rightarrow> dial_fn option \<Rightarrow> ('w, err, bytes) act" where
  "httpPost net addr reqBody timeout dialContext =
     bnd (Http_Do net addr reqBody timeout dialContext) (\<lambda>(status, body).
       if status \<noteq> 200
       then throw (ExternalError (''rpc call failed with '' @ Itoa status @ '': '' @ Http_StatusText net status))
       else ret body)"

definition dec_errResp :: "err_resp decoder" where
  "dec_errResp = dec_struct
     [(''Code'', at_field er_Code (\<lambda>v r. r\<lparr>er_Code := v\<rparr>) dec_sint),
      (''Message'', at_field er_Message (\<lambda>v r. r\<lparr>er_Message := v\<rparr>) dec_string),
      (''Data'', at_field er_Data (\<lambda>v r. r\<lparr>er_Data := v\<rparr>) dec_string)]"

text \<open>\<^verbatim>\<open>rpcResp\<close>: the error of this response, and the caller's variable that \<^verbatim>\<open>Result\<close> points to.\<close>

definition dec_rpcResp :: "'r decoder \<Rightarrow> (err_resp \<times> 'r) decoder" where
  "dec_rpcResp d = dec_struct
     [(''error'', at_field fst (\<lambda>v (_, r). (v, r)) dec_errResp),
      (''result'', at_field snd (\<lambda>v (e, _). (e, v)) d)]"

datatype answer = NoAnswer | Success | ErrorAnswer err_resp

text \<open>
  What a worker does with one response body: skip it, take it, or crash. The variable \<^verbatim>\<open>resp\<close> is a
  pointer, and the body \<^verbatim>\<open>null\<close> sets it to nil before its error is read.
\<close>

definition handle_body :: "'w net_ext \<Rightarrow> 'r decoder \<Rightarrow> bytes \<Rightarrow> 'r \<Rightarrow> (answer \<times> 'r) result" where
  "handle_body net d body r =
     (case Json_Parse net body of
        None \<Rightarrow> Ok (NoAnswer, r)
      | Some JNull \<Rightarrow> Panic NilDereference
      | Some j \<Rightarrow>
          (case dec_rpcResp d (\<lparr>er_Code = 0, er_Message = [], er_Data = []\<rparr>, r) j of ((er, r'), good) \<Rightarrow>
             if \<not> good then Ok (NoAnswer, r')
             else if er_Code er \<noteq> 0 \<or> length (er_Data er) > 0 \<or> length (er_Message er) > 0
             then Ok (ErrorAnswer er, r')
             else Ok (Success, r')))"

text \<open>The workers' loop over the addresses, in the order they are handled.\<close>

fun rpc_scan :: "'w net_ext \<Rightarrow> bytes \<Rightarrow> rpc_config \<Rightarrow> 'r decoder \<Rightarrow> string list \<Rightarrow> 'r \<Rightarrow> ('w, err, answer \<times> 'r) act" where
  "rpc_scan net req cfg d [] r = ret (NoAnswer, r)"
| "rpc_scan net req cfg d (addr # addrs) r =
     attempt (httpPost net addr req (rc_RPCTimeout cfg) (rc_HttpDialContext cfg))
       (\<lambda>err w. if ctx_Err net w \<noteq> None then (Ok (NoAnswer, r), w) else rpc_scan net req cfg d addrs r w)
       (\<lambda>body w. if ctx_Err net w \<noteq> None then (Ok (NoAnswer, r), w)
          else (case handle_body net d body r of
                  Ok (NoAnswer, r') \<Rightarrow> rpc_scan net req cfg d addrs r' w
                | Ok (ans, r') \<Rightarrow> (Ok (ans, r'), w)
                | Err e \<Rightarrow> (Err e, w)
                | Panic p \<Rightarrow> (Panic p, w)))"

text \<open>What the call returns once its workers are done: the caller's cancellation comes first.\<close>

definition rpc_outcome :: "err option \<Rightarrow> answer \<Rightarrow> 'r \<Rightarrow> 'r result" where
  "rpc_outcome ctxErr ans r =
     (case ctxErr of
        Some e \<Rightarrow> Err (errorWithCode e errCodeCanceled)
      | None \<Rightarrow>
          (case ans of
             NoAnswer \<Rightarrow> Err (errorWithCode (ExternalError ''all rpc request failed'') errCodeNetworkError)
           | ErrorAnswer er \<Rightarrow>
               Err (errorWithCode (ExternalError (er_Message er @
                 (if length (er_Data er) > 0 then '': '' @ er_Data er else []))) (er_Code er))
           | Success \<Rightarrow> Ok r))"

definition RPCCall :: "'w net_ext \<Rightarrow> string \<Rightarrow> json \<Rightarrow> 'r decoder \<Rightarrow> 'r \<Rightarrow> rpc_config option \<Rightarrow> ('w, err, 'r) act" where
  "RPCCall net method params d r0 config =
     (let cfg = (case config of None \<Rightarrow> GetDefaultRPCConfig | Some c \<Rightarrow> c) in
      case Json_Print net (JObj [(''id'', JStr ''nkn-sdk-go''), (''method'', JStr method), (''params'', params)]) of
        Err e \<Rightarrow> throw (errorWithCode e errCodeEncodeError)
      | Panic p \<Rightarrow> crash p
      | Ok req \<Rightarrow>
          (\<lambda>w. bnd (rpc_scan net req cfg d (arrival net (rc_RPCConcurrency cfg) (rc_SeedRPCServerAddr cfg) w) r0)
            (\<lambda>(ans, r) w'. (rpc_outcome (ctx_Err net w') ans r, w')) w))"

section \<open>Queries\<close>

record node_state =
  ns_Addr :: string
  ns_CurrTimeStamp :: int64
  ns_Height :: int32
  ns_ID :: string
  ns_JSONRPCPort :: int32
  ns_ProposalSubmitted :: int32
  ns_ProtocolVersion :: int32
  ns_PublicKey :: string
  ns_RelayMessageCount :: int64
  ns_SyncState :: string
  ns_TLSJSONRpcDomain :: string
  ns_TLSJSONRpcPort :: int32
  ns_TLSWebsocketDomain :: string
  ns_TLSWebsocketPort :: int32
  ns_Uptime :: int64
  ns_Version :: string
  ns_WebsocketPort :: int32

record nonce_res =
  nn_Nonce :: uint64
  nn_NonceInTxPool :: uint64

definition dec_node :: "node decoder" where
  "dec_node = dec_struct
     [(''addr'', at_field nd_Addr (\<lambda>v r. r\<lparr>nd_Addr := v\<rparr>) dec_string),
      (''rpcAddr'', at_field nd_RPCAddr (\<lambda>v r. r\<lparr>nd_RPCAddr := v\<rparr>) dec_string),
      (''pubkey'', at_field nd_PubKey (\<lambda>v r. r\<lparr>nd_PubKey := v\<rparr>) dec_string),
      (''id'', at_field nd_ID (\<lambda>v r. r\<lparr>nd_ID := v\<rparr>) dec_string),
      (''sdp'', at_field nd_Sdp (\<lambda>v r. r\<lparr>nd_Sdp := v\<rparr>) dec_string)]"

definition zero_node :: node where
  "zero_node = \<lparr>nd_Addr = [], nd_RPCAddr = [], nd_PubKey = [], nd_ID = [], nd_Sdp = []\<rparr>"

definition dec_nonce :: "nonce_res decoder" where
  "dec_nonce = dec_struct
     [(''nonce'', at_field nn_Nonce (\<lambda>v r. r\<lparr>nn_Nonce := v\<rparr>) dec_uint),
      (''nonceInTxPool'', at_field nn_NonceInTxPool (\<lambda>v r. r\<lparr>nn_NonceInTxPool := v\<rparr>) dec_uint)]"

definition dec_balance :: "string decoder" where
  "dec_balance = dec_struct [(''amount'', dec_string)]"

definition dec_subscription :: "subscription decoder" where
  "dec_subscription = dec_struct
     [(''meta'', at_field sn_Meta (\<lambda>v r. r\<lparr>sn_Meta := v\<rparr>) dec_string),
      (''expiresAt'', at_field sn_ExpiresAt (\<lambda>v r. r\<lparr>sn_ExpiresAt := v\<rparr>) dec_sint)]"

definition dec_registrant :: "registrant decoder" where
  "dec_registrant = dec_struct
     [(''registrant'', at_field rg_Registrant (\<lambda>v r. r\<lparr>rg_Registrant := v\<rparr>) dec_string),
      (''expiresAt'', at_field rg_ExpiresAt (\<lambda>v r. r\<lparr>rg_ExpiresAt := v\<rparr>) dec_sint)]"

definition GetWsAddrContext :: "'w net_ext \<Rightarrow> string \<Rightarrow> rpc_config option \<Rightarrow> ('w, err, node) act" where
  "GetWsAddrContext net clientAddr config =
     RPCCall net ''getwsaddr'' (JObj [(''address'', JStr clientAddr)]) dec_node zero_node config"

definition GetWssAddrContext :: "'w net_ext \<Rightarrow> string \<Rightarrow> rpc_config option \<Rightarrow> ('w, err, node) act" where
  "GetWssAddrContext net clientAddr config =
     RPCCall net ''getwssaddr'' (JObj [(''address'', JStr clientAddr)]) dec_node zero_node config"

definition GetPeerAddrContext :: "'w net_ext \<Rightarrow> string \<Rightarrow> string \<Rightarrow> rpc_config option \<Rightarrow> ('w, err, node) act" where
  "GetPeerAddrContext net clientAddr offer config =
     RPCCall net ''getpeeraddr'' (JObj [(''address'', JStr clientAddr), (''offer'', JStr offer)]) dec_node zero_node config"

definition GetNonceContext :: "'w net_ext \<Rightarrow> string \<Rightarrow> bool \<Rightarrow> rpc_config option \<Rightarrow> ('w, err, int64) act" where
  "GetNonceContext net address txPool config =
     bnd (RPCCall net ''getnoncebyaddr'' (JObj [(''address'', JStr address)]) dec_nonce
            \<lparr>nn_Nonce = 0, nn_NonceInTxPool = 0\<rparr> config) (\<lambda>n.
       if txPool \<and> nn_NonceInTxPool n > nn_Nonce n then ret (nn_NonceInTxPool n) else ret (nn_Nonce n))"

definition GetBalanceContext :: "'w net_ext \<Rightarrow> string \<Rightarrow> rpc_config option \<Rightarrow> ('w, err, fixed64) act" where
  "GetBalanceContext net address config =
     bnd (RPCCall net ''getbalancebyaddr'' (JObj [(''address'', JStr address)]) dec_balance [] config) (\<lambda>balance.
       of_res (NewAmount (Parse_Fixed64 net) balance))"

definition GetHeightContext :: "'w net_ext \<Rightarrow> rpc_config option \<Rightarrow> ('w, err, int32) act" where
  "GetHeightContext net config = RPCCall net ''getlatestblockheight'' (JObj []) dec_uint 0 config"

text \<open>
  The results of \<^verbatim>\<open>getsubscribers\<close> are read with type assertions, which panic on a missing key and
  on a value of another type.
\<close>

fun assert_string :: "json \<Rightarrow> string result" where
  "assert_string (JStr s) = Ok s"
| "assert_string _ = Panic FailedTypeAssertion"

fun assert_strings :: "json list \<Rightarrow> string list result" where
  "assert_strings [] = Ok []"
| "assert_strings (j # js) = and_then (assert_string j) (\<lambda>s. and_then (assert_strings js) (\<lambda>ss. Ok (s # ss)))"

fun assert_metas :: "(string \<times> json) list \<Rightarrow> (string \<times> string) list result" where
  "assert_metas [] = Ok []"
| "assert_metas ((k, j) # kjs) = and_then (assert_string j) (\<lambda>s. and_then (assert_metas kjs) (\<lambda>ss. Ok ((k, s) # ss)))"

definition read_subscribers :: "bool \<Rightarrow> json option \<Rightarrow> (string \<times> string) list result" where
  "read_subscribers meta j =
     (case (meta, j) of
        (True, Some (JObj kvs)) \<Rightarrow> assert_metas (go_map kvs)
      | (False, Some (JArr js)) \<Rightarrow> and_then (assert_strings js) (\<lambda>ss. Ok (go_map (map (\<lambda>s. (s, [])) ss)))
      | _ \<Rightarrow> Panic FailedTypeAssertion)"

definition GetSubscribersContext ::
  "'w net_ext \<Rightarrow> string \<Rightarrow> int \<Rightarrow> int \<Rightarrow> bool \<Rightarrow> bool \<Rightarrow> bytes \<Rightarrow> rpc_config option \<Rightarrow> ('w, err, subscribers) act" where
  "GetSubscribersContext net topic offset limit meta txPool subscriberHashPrefix config =
     bnd (RPCCall net ''getsubscribers''
            (JObj [(''topic'', JStr topic), (''offset'', JInt offset), (''limit'', JInt limit), (''meta'', JBool meta),
               (''txPool'', JBool txPool), (''subscriberHashPrefix'', JStr (hex_encode subscriberHashPrefix))])
            dec_map [] config) (\<lambda>result.
     bnd (of_res (read_subscribers meta (map_get result ''subscribers''))) (\<lambda>subs.
     bnd (if txPool then of_res (read_subscribers meta (map_get result ''subscribersInTxPool'')) else ret []) (\<lambda>subsInTxPool.
     ret \<lparr>sb_Subscribers = subs, sb_SubscribersInTxPool = subsInTxPool\<rparr>)))"

definition GetSubscriptionContext :: "'w net_ext \<Rightarrow> string \<Rightarrow> string \<Rightarrow> rpc_config option \<Rightarrow> ('w, err, subscription) act" where
  "GetSubscriptionContext net topic subscriber config =
     RPCCall net ''getsubscription'' (JObj [(''topic'', JStr topic), (''subscriber'', JStr subscriber)])
       dec_subscription \<lparr>sn_Meta = [], sn_ExpiresAt = 0\<rparr> config"

definition GetSubscribersCountContext :: "'w net_ext \<Rightarrow> string \<Rightarrow> bytes \<Rightarrow> rpc_config option \<Rightarrow> ('w, err, int) act" where
  "GetSubscribersCountContext net topic subscriberHashPrefix config =
     RPCCall net ''getsubscriberscount''
       (JObj [(''topic'', JStr topic), (''subscriberHashPrefix'', JStr (hex_encode subscriberHashPrefix))]) dec_int 0 config"

definition GetRegistrantContext :: "'w net_ext \<Rightarrow> string \<Rightarrow> rpc_config option \<Rightarrow> ('w, err, registrant) act" where
  "GetRegistrantContext net name config =
     RPCCall net ''getregistrant'' (JObj [(''name'', JStr name)]) dec_registrant
       \<lparr>rg_Registrant = [], rg_ExpiresAt = 0\<rparr> config"

definition SendRawTransactionContext :: "'w net_ext \<Rightarrow> transaction \<Rightarrow> rpc_config option \<Rightarrow> ('w, err, string) act" where
  "SendRawTransactionContext net txn config =
     bnd (of_res (Tx_Marshal net txn)) (\<lambda>b.
       RPCCall net ''sendrawtransaction'' (JObj [(''tx'', JStr (hex_encode b))]) dec_string [] config)"

definition dec_node_state :: "node_state decoder" where
  "dec_node_state = dec_struct
     [(''addr'', at_field ns_Addr (\<lambda>v r. r\<lparr>ns_Addr := v\<rparr>) dec_string),
      (''currTimeStamp'', at_field ns_CurrTimeStamp (\<lambda>v r. r\<lparr>ns_CurrTimeStamp := v\<rparr>) dec_sint),
      (''height'', at_field ns_Height (\<lambda>v r. r\<lparr>ns_Height := v\<rparr>) dec_sint),
      (''id'', at_field ns_ID (\<lambda>v r. r\<lparr>ns_ID := v\<rparr>) dec_string),
      (''jsonRpcPort'', at_field ns_JSONRPCPort (\<lambda>v r. r\<lparr>ns_JSONRPCPort := v\<rparr>) dec_sint),
      (''proposalSubmitted'', at_field ns_ProposalSubmitted (\<lambda>v r. r\<lparr>ns_ProposalSubmitted := v\<rparr>) dec_sint),
      (''protocolVersion'', at_field ns_ProtocolVersion (\<lambda>v r. r\<lparr>ns_ProtocolVersion := v\<rparr>) dec_sint),
      (''publicKey'', at_field ns_PublicKey (\<lambda>v r. r\<lparr>ns_PublicKey := v\<rparr>) dec_string),
      (''relayMessageCount'', at_field ns_RelayMessageCount (\<lambda>v r. r\<lparr>ns_RelayMessageCount := v\<rparr>) dec_sint),
      (''syncState'', at_field ns_SyncState (\<lambda>v r. r\<lparr>ns_SyncState := v\<rparr>) dec_string),
      (''tlsJsonRpcDomain'', at_field ns_TLSJSONRpcDomain (\<lambda>v r. r\<lparr>ns_TLSJSONRpcDomain := v\<rparr>) dec_string),
      (''tlsJsonRpcPort'', at_field ns_TLSJSONRpcPort (\<lambda>v r. r\<lparr>ns_TLSJSONRpcPort := v\<rparr>) dec_sint),
      (''tlsWebsocketDomain'', at_field ns_TLSWebsocketDomain (\<lambda>v r. r\<lparr>ns_TLSWebsocketDomain := v\<rparr>) dec_string),
      (''tlsWebsocketPort'', at_field ns_TLSWebsocketPort (\<lambda>v r. r\<lparr>ns_TLSWebsocketPort := v\<rparr>) dec_sint),
      (''uptime'', at_field ns_Uptime (\<lambda>v r. r\<lparr>ns_Uptime := v\<rparr>) dec_sint),
      (''version'', at_field ns_Version (\<lambda>v r. r\<lparr>ns_Version := v\<rparr>) dec_string),
      (''websocketPort'', at_field ns_WebsocketPort (\<lambda>v r. r\<lparr>ns_WebsocketPort := v\<rparr>) dec_sint)]"

definition zero_node_state :: node_state where
  "zero_node_state = \<lparr>ns_Addr = [], ns_CurrTimeStamp = 0, ns_Height = 0, ns_ID = [], ns_JSONRPCPort = 0,
     ns_ProposalSubmitted = 0, ns_ProtocolVersion = 0, ns_PublicKey = [], ns_RelayMessageCount = 0,
     ns_SyncState = [], ns_TLSJSONRpcDomain = [], ns_TLSJSONRpcPort = 0, ns_TLSWebsocketDomain = [],
     ns_TLSWebsocketPort = 0, ns_Uptime = 0, ns_Version = [], ns_WebsocketPort = 0\<rparr>"

definition GetNodeStateContext :: "'w net_ext \<Rightarrow> rpc_config option \<Rightarrow> ('w, err, node_state) act" where
  "GetNodeStateContext net config = RPCCall net ''getnodestate'' (JObj []) dec_node_state zero_node_state config"

section \<open>Measuring seed servers\<close>

text \<open>
  \<^verbatim>\<open>MeasureSeedRPCServerContext\<close> of \<^verbatim>\<open>src/util.go\<close> asks every address in a goroutine of its own; the
  order in which the answers come is the arrival order. \<open>persistFinished\<close> is the name of the node's
  state of that name. The configuration of each call leaves the concurrency 0.
\<close>

definition measure_config :: "int32 \<Rightarrow> dial_fn option \<Rightarrow> string \<Rightarrow> rpc_config" where
  "measure_config timeout dialContext addr =
     \<lparr>rc_SeedRPCServerAddr = [addr], rc_RPCTimeout = timeout, rc_RPCConcurrency = 0, rc_HttpDialContext = dialContext\<rparr>"

fun measure_loop :: "'w net_ext \<Rightarrow> string \<Rightarrow> int32 \<Rightarrow> dial_fn option \<Rightarrow> string list \<Rightarrow> ('w, err, string list) act" where
  "measure_loop net persistFinished timeout dialContext [] = ret []"
| "measure_loop net persistFinished timeout dialContext (addr # addrs) =
     attempt (GetNodeStateContext net (Some (measure_config timeout dialContext addr)))
       (\<lambda>err. measure_loop net persistFinished timeout dialContext addrs)
       (\<lambda>nodeState. bnd (measure_loop net persistFinished timeout dialContext addrs) (\<lambda>rest.
          ret (if ns_SyncState nodeState \<noteq> persistFinished then rest else addr # rest)))"

definition MeasureSeedRPCServerContext ::
  "'w net_ext \<Rightarrow> string \<Rightarrow> string list \<Rightarrow> int32 \<Rightarrow> dial_fn option \<Rightarrow> ('w, err, string list) act" where
  "MeasureSeedRPCServerContext net persistFinished seedRPCList timeout dialContext = (\<lambda>w.
     bnd (measure_loop net persistFinished timeout dialContext (arrival net 0 seedRPCList w))
       (\<lambda>rpcAddrs w'. case ctx_Err net w' of
          Some e \<Rightarrow> (Err e, w')
        | None \<Rightarrow> (Ok rpcAddrs, w')) w)"

section \<open>Lemmas\<close>

text \<open>The scan as a function of the response bodies alone.\<close>

fun scan_bodies :: "'w net_ext \<Rightarrow> 'r decoder \<Rightarrow> bytes list \<Rightarrow> 'r \<Rightarrow> (answer \<times> 'r) result" where
  "scan_bodies net d [] r = Ok (NoAnswer, r)"
| "scan_bodies net d (b # bs) r =
     (case handle_body net d b r of
        Ok (NoAnswer, r') \<Rightarrow> scan_bodies net d bs r'
      | x \<Rightarrow> x)"

text \<open>\<open>replies net req cfg addrs rs\<close>: each body in \<open>rs\<close> is what its address served, in the order of the addresses.\<close>

definition replies :: "'w net_ext \<Rightarrow> bytes \<Rightarrow> rpc_config \<Rightarrow> string list \<Rightarrow> (string \<times> bytes) list \<Rightarrow> bool" where
  "replies net req cfg addrs rs \<longleftrightarrow> subseq (map fst rs) addrs \<and>
     list_all (\<lambda>(a, b). \<exists>w w'. httpPost net a req (rc_RPCTimeout cfg) (rc_HttpDialContext cfg) w = (Ok b, w')) rs"

lemma replies_Nil [simp]: "replies net req cfg addrs []"
  by (simp add: replies_def)

lemma replies_skip: "replies net req cfg as rs \<Longrightarrow> replies net req cfg (a # as) rs"
  by (auto simp: replies_def)

lemma replies_Cons:
  assumes "replies net req cfg as rs"
    and "httpPost net a req (rc_RPCTimeout cfg) (rc_HttpDialContext cfg) w = (Ok b, w')"
  shows "replies net req cfg (a # as) ((a, b) # rs)"
  using assms by (auto simp: replies_def)

lemma handle_body_not_Err [simp]: "handle_body net d b r \<noteq> Err e"
  by (auto simp: handle_body_def split: option.splits json.splits prod.splits)

lemma scan_bodies_snoc:
  "scan_bodies net d (bs @ [b]) r =
     (case scan_bodies net d bs r of Ok (NoAnswer, r') \<Rightarrow> handle_body net d b r' | x \<Rightarrow> x)"
proof (induction bs arbitrary: r)
  case Nil
  then show ?case by (auto split: res.splits prod.splits answer.splits)
next
  case (Cons c bs)
  then show ?case by (simp split: res.splits prod.splits answer.splits)
qed

lemma rpc_scan_bodies:
  assumes "rpc_scan net req cfg d addrs r w = (Ok (ans, r'), w')"
  shows "\<exists>rs. replies net req cfg addrs rs \<and> scan_bodies net d (map snd rs) r = Ok (ans, r')"
  using assms
proof (induction addrs arbitrary: r w)
  case Nil
  then show ?case by (intro exI [of _ "[]"]) simp
next
  case (Cons a as)
  let ?http = "httpPost net a req (rc_RPCTimeout cfg) (rc_HttpDialContext cfg) w"
  obtain x v where http: "?http = (x, v)" by fastforce
  have stop: ?case if "ans = NoAnswer" "r' = r"
    using that by (intro exI [of _ "[]"]) simp
  show ?case
  proof (cases x)
    case (Err e)
    with Cons.prems http have
      "(if ctx_Err net v \<noteq> None then (Ok (NoAnswer, r), v) else rpc_scan net req cfg d as r v) = (Ok (ans, r'), w')"
      by (simp add: attempt_def)
    with stop Cons.IH [of r v] show ?thesis by (cases "ctx_Err net v \<noteq> None") (auto dest: replies_skip)
  next
    case (Panic p)
    with Cons.prems http show ?thesis by (simp add: attempt_def)
  next
    case (Ok body)
    show ?thesis
    proof (cases "ctx_Err net v \<noteq> None")
      case True
      with Cons.prems http Ok stop show ?thesis by (simp add: attempt_def)
    next
      case False
      show ?thesis
      proof (cases "\<exists>r2. handle_body net d body r = Ok (NoAnswer, r2)")
        case True
        then obtain r2 where h: "handle_body net d body r = Ok (NoAnswer, r2)" by blast
        with Cons.prems http Ok False have "rpc_scan net req cfg d as r2 v = (Ok (ans, r'), w')"
          by (simp add: attempt_def)
        from Cons.IH [OF this] obtain rs where "replies net req cfg as rs"
          and "scan_bodies net d (map snd rs) r2 = Ok (ans, r')" by blast
        with h http Ok show ?thesis by (intro exI [of _ "(a, body) # rs"]) (auto intro: replies_Cons)
      next
        case nf: False
        with Cons.prems http Ok False have h: "handle_body net d body r = Ok (ans, r')"
          by (auto simp: attempt_def split: res.splits prod.splits answer.splits)
        with nf have "ans \<noteq> NoAnswer" by auto
        with h http Ok show ?thesis
          by (intro exI [of _ "[(a, body)]"]) (auto intro: replies_Cons split: answer.splits)
      qed
    qed
  qed
qed

lemma rpc_scan_not_Err: "rpc_scan net req cfg d addrs r w \<noteq> (Err e, w')"
proof (induction addrs arbitrary: r w)
  case (Cons a as)
  obtain x v where "httpPost net a req (rc_RPCTimeout cfg) (rc_HttpDialContext cfg) w = (x, v)" by fastforce
  with Cons.IH show ?case
    by (auto simp: attempt_def split: res.splits prod.splits answer.splits if_splits)
qed simp

section \<open>Properties of a call\<close>

text \<open>
  A call that does not crash answers for its seed nodes: some of the addresses, in the order they
  were handled, served bodies; decoding these in turn ends at the first that decodes without a type
  error, and the call returns the decoded result if that body carries no error, the error of that body
  with its code if it carries one, the network error if no body decodes, and the caller's
  cancellation, if there was one, in every case.
\<close>

theorem RPCCall_outcome:
  assumes "RPCCall net method params d r0 (Some cfg) w = (res, w')" and "\<not> is_panic res"
    and "Json_Print net (JObj [(''id'', JStr ''nkn-sdk-go''), (''method'', JStr method), (''params'', params)]) = Ok req"
  shows "\<exists>rs ans r. replies net req cfg (arrival net (rc_RPCConcurrency cfg) (rc_SeedRPCServerAddr cfg) w) rs \<and>
     scan_bodies net d (map snd rs) r0 = Ok (ans, r) \<and> res = rpc_outcome (ctx_Err net w') ans r"
proof -
  let ?addrs = "arrival net (rc_RPCConcurrency cfg) (rc_SeedRPCServerAddr cfg) w"
  obtain x v where scan: "rpc_scan net req cfg d ?addrs r0 w = (x, v)" by fastforce
  show ?thesis
  proof (cases x)
    case (Ok ar)
    obtain ans r where ar: "ar = (ans, r)" by fastforce
    with scan Ok obtain rs where "replies net req cfg ?addrs rs" and "scan_bodies net d (map snd rs) r0 = Ok (ans, r)"
      using rpc_scan_bodies by metis
    moreover have "res = rpc_outcome (ctx_Err net w') ans r"
      using assms(1,3) scan Ok ar by (auto simp: RPCCall_def bnd_Ok)
    ultimately show ?thesis by blast
  next
    case (Err e)
    with scan show ?thesis by (simp add: rpc_scan_not_Err)
  next
    case (Panic p)
    with assms scan show ?thesis by (auto simp: RPCCall_def bnd_Panic)
  qed
qed

text \<open>A network of one node that serves the empty object, for the witnesses.\<close>

definition demo_net :: "unit net_ext" where
  "demo_net = \<lparr>Http_Do = (\<lambda>addr req t dc w. (Ok (200, req), w)), Http_StatusText = (\<lambda>_. []),
     Json_Parse = (\<lambda>b. if b = ''null'' then Some JNull else Some (JObj [(''result'', JInt 7)])),
     Json_Print = (\<lambda>j. Ok ''{}''), ctx_Err = (\<lambda>_. None),
     arrival = (\<lambda>n as w. as), Parse_Fixed64 = (\<lambda>s. Ok 0), Tx_Marshal = (\<lambda>t. Ok [])\<rparr>"

definition demo_rpc_config :: rpc_config where
  "demo_rpc_config = GetDefaultRPCConfig\<lparr>rc_SeedRPCServerAddr := [''http://seed'']\<rparr>"

theorem RPCCall_outcome_witness:
  "\<exists>rs ans r. replies demo_net ''{}'' demo_rpc_config [''http://seed''] rs \<and>
     scan_bodies demo_net dec_uint (map snd rs) 0 = Ok (ans, r) \<and> Ok (7 :: 32 word) = rpc_outcome None ans r"
proof -
  have "RPCCall demo_net ''m'' (JObj []) dec_uint (0 :: 32 word) (Some demo_rpc_config) () = (Ok 7, ())"
    by (simp add: RPCCall_def demo_net_def demo_rpc_config_def httpPost_def bnd_def attempt_def handle_body_def
      dec_rpcResp_def at_field_def key_eq_def lower_char_def rpc_outcome_def)
  from RPCCall_outcome [OF this, of "''{}''"] show ?thesis
    by (simp add: demo_net_def demo_rpc_config_def)
qed

text \<open>
  A seed node can crash the caller's process: a response whose body is the JSON text null sets the
  response pointer to nil, and reading its error dereferences it.
\<close>

theorem RPCCall_null_body_panics:
  assumes "Json_Print net (JObj [(''id'', JStr ''nkn-sdk-go''), (''method'', JStr method), (''params'', params)]) = Ok req"
    and "arrival net (rc_RPCConcurrency cfg) (rc_SeedRPCServerAddr cfg) w = addr # addrs"
    and "Http_Do net addr req (rc_RPCTimeout cfg) (rc_HttpDialContext cfg) w = (Ok (200, body), w')"
    and "Json_Parse net body = Some JNull" and "ctx_Err net w' = None"
  shows "RPCCall net method params d r0 (Some cfg) w = (Panic NilDereference, w')"
  using assms by (simp add: RPCCall_def httpPost_def bnd_def attempt_def handle_body_def)

theorem RPCCall_null_body_panics_witness:
  "RPCCall (demo_net\<lparr>Json_Parse := \<lambda>b. Some JNull\<rparr>) ''getlatestblockheight'' (JObj []) dec_uint (0 :: 32 word)
     (Some demo_rpc_config) () = (Panic NilDereference, ())"
  by (rule RPCCall_null_body_panics [where req = "''{}''" and addr = "''http://seed''" and addrs = "[]" and body = "''{}''"])
    (simp_all add: demo_net_def demo_rpc_config_def)

text \<open>
  The nonce a caller gets for its next transaction is never below the one the ledger answers, and
  with the transaction pool counted never below that of the pool: \<^verbatim>\<open>GetNonceContext\<close> returns the larger
  of the two (as unsigned numbers) when the pool counts and the ledger's otherwise.
\<close>

theorem GetNonceContext_max:
  assumes "RPCCall net ''getnoncebyaddr'' (JObj [(''address'', JStr address)]) dec_nonce
       \<lparr>nn_Nonce = 0, nn_NonceInTxPool = 0\<rparr> config w = (Ok n, w')"
  shows "GetNonceContext net address txPool config w =
     (Ok (if txPool then max (nn_Nonce n) (nn_NonceInTxPool n) else nn_Nonce n), w')"
  using assms by (auto simp: GetNonceContext_def bnd_Ok max_def)

theorem GetNonceContext_max_witness:
  "GetNonceContext (demo_net\<lparr>Json_Parse := \<lambda>b. Some (JObj [(''result'', JObj [(''nonce'', JInt 4), (''nonceInTxPool'', JInt 9)])])\<rparr>)
     ''NKNaddr'' True (Some demo_rpc_config) () = (Ok 9, ())"
proof -
  let ?net = "demo_net\<lparr>Json_Parse := \<lambda>b. Some (JObj [(''result'', JObj [(''nonce'', JInt 4), (''nonceInTxPool'', JInt 9)])])\<rparr>"
  have "RPCCall ?net ''getnoncebyaddr'' (JObj [(''address'', JStr ''NKNaddr'')]) dec_nonce
       \<lparr>nn_Nonce = 0, nn_NonceInTxPool = 0\<rparr> (Some demo_rpc_config) () = (Ok \<lparr>nn_Nonce = 4, nn_NonceInTxPool = 9\<rparr>, ())"
    by (simp add: RPCCall_def demo_net_def demo_rpc_config_def httpPost_def bnd_def attempt_def handle_body_def
      dec_rpcResp_def dec_nonce_def at_field_def key_eq_def lower_char_def rpc_outcome_def)
  from GetNonceContext_max [OF this, of True] show ?thesis by simp
qed

lemma assert_metas_keys: "assert_metas kvs = Ok ms \<Longrightarrow> map fst ms = map fst kvs"
  by (induction kvs arbitrary: ms rule: assert_metas.induct) auto

lemma read_subscribers_distinct:
  "read_subscribers meta j = Ok ss \<Longrightarrow> distinct (map fst ss)"
  by (auto simp: read_subscribers_def go_map_distinct dest!: assert_metas_keys split: bool.splits option.splits json.splits)

lemma go_map_vals: "\<forall>(k, v) \<in> set kvs. v = c \<Longrightarrow> \<forall>(k, v) \<in> set (go_map kvs). v = c"
  by (induction kvs rule: go_map.induct) auto

lemma read_subscribers_plain:
  assumes "read_subscribers False j = Ok ss" and "(k, v) \<in> set ss"
  shows "v = []"
proof -
  from assms(1) obtain ks where "ss = go_map (map (\<lambda>s. (s, [])) ks)"
    by (auto simp: read_subscribers_def split: option.splits json.splits)
  with assms(2) go_map_vals [of "map (\<lambda>s. (s, [])) ks" "[]"] show ?thesis by auto
qed

text \<open>
  Subscribers come as a map: a successful \<^verbatim>\<open>GetSubscribersContext\<close> returns each subscriber once,
  and without metadata every value is empty.
\<close>

theorem GetSubscribersContext_keys:
  assumes "GetSubscribersContext net topic offset limit meta txPool hashPrefix config w = (Ok subs, w')"
  shows "distinct (map fst (sb_Subscribers subs)) \<and> distinct (map fst (sb_SubscribersInTxPool subs)) \<and>
     (\<not> txPool \<longrightarrow> sb_SubscribersInTxPool subs = []) \<and>
     (\<not> meta \<longrightarrow> (\<forall>k v. (k, v) \<in> set (sb_Subscribers subs) \<union> set (sb_SubscribersInTxPool subs) \<longrightarrow> v = []))"
proof -
  from assms obtain result w1 where
    rest: "bnd (of_res (read_subscribers meta (map_get result ''subscribers''))) (\<lambda>subs.
     bnd (if txPool then of_res (read_subscribers meta (map_get result ''subscribersInTxPool'')) else ret []) (\<lambda>subsInTxPool.
     ret \<lparr>sb_Subscribers = subs, sb_SubscribersInTxPool = subsInTxPool\<rparr>)) w1 = (Ok subs, w')"
    unfolding GetSubscribersContext_def by (rule bnd_OkE)
  then obtain s1 where s1: "read_subscribers meta (map_get result ''subscribers'') = Ok s1"
    and r2: "bnd (if txPool then of_res (read_subscribers meta (map_get result ''subscribersInTxPool'')) else ret []) (\<lambda>subsInTxPool.
     ret \<lparr>sb_Subscribers = s1, sb_SubscribersInTxPool = subsInTxPool\<rparr>) w1 = (Ok subs, w')"
    by (rule bnd_OkE) (simp only: of_res_apply prod.inject)
  from r2 obtain s2 where s2: "txPool \<and> read_subscribers meta (map_get result ''subscribersInTxPool'') = Ok s2 \<or> \<not> txPool \<and> s2 = []"
    and subs: "subs = \<lparr>sb_Subscribers = s1, sb_SubscribersInTxPool = s2\<rparr>"
    by (auto elim!: bnd_OkE split: if_splits)
  from s1 s2 subs read_subscribers_distinct read_subscribers_plain show ?thesis
    by (cases txPool) (auto 4 3)
qed

theorem GetSubscribersContext_keys_witness:
  "GetSubscribersContext (demo_net\<lparr>Json_Parse := \<lambda>b. Some (JObj [(''result'', JObj [(''subscribers'', JArr [JStr ''a'', JStr ''a''])])])\<rparr>)
     ''t'' 0 10 False False [] (Some demo_rpc_config) ()
     = (Ok \<lparr>sb_Subscribers = [(''a'', [])], sb_SubscribersInTxPool = []\<rparr>, ()) \<and> distinct (map fst [(''a'', [] :: string)])"
proof -
  have g: "GetSubscribersContext (demo_net\<lparr>Json_Parse := \<lambda>b. Some (JObj [(''result'', JObj [(''subscribers'', JArr [JStr ''a'', JStr ''a''])])])\<rparr>)
     ''t'' 0 10 False False [] (Some demo_rpc_config) ()
     = (Ok \<lparr>sb_Subscribers = [(''a'', [])], sb_SubscribersInTxPool = []\<rparr>, ())"
    by (simp add: GetSubscribersContext_def RPCCall_def demo_net_def demo_rpc_config_def httpPost_def bnd_def attempt_def
      handle_body_def dec_rpcResp_def at_field_def key_eq_def lower_char_def rpc_outcome_def map_get_def read_subscribers_def)
  from GetSubscribersContext_keys [OF g] g show ?thesis by simp
qed

lemma measure_loop_selects:
  assumes "measure_loop net pf timeout dc addrs w = (Ok sel, w')"
  shows "subseq sel addrs \<and> list_all (\<lambda>a. \<exists>v v' ns.
     GetNodeStateContext net (Some (measure_config timeout dc a)) v = (Ok ns, v') \<and> ns_SyncState ns = pf) sel"
  using assms
proof (induction addrs arbitrary: sel w)
  case (Cons a as)
  let ?get = "GetNodeStateContext net (Some (measure_config timeout dc a))"
  obtain x v where g: "?get w = (x, v)" by fastforce
  show ?case
  proof (cases x)
    case (Ok ns)
    with Cons.prems g obtain rest where r: "measure_loop net pf timeout dc as v = (Ok rest, w')"
      and sel: "sel = (if ns_SyncState ns \<noteq> pf then rest else a # rest)"
      by (auto simp: attempt_def elim!: bnd_OkE)
    from Cons.IH [OF r] sel g Ok show ?thesis by auto
  next
    case (Err e)
    with Cons.prems g have "measure_loop net pf timeout dc as v = (Ok sel, w')" by (simp add: attempt_def)
    from Cons.IH [OF this] show ?thesis by auto
  next
    case (Panic p)
    with Cons.prems g show ?thesis by (simp add: attempt_def)
  qed
qed simp

text \<open>
  \<^verbatim>\<open>MeasureSeedRPCServerContext\<close> selects seed servers by their state and orders them by latency: the
  addresses it returns are addresses of the list, in the order in which the answers came, and each of
  them answered that it has finished persisting.
\<close>

theorem MeasureSeedRPCServer_selects:
  assumes "MeasureSeedRPCServerContext net pf seeds timeout dc w = (Ok sel, w')"
  shows "subseq sel (arrival net 0 seeds w) \<and> (\<forall>a \<in> set sel. \<exists>v v' ns.
     GetNodeStateContext net (Some (measure_config timeout dc a)) v = (Ok ns, v') \<and> ns_SyncState ns = pf)"
proof -
  from assms obtain v where "measure_loop net pf timeout dc (arrival net 0 seeds w) w = (Ok sel, v)"
    unfolding MeasureSeedRPCServerContext_def by (rule bnd_OkE) (auto split: option.splits)
  from measure_loop_selects [OF this] show ?thesis by (simp add: list_all_iff)
qed

definition demo_state_net :: "unit net_ext" where
  "demo_state_net = demo_net\<lparr>Json_Parse := \<lambda>b. Some (JObj [(''result'', JObj [(''syncState'', JStr ''PERSIST_FINISHED'')])])\<rparr>"

theorem MeasureSeedRPCServer_selects_witness:
  "subseq [''http://seed''] (arrival demo_state_net 0 [''http://seed''] ()) \<and>
     MeasureSeedRPCServerContext demo_state_net ''PERSIST_FINISHED'' [''http://seed''] 1000 None () = (Ok [''http://seed''], ())"
proof -
  have m: "MeasureSeedRPCServerContext demo_state_net ''PERSIST_FINISHED'' [''http://seed''] 1000 None () = (Ok [''http://seed''], ())"
    by (simp add: MeasureSeedRPCServerContext_def GetNodeStateContext_def demo_state_net_def RPCCall_def demo_net_def
      measure_config_def httpPost_def bnd_def attempt_def handle_body_def dec_rpcResp_def dec_node_state_def zero_node_state_def
      at_field_def key_eq_def lower_char_def rpc_outcome_def)
  with MeasureSeedRPCServer_selects [OF m] show ?thesis by blast
qed

end
