(* ===== verification/Nkn_RPC_Workers.thy ===== *)
theory Nkn_RPC_Workers
  imports Nkn_RPC "HOL-Library.Multiset"
begin

text \<open>
  The worker pool of \<^verbatim>\<open>RPCCall\<close> (\<^verbatim>\<open>src/rpc.go\<close>) as a step relation: the sender that hands the seed
  addresses to the workers over an unbuffered channel, the workers, the lock under which a response
  is handled, the one-place channel of the answer and the cancellation of the derived context. A step
  is what happens between two points where a goroutine can wait. \<open>serves a (Some body)\<close> says that the
  exchange with \<open>a\<close> may return this body, \<open>serves a None\<close> that it may fail. The log of handled
  responses is a ghost field.
\<close>

section \<open>State and steps\<close>

datatype worker = Idle | Requesting string | Holding string bytes | Exited

record 'r pool =
  pl_Pending :: "string list"
  pl_AddrClosed :: bool
  pl_Workers :: "worker list"
  pl_Result :: 'r
  pl_Resp :: "answer option"
  pl_Cancelled :: bool
  pl_Parent :: bool
  pl_Crash :: "panic option"
  pl_Log :: "(string \<times> bytes) list"

definition worker_count :: "rpc_config \<Rightarrow> nat" where
  "worker_count cfg = (if rc_RPCConcurrency cfg = 0 then length (rc_SeedRPCServerAddr cfg) else nat (sint (rc_RPCConcurrency cfg)))"

definition pool_start :: "rpc_config \<Rightarrow> 'r \<Rightarrow> 'r pool" where
  "pool_start cfg r0 = \<lparr>pl_Pending = rc_SeedRPCServerAddr cfg, pl_AddrClosed = False,
     pl_Workers = replicate (worker_count cfg) Idle, pl_Result = r0, pl_Resp = None, pl_Cancelled = False,
     pl_Parent = False, pl_Crash = None, pl_Log = []\<rparr>"

definition set_worker :: "nat \<Rightarrow> worker \<Rightarrow> 'r pool \<Rightarrow> 'r pool" where
  "set_worker i v p = p\<lparr>pl_Workers := (pl_Workers p)[i := v]\<rparr>"

definition worker_at :: "'r pool \<Rightarrow> nat \<Rightarrow> worker \<Rightarrow> bool" where
  "worker_at p i v \<longleftrightarrow> i < length (pl_Workers p) \<and> pl_Workers p ! i = v"

definition handled :: "string \<Rightarrow> bytes \<Rightarrow> 'r \<Rightarrow> 'r pool \<Rightarrow> 'r pool" where
  "handled a b r p = p\<lparr>pl_Result := r, pl_Log := pl_Log p @ [(a, b)]\<rparr>"

inductive pool_step :: "'w net_ext \<Rightarrow> 'r decoder \<Rightarrow> (string \<Rightarrow> bytes option \<Rightarrow> bool) \<Rightarrow> 'r pool \<Rightarrow> 'r pool \<Rightarrow> bool"
  for net d serves where
  hand: "pl_Crash p = None \<Longrightarrow> pl_Pending p = a # as \<Longrightarrow> worker_at p i Idle \<Longrightarrow>
     pool_step net d serves p (set_worker i (Requesting a) (p\<lparr>pl_Pending := as\<rparr>))"
| skip: "pl_Crash p = None \<Longrightarrow> pl_Pending p = a # as \<Longrightarrow> pl_Cancelled p \<Longrightarrow>
     pool_step net d serves p (p\<lparr>pl_Pending := as\<rparr>)"
| close: "pl_Crash p = None \<Longrightarrow> pl_Pending p = [] \<Longrightarrow> \<not> pl_AddrClosed p \<Longrightarrow>
     pool_step net d serves p (p\<lparr>pl_AddrClosed := True\<rparr>)"
| leave: "pl_Crash p = None \<Longrightarrow> pl_AddrClosed p \<Longrightarrow> worker_at p i Idle \<Longrightarrow>
     pool_step net d serves p (set_worker i Exited p)"
| fail: "pl_Crash p = None \<Longrightarrow> worker_at p i (Requesting a) \<Longrightarrow> serves a None \<Longrightarrow>
     pool_step net d serves p (set_worker i (if pl_Cancelled p then Exited else Idle) p)"
| reply: "pl_Crash p = None \<Longrightarrow> worker_at p i (Requesting a) \<Longrightarrow> serves a (Some b) \<Longrightarrow>
     pool_step net d serves p (set_worker i (Holding a b) p)"
| late: "pl_Crash p = None \<Longrightarrow> worker_at p i (Holding a b) \<Longrightarrow> pl_Cancelled p \<Longrightarrow>
     pool_step net d serves p (set_worker i Exited p)"
| undecodable: "pl_Crash p = None \<Longrightarrow> worker_at p i (Holding a b) \<Longrightarrow> \<not> pl_Cancelled p \<Longrightarrow>
     handle_body net d b (pl_Result p) = Ok (NoAnswer, r) \<Longrightarrow>
     pool_step net d serves p (set_worker i Idle (handled a b r p))"
| answered: "pl_Crash p = None \<Longrightarrow> worker_at p i (Holding a b) \<Longrightarrow> \<not> pl_Cancelled p \<Longrightarrow>
     handle_body net d b (pl_Result p) = Ok (ans, r) \<Longrightarrow> ans \<noteq> NoAnswer \<Longrightarrow>
     pool_step net d serves p (set_worker i Exited ((handled a b r p)\<lparr>pl_Resp := Some ans, pl_Cancelled := True\<rparr>))"
| cancelled_meanwhile: "pl_Crash p = None \<Longrightarrow> worker_at p i (Holding a b) \<Longrightarrow> \<not> pl_Cancelled p \<Longrightarrow>
     handle_body net d b (pl_Result p) = Ok (ans, r) \<Longrightarrow> ans \<noteq> NoAnswer \<Longrightarrow>
     pool_step net d serves p (set_worker i Exited ((handled a b r p)\<lparr>pl_Parent := True, pl_Cancelled := True\<rparr>))"
| crash: "pl_Crash p = None \<Longrightarrow> worker_at p i (Holding a b) \<Longrightarrow> \<not> pl_Cancelled p \<Longrightarrow>
     handle_body net d b (pl_Result p) = Panic q \<Longrightarrow>
     pool_step net d serves p (set_worker i Exited (p\<lparr>pl_Crash := Some q\<rparr>))"
| parent: "pl_Crash p = None \<Longrightarrow> \<not> pl_Parent p \<Longrightarrow>
     pool_step net d serves p (p\<lparr>pl_Parent := True, pl_Cancelled := True\<rparr>)"

text \<open>All goroutines are done, and what the call then returns; \<open>e\<close> is the error of a cancelled caller.\<close>

definition pool_final :: "'r pool \<Rightarrow> bool" where
  "pool_final p \<longleftrightarrow> pl_Crash p = None \<and> pl_AddrClosed p \<and> list_all (\<lambda>v. v = Exited) (pl_Workers p)"

definition pool_outcome :: "err \<Rightarrow> 'r pool \<Rightarrow> 'r result" where
  "pool_outcome e p = rpc_outcome (if pl_Parent p then Some e else None)
     (case pl_Resp p of None \<Rightarrow> NoAnswer | Some ans \<Rightarrow> ans) (pl_Result p)"

section \<open>The invariant\<close>

fun carried :: "worker \<Rightarrow> string multiset" where
  "carried (Requesting a) = {#a#}"
| "carried (Holding a b) = {#a#}"
| "carried _ = {#}"

fun worker_ok :: "(string \<Rightarrow> bytes option \<Rightarrow> bool) \<Rightarrow> worker \<Rightarrow> bool" where
  "worker_ok serves (Holding a b) = serves a (Some b)"
| "worker_ok serves _ = True"

definition pool_addrs :: "'r pool \<Rightarrow> string multiset" where
  "pool_addrs p = mset (map fst (pl_Log p)) + sum_list (map carried (pl_Workers p)) + mset (pl_Pending p)"

definition pool_addr_inv :: "(string \<Rightarrow> bytes option \<Rightarrow> bool) \<Rightarrow> rpc_config \<Rightarrow> 'r pool \<Rightarrow> bool" where
  "pool_addr_inv serves cfg p \<longleftrightarrow>
     length (pl_Workers p) = worker_count cfg \<and>
     pool_addrs p \<subseteq># mset (rc_SeedRPCServerAddr cfg) \<and>
     list_all (worker_ok serves) (pl_Workers p) \<and>
     list_all (\<lambda>(a, b). serves a (Some b)) (pl_Log p)"

definition pool_ctl_inv :: "'w net_ext \<Rightarrow> 'r decoder \<Rightarrow> 'r \<Rightarrow> 'r pool \<Rightarrow> bool" where
  "pool_ctl_inv net d r0 p \<longleftrightarrow>
     (pl_AddrClosed p \<longrightarrow> pl_Pending p = []) \<and>
     (pl_Parent p \<longrightarrow> pl_Cancelled p) \<and>
     (Exited \<in> set (pl_Workers p) \<longrightarrow> pl_Cancelled p \<or> pl_AddrClosed p \<or> pl_Crash p \<noteq> None) \<and>
     (case pl_Resp p of
        None \<Rightarrow> pl_Cancelled p = pl_Parent p \<and>
          (\<not> pl_Parent p \<longrightarrow> scan_bodies net d (map snd (pl_Log p)) r0 = Ok (NoAnswer, pl_Result p))
      | Some ans \<Rightarrow> ans \<noteq> NoAnswer \<and> pl_Cancelled p \<and>
          scan_bodies net d (map snd (pl_Log p)) r0 = Ok (ans, pl_Result p))"

definition pool_inv :: "'w net_ext \<Rightarrow> 'r decoder \<Rightarrow> (string \<Rightarrow> bytes option \<Rightarrow> bool) \<Rightarrow> rpc_config \<Rightarrow> 'r \<Rightarrow> 'r pool \<Rightarrow> bool" where
  "pool_inv net d serves cfg r0 p \<longleftrightarrow> pool_addr_inv serves cfg p \<and> pool_ctl_inv net d r0 p"

text \<open>What changing one worker does to the addresses in the pool and to the worker list.\<close>

lemma sum_carried_update:
  assumes "worker_at p i v" and "carried v = carried v' + m"
  shows "sum_list (map carried (pl_Workers p)) = sum_list (map carried ((pl_Workers p)[i := v'])) + m"
proof -
  from assms(1) have i: "i < length (pl_Workers p)" and v: "pl_Workers p ! i = v" by (simp_all add: worker_at_def)
  then have "pl_Workers p = take i (pl_Workers p) @ v # drop (Suc i) (pl_Workers p)" by (metis id_take_nth_drop)
  then have "sum_list (map carried (pl_Workers p)) =
      sum_list (map carried (take i (pl_Workers p))) + carried v + sum_list (map carried (drop (Suc i) (pl_Workers p)))"
    by (metis (no_types) list.simps(9) map_append sum_list.Cons sum_list_append add.assoc)
  with i assms(2) show ?thesis by (simp add: upd_conv_take_nth_drop ac_simps)
qed

lemma list_all_update: "list_all P xs \<Longrightarrow> P v \<Longrightarrow> list_all P (xs[i := v])"
  by (auto simp: list_all_iff dest!: set_update_subset_insert [THEN subsetD])

lemma worker_at_ok: "worker_at p i v \<Longrightarrow> list_all (worker_ok serves) (pl_Workers p) \<Longrightarrow> worker_ok serves v"
  by (auto simp: worker_at_def list_all_iff)

lemma exited_update: "Exited \<in> set (xs[i := v]) \<Longrightarrow> v = Exited \<or> Exited \<in> set xs"
  by (auto dest!: set_update_subset_insert [THEN subsetD])

lemmas pool_upd_defs = set_worker_def handled_def

lemma pool_addrs_step: "pool_step net d serves p q \<Longrightarrow> pool_addrs q \<subseteq># pool_addrs p"
proof (induction rule: pool_step.induct)
  case (hand p a as i)
  have "sum_list (map carried (pl_Workers p)) = sum_list (map carried ((pl_Workers p)[i := Idle])) + {#}"
    using hand(3) by (rule sum_carried_update) simp
  moreover have "worker_at (set_worker i (Requesting a) p) i (Requesting a)"
    using hand(3) by (simp add: worker_at_def set_worker_def)
  from sum_carried_update [OF this, of Idle "{#a#}"]
  have "sum_list (map carried ((pl_Workers p)[i := Requesting a])) =
      sum_list (map carried ((pl_Workers p)[i := Idle])) + {#a#}"
    by (simp add: set_worker_def)
  ultimately show ?case using hand(2) by (simp add: pool_addrs_def set_worker_def)
next
  case (leave p i)
  from sum_carried_update [OF leave(3), of Exited "{#}"] show ?case by (simp add: pool_addrs_def set_worker_def)
next
  case (fail p i a)
  from sum_carried_update [OF fail(2), of "if pl_Cancelled p then Exited else Idle" "{#a#}"] show ?case
    by (simp add: pool_addrs_def set_worker_def)
next
  case (reply p i a b)
  from sum_carried_update [OF reply(2), of "Holding a b" "{#}"] show ?case by (simp add: pool_addrs_def set_worker_def)
next
  case (late p i a b)
  from sum_carried_update [OF late(2), of Exited "{#a#}"] show ?case
    by (simp add: pool_addrs_def set_worker_def)
next
  case (undecodable p i a b r)
  from sum_carried_update [OF undecodable(2), of Idle "{#a#}"] show ?case
    by (simp add: pool_addrs_def pool_upd_defs)
next
  case (answered p i a b ans r)
  from sum_carried_update [OF answered(2), of Exited "{#a#}"] show ?case
    by (simp add: pool_addrs_def pool_upd_defs)
next
  case (cancelled_meanwhile p i a b ans r)
  from sum_carried_update [OF cancelled_meanwhile(2), of Exited "{#a#}"] show ?case
    by (simp add: pool_addrs_def pool_upd_defs)
next
  case (crash p i a b q)
  from sum_carried_update [OF crash(2), of Exited "{#a#}"] show ?case
    by (simp add: pool_addrs_def pool_upd_defs)
qed (simp_all add: pool_addrs_def)

lemma pool_workers_step:
  assumes "pool_step net d serves p q" and "list_all (worker_ok serves) (pl_Workers p)"
    and "list_all (\<lambda>(a, b). serves a (Some b)) (pl_Log p)"
  shows "length (pl_Workers q) = length (pl_Workers p) \<and> list_all (worker_ok serves) (pl_Workers q) \<and>
     list_all (\<lambda>(a, b). serves a (Some b)) (pl_Log q)"
  using assms by cases (auto simp: pool_upd_defs intro!: list_all_update dest: worker_at_ok)

lemma pool_addr_inv_step:
  assumes "pool_addr_inv serves cfg p" and "pool_step net d serves p q"
  shows "pool_addr_inv serves cfg q"
  using assms pool_workers_step [OF assms(2)] pool_addrs_step [OF assms(2)]
  by (auto simp: pool_addr_inv_def intro: subset_mset.order_trans)

lemma pool_ctl_inv_step:
  assumes "pool_ctl_inv net d r0 p" and "pool_step net d serves p q"
  shows "pool_ctl_inv net d r0 q"
  using assms(2,1)
  by cases (auto simp: pool_ctl_inv_def pool_upd_defs scan_bodies_snoc split: option.splits answer.splits dest!: exited_update)

lemma no_addr_carried [simp]: "sum_list (replicate n {#}) = {#}"
  by (induction n) auto

lemma pool_start_inv: "pool_inv net d serves cfg r0 (pool_start cfg r0)"
  by (auto simp: pool_inv_def pool_addr_inv_def pool_ctl_inv_def pool_start_def pool_addrs_def list_all_iff)

interpretation rpc_pool: invariant_system "\<lambda>p. p = pool_start cfg r0" "pool_step net d serves" "pool_inv net d serves cfg r0"
  for net d serves cfg r0
  by unfold_locales (simp add: pool_start_inv, auto simp: pool_inv_def intro: pool_addr_inv_step pool_ctl_inv_step)

section \<open>Progress and termination\<close>

fun worker_weight :: "worker \<Rightarrow> nat" where
  "worker_weight Idle = 1"
| "worker_weight (Requesting a) = 3"
| "worker_weight (Holding a b) = 2"
| "worker_weight Exited = 0"

definition pool_weight :: "'r pool \<Rightarrow> nat" where
  "pool_weight p = 3 * length (pl_Pending p) + sum_list (map worker_weight (pl_Workers p)) +
     (if pl_AddrClosed p then 0 else 1) + (if pl_Parent p then 0 else 1)"

lemma sum_weight_update:
  assumes "worker_at p i v"
  shows "sum_list (map worker_weight ((pl_Workers p)[i := v'])) + worker_weight v
     = sum_list (map worker_weight (pl_Workers p)) + worker_weight v'"
proof -
  from assms have i: "i < length (pl_Workers p)" and v: "pl_Workers p ! i = v" by (simp_all add: worker_at_def)
  then have "worker_weight v \<le> sum_list (map worker_weight (pl_Workers p))"
    by (intro member_le_sum_list) (auto simp flip: v)
  with i v show ?thesis by (simp add: map_update sum_list_update)
qed

lemma pool_step_weight:
  assumes "pool_step net d serves p q"
  shows "pool_weight q < pool_weight p"
  using assms
proof cases
  case (hand a as i)
  from sum_weight_update [OF hand(4), of "Requesting a"] hand(1,3) show ?thesis
    by (simp add: pool_weight_def pool_upd_defs)
next
  case (fail i a)
  from sum_weight_update [OF fail(3), of "if pl_Cancelled p then Exited else Idle"] fail(1) show ?thesis
    by (simp add: pool_weight_def pool_upd_defs split: if_splits)
next
  case (reply i a b)
  from sum_weight_update [OF reply(3), of "Holding a b"] reply(1) show ?thesis
    by (simp add: pool_weight_def pool_upd_defs)
next
  case (undecodable i a b r)
  from sum_weight_update [OF undecodable(3), of Idle] undecodable(1) show ?thesis
    by (simp add: pool_weight_def pool_upd_defs)
qed (auto simp: pool_weight_def pool_upd_defs dest!: sum_weight_update [where v' = Exited])

text \<open>A pool that is neither finished nor crashed goes on without the caller cancelling.\<close>

lemma active_worker_steps:
  assumes "pl_Crash p = None" and "worker_at p i v" and "v \<noteq> Idle" and "v \<noteq> Exited"
    and total: "\<And>a. \<exists>x. serves a x"
  shows "\<exists>q. pool_step net d serves p q \<and> pl_Parent q = pl_Parent p"
proof (cases v)
  case (Requesting a)
  with assms(2) have at: "worker_at p i (Requesting a)" by simp
  from total obtain x where "serves a x" by blast
  then show ?thesis
    by (cases x) (use at assms(1) in \<open>force intro: fail simp: set_worker_def\<close>,
        use at assms(1) in \<open>force intro: reply simp: set_worker_def\<close>)
next
  case (Holding a b)
  with assms(2) have at: "worker_at p i (Holding a b)" by simp
  show ?thesis
  proof (cases "pl_Cancelled p")
    case True
    with late [OF assms(1) at] show ?thesis by (force simp: set_worker_def)
  next
    case nc: False
    show ?thesis
    proof (cases "handle_body net d b (pl_Result p)")
      case (Ok ar)
      obtain ans r where "ar = (ans, r)" by fastforce
      with Ok nc assms(1) at show ?thesis
        using undecodable [of p i a b net d r serves] answered [of p i a b net d ans r serves]
        by (cases "ans = NoAnswer") (force simp: pool_upd_defs)+
    next
      case (Panic q)
      with crash [OF assms(1) at nc, of net d] show ?thesis by (force simp: set_worker_def)
    qed simp
  qed
qed (use assms in simp_all)

lemma pool_progress:
  assumes inv: "pool_inv net d serves cfg r0 p" and "pl_Crash p = None" and "\<not> pool_final p"
    and workers: "worker_count cfg > 0 \<or> rc_SeedRPCServerAddr cfg = []" and total: "\<And>a. \<exists>x. serves a x"
  shows "\<exists>q. pool_step net d serves p q \<and> pl_Parent q = pl_Parent p"
proof (cases "pl_Pending p")
  case Nil
  show ?thesis
  proof (cases "pl_AddrClosed p")
    case False
    with Nil assms(2) show ?thesis using close [of p net d serves] by force
  next
    case True
    with assms(2,3) obtain i v where at: "worker_at p i v" and "v \<noteq> Exited"
      by (auto simp: pool_final_def list_all_iff worker_at_def in_set_conv_nth)
    show ?thesis
    proof (cases "v = Idle")
      case True
      with at assms(2) \<open>pl_AddrClosed p\<close> show ?thesis using leave [of p i net d serves] by (force simp: set_worker_def)
    next
      case False
      show ?thesis by (rule active_worker_steps [OF assms(2) at False \<open>v \<noteq> Exited\<close> total])
    qed
  qed
next
  case (Cons a as)
  show ?thesis
  proof (cases "pl_Cancelled p")
    case True
    with Cons assms(2) show ?thesis using skip [of p a as net d serves] by force
  next
    case False
    from inv Cons have open_chan: "\<not> pl_AddrClosed p" by (auto simp: pool_inv_def pool_ctl_inv_def)
    from inv Cons have "rc_SeedRPCServerAddr cfg \<noteq> []"
      by (auto simp: pool_inv_def pool_addr_inv_def pool_addrs_def)
    with workers inv have "0 < length (pl_Workers p)" by (simp add: pool_inv_def pool_addr_inv_def)
    then have at: "worker_at p 0 (pl_Workers p ! 0)" by (simp add: worker_at_def)
    have "Exited \<notin> set (pl_Workers p)"
      using inv False open_chan assms(2) by (auto simp: pool_inv_def pool_ctl_inv_def)
    with \<open>0 < length (pl_Workers p)\<close> have ne: "pl_Workers p ! 0 \<noteq> Exited" by (metis nth_mem)
    show ?thesis
    proof (cases "pl_Workers p ! 0 = Idle")
      case True
      with at have "worker_at p 0 Idle" by simp
      from hand [OF assms(2) Cons this] show ?thesis by (force simp: set_worker_def)
    next
      case False
      show ?thesis by (rule active_worker_steps [OF assms(2) at False ne total])
    qed
  qed
qed

section \<open>Properties\<close>

text \<open>A run with one seed and one worker: the worker gets the address, the body, and answers with 7.\<close>

definition demo_serves :: "string \<Rightarrow> bytes option \<Rightarrow> bool" where
  "demo_serves a x \<longleftrightarrow> x = Some ''{}''"

definition demo_end :: "32 word pool" where
  "demo_end = \<lparr>pl_Pending = [], pl_AddrClosed = True, pl_Workers = [Exited], pl_Result = 7, pl_Resp = Some Success,
     pl_Cancelled = True, pl_Parent = False, pl_Crash = None, pl_Log = [(''http://seed'', ''{}'')]\<rparr>"

lemma demo_run: "(pool_step demo_net dec_uint demo_serves)\<^sup>*\<^sup>* (pool_start demo_rpc_config 0) demo_end"
proof -
  let ?R = "pool_step demo_net (dec_uint :: 32 word decoder) demo_serves"
  have n: "worker_count demo_rpc_config = 1"
    by (simp add: worker_count_def demo_rpc_config_def GetDefaultRPCConfig_def)
  let ?p0 = "pool_start demo_rpc_config (0 :: 32 word)"
  have p0: "?p0 = \<lparr>pl_Pending = [''http://seed''], pl_AddrClosed = False, pl_Workers = [Idle], pl_Result = 0, pl_Resp = None,
     pl_Cancelled = False, pl_Parent = False, pl_Crash = None, pl_Log = []\<rparr>"
    by (simp add: pool_start_def n) (simp add: demo_rpc_config_def)
  let ?p1 = "set_worker 0 (Requesting ''http://seed'') (?p0\<lparr>pl_Pending := []\<rparr>)"
  let ?p2 = "set_worker 0 (Holding ''http://seed'' ''{}'') ?p1"
  let ?p3 = "set_worker 0 Exited ((handled ''http://seed'' ''{}'' 7 ?p2)\<lparr>pl_Resp := Some Success, pl_Cancelled := True\<rparr>)"
  have "?R ?p0 ?p1" by (rule hand) (simp_all add: p0 worker_at_def)
  moreover have "?R ?p1 ?p2" by (rule reply) (simp_all add: p0 worker_at_def set_worker_def demo_serves_def)
  moreover have "?R ?p2 ?p3"
    by (rule answered) (simp_all add: p0 worker_at_def set_worker_def handle_body_def demo_net_def dec_rpcResp_def at_field_def
      key_eq_def lower_char_def)
  moreover have e: "?p3\<lparr>pl_AddrClosed := True\<rparr> = demo_end" by (simp add: p0 pool_upd_defs demo_end_def)
  have "?R ?p3 (?p3\<lparr>pl_AddrClosed := True\<rparr>)" by (rule close) (simp_all add: p0 pool_upd_defs)
  then have "?R ?p3 demo_end" unfolding e .
  ultimately show ?thesis by (blast intro: converse_rtranclp_into_rtranclp)
qed



text \<open>
  C20: The worker pool always comes to an end. Every step of it strictly decreases a measure, so there is
  no infinite run; and as long as each HTTP exchange ends (with a body or an error) and the concurrency
  is not negative, no reachable state is stuck: a pool that has neither finished nor crashed has a
  step even if the caller never cancels.
\<close>

theorem RPCCall_workers_terminate:
  assumes "(pool_step net d serves)\<^sup>*\<^sup>* (pool_start cfg r0) p" and "\<And>a. \<exists>x. serves a x" and "0 \<le>s rc_RPCConcurrency cfg"
  shows "(\<nexists>f. f 0 = p \<and> (\<forall>i. pool_step net d serves (f i) (f (Suc i)))) \<and>
     (pool_final p \<or> pl_Crash p \<noteq> None \<or> (\<exists>q. pool_step net d serves p q \<and> pl_Parent q = pl_Parent p))"
proof
  show "\<nexists>f. f 0 = p \<and> (\<forall>i. pool_step net d serves (f i) (f (Suc i)))"
  proof
    assume "\<exists>f. f 0 = p \<and> (\<forall>i. pool_step net d serves (f i) (f (Suc i)))"
    then obtain f where "\<forall>i. pool_step net d serves (f i) (f (Suc i))" by blast
    then have "\<forall>i. (f (Suc i), f i) \<in> measure pool_weight" using pool_step_weight by fastforce
    with wf_iff_no_infinite_down_chain [THEN iffD1, OF wf_measure [of pool_weight]] show False by auto
  qed
  have inv: "pool_inv net d serves cfg r0 p" using assms(1) by (blast intro: rpc_pool.reachable_inv)
  have wc: "worker_count cfg > 0 \<or> rc_SeedRPCServerAddr cfg = []"
  proof (cases "rc_RPCConcurrency cfg = 0")
    case False
    then have "sint (rc_RPCConcurrency cfg) \<noteq> 0" by (simp add: signed_eq_0_iff)
    with assms(3) False show ?thesis by (simp add: worker_count_def sle_sint)
  qed (simp add: worker_count_def)
  show "pool_final p \<or> pl_Crash p \<noteq> None \<or> (\<exists>q. pool_step net d serves p q \<and> pl_Parent q = pl_Parent p)"
  proof (cases "pool_final p \<or> pl_Crash p \<noteq> None")
    case False
    then have "pl_Crash p = None" and "\<not> pool_final p" by simp_all
    from pool_progress [OF inv this wc assms(2)] show ?thesis by simp
  qed blast
qed

theorem RPCCall_workers_terminate_witness:
  "\<exists>q. pool_step demo_net dec_uint demo_serves (pool_start demo_rpc_config (0 :: 32 word)) q \<and> \<not> pl_Parent q"
proof -
  have "(pool_step demo_net dec_uint demo_serves)\<^sup>*\<^sup>* (pool_start demo_rpc_config 0) (pool_start demo_rpc_config (0 :: 32 word))"
    by simp
  moreover have "\<exists>x. demo_serves a x" for a by (simp add: demo_serves_def)
  moreover have "0 \<le>s rc_RPCConcurrency demo_rpc_config"
    by (simp add: demo_rpc_config_def GetDefaultRPCConfig_def word_sle_eq)
  ultimately have "pool_final (pool_start demo_rpc_config (0 :: 32 word)) \<or> pl_Crash (pool_start demo_rpc_config (0 :: 32 word)) \<noteq> None \<or>
      (\<exists>q. pool_step demo_net dec_uint demo_serves (pool_start demo_rpc_config (0 :: 32 word)) q \<and>
        pl_Parent q = pl_Parent (pool_start demo_rpc_config (0 :: 32 word)))"
    by (rule RPCCall_workers_terminate [THEN conjunct2])
  then show ?thesis by (simp add: pool_final_def pool_start_def)
qed

end
