(* ===== verification/Nkn_TxOps.thy ===== *)
theory Nkn_TxOps
  imports Nkn_RPC
begin

text \<open>
  The operations that send a transaction (\<^verbatim>\<open>TransferContext\<close>, \<^verbatim>\<open>RegisterNameContext\<close>,
  \<^verbatim>\<open>TransferNameContext\<close>, \<^verbatim>\<open>DeleteNameContext\<close>, \<^verbatim>\<open>SubscribeContext\<close>, \<^verbatim>\<open>UnsubscribeContext\<close> of
  \<^verbatim>\<open>src/rpc.go\<close>). They differ in how the transaction is built and share the rest: the fee, the nonce,
  the attributes, the signature and the submission. The node's constructors of transactions are
  parameters (\<open>tx_ext\<close>); the signing RPC client is the record \<open>signer_rpc\<close>, the interface
  \<^verbatim>\<open>signerRPCClient\<close> of the code as far as the operations use it.
\<close>

section \<open>Interfaces\<close>

record tx_ext =
  copy_transaction_config :: "transaction_config copier"
  tx_StringToFixed64 :: "string \<Rightarrow> fixed64 result"
  tx_CreateProgramHash :: "bytes \<Rightarrow> program_hash result"
  tx_ToScriptHash :: "string \<Rightarrow> program_hash result"
  MinNameRegistrationFee :: fixed64
  NewTransferAssetTransaction :: "program_hash \<Rightarrow> program_hash \<Rightarrow> uint64 \<Rightarrow> fixed64 \<Rightarrow> fixed64 \<Rightarrow> transaction result"
  NewRegisterNameTransaction :: "bytes \<Rightarrow> string \<Rightarrow> uint64 \<Rightarrow> fixed64 \<Rightarrow> fixed64 \<Rightarrow> transaction result"
  NewTransferNameTransaction :: "bytes \<Rightarrow> bytes \<Rightarrow> string \<Rightarrow> uint64 \<Rightarrow> fixed64 \<Rightarrow> transaction result"
  NewDeleteNameTransaction :: "bytes \<Rightarrow> string \<Rightarrow> uint64 \<Rightarrow> fixed64 \<Rightarrow> transaction result"
  NewSubscribeTransaction :: "bytes \<Rightarrow> string \<Rightarrow> string \<Rightarrow> uint32 \<Rightarrow> string \<Rightarrow> uint64 \<Rightarrow> fixed64 \<Rightarrow> transaction result"
  NewUnsubscribeTransaction :: "bytes \<Rightarrow> string \<Rightarrow> string \<Rightarrow> uint64 \<Rightarrow> fixed64 \<Rightarrow> transaction result"

record 'w signer_rpc =
  sr_PubKey :: bytes
  sr_SignTransaction :: "transaction \<Rightarrow> transaction result"
  sr_GetNonce :: "bool \<Rightarrow> ('w, err, int64) act"
  sr_SendRawTransaction :: "transaction \<Rightarrow> ('w, err, string) act"

section \<open>The shared parts\<close>

definition pick_nonce :: "'w signer_rpc \<Rightarrow> transaction_config \<Rightarrow> ('w, err, int64) act" where
  "pick_nonce s config =
     (if tc_Nonce config = 0 \<and> \<not> tc_FixNonce config then sr_GetNonce s True else ret (tc_Nonce config))"

definition set_attributes :: "transaction_config \<Rightarrow> transaction \<Rightarrow> transaction" where
  "set_attributes config tx = (if length (tc_Attributes config) > 0 then tx\<lparr>tx_Attributes := tc_Attributes config\<rparr> else tx)"

definition sign_and_send :: "'w signer_rpc \<Rightarrow> transaction_config \<Rightarrow> transaction \<Rightarrow> ('w, err, string) act" where
  "sign_and_send s config tx =
     bnd (of_res (sr_SignTransaction s (set_attributes config tx))) (\<lambda>signed.
     sr_SendRawTransaction s signed)"

text \<open>The fee, the nonce, the transaction that \<open>build\<close> makes of them, and its submission.\<close>

definition send_tx :: "tx_ext \<Rightarrow> 'w signer_rpc \<Rightarrow> transaction_config \<Rightarrow>
    (uint64 \<Rightarrow> fixed64 \<Rightarrow> transaction result) \<Rightarrow> ('w, err, string) act" where
  "send_tx x s config build =
     bnd (of_res (tx_StringToFixed64 x (tc_Fee config))) (\<lambda>fee.
     bnd (pick_nonce s config) (\<lambda>nonce.
     bnd (of_res (build nonce fee)) (\<lambda>tx.
     sign_and_send s config tx)))"

section \<open>The operations\<close>

definition TransferContext :: "tx_ext \<Rightarrow> 'w signer_rpc \<Rightarrow> string \<Rightarrow> string \<Rightarrow> transaction_config option \<Rightarrow> ('w, err, string) act" where
  "TransferContext x s address amount conf =
     bnd (of_res (MergeTransactionConfig (copy_transaction_config x) conf)) (\<lambda>config.
     bnd (of_res (tx_CreateProgramHash x (sr_PubKey s))) (\<lambda>sender.
     bnd (of_res (tx_StringToFixed64 x amount)) (\<lambda>amountFixed64.
     bnd (of_res (tx_ToScriptHash x address)) (\<lambda>recipient.
     send_tx x s config (\<lambda>nonce fee. NewTransferAssetTransaction x sender recipient nonce amountFixed64 fee)))))"

definition RegisterNameContext :: "tx_ext \<Rightarrow> 'w signer_rpc \<Rightarrow> string \<Rightarrow> transaction_config option \<Rightarrow> ('w, err, string) act" where
  "RegisterNameContext x s name conf =
     bnd (of_res (MergeTransactionConfig (copy_transaction_config x) conf)) (\<lambda>config.
     send_tx x s config (\<lambda>nonce fee. NewRegisterNameTransaction x (sr_PubKey s) name nonce (MinNameRegistrationFee x) fee))"

definition TransferNameContext :: "tx_ext \<Rightarrow> 'w signer_rpc \<Rightarrow> string \<Rightarrow> bytes \<Rightarrow> transaction_config option \<Rightarrow> ('w, err, string) act" where
  "TransferNameContext x s name recipientPubKey conf =
     bnd (of_res (MergeTransactionConfig (copy_transaction_config x) conf)) (\<lambda>config.
     send_tx x s config (\<lambda>nonce fee. NewTransferNameTransaction x (sr_PubKey s) recipientPubKey name nonce fee))"

definition DeleteNameContext :: "tx_ext \<Rightarrow> 'w signer_rpc \<Rightarrow> string \<Rightarrow> transaction_config option \<Rightarrow> ('w, err, string) act" where
  "DeleteNameContext x s name conf =
     bnd (of_res (MergeTransactionConfig (copy_transaction_config x) conf)) (\<lambda>config.
     send_tx x s config (\<lambda>nonce fee. NewDeleteNameTransaction x (sr_PubKey s) name nonce fee))"

definition SubscribeContext :: "tx_ext \<Rightarrow> 'w signer_rpc \<Rightarrow> string \<Rightarrow> string \<Rightarrow> int \<Rightarrow> string \<Rightarrow> transaction_config option \<Rightarrow> ('w, err, string) act" where
  "SubscribeContext x s ident topic duration meta conf =
     bnd (of_res (MergeTransactionConfig (copy_transaction_config x) conf)) (\<lambda>config.
     send_tx x s config (\<lambda>nonce fee. NewSubscribeTransaction x (sr_PubKey s) ident topic (word_of_int duration) meta nonce fee))"

definition UnsubscribeContext :: "tx_ext \<Rightarrow> 'w signer_rpc \<Rightarrow> string \<Rightarrow> string \<Rightarrow> transaction_config option \<Rightarrow> ('w, err, string) act" where
  "UnsubscribeContext x s ident topic conf =
     bnd (of_res (MergeTransactionConfig (copy_transaction_config x) conf)) (\<lambda>config.
     send_tx x s config (\<lambda>nonce fee. NewUnsubscribeTransaction x (sr_PubKey s) ident topic nonce fee))"

section \<open>What is sent\<close>

text \<open>
  The part of a transaction that its signature covers and that the network executes: everything but the
  programs, where the signature itself is.
\<close>

definition unsigned :: "transaction \<Rightarrow> bytes \<times> uint64 \<times> int64 \<times> bytes" where
  "unsigned tx = (tx_Payload tx, tx_Nonce tx, tx_Fee tx, tx_Attributes tx)"

text \<open>
  The contract of a signer: signing fills in the programs and leaves the rest of the transaction as it
  is. Clients of this contract are the six operations.
\<close>

locale tx_signer =
  fixes sign :: "transaction \<Rightarrow> transaction result"
  assumes sign_keeps: "sign tx = Ok tx' \<Longrightarrow> unsigned tx' = unsigned tx"
    and sign_programs: "sign tx = Ok tx' \<Longrightarrow> tx_Programs tx' \<noteq> []"
begin

lemma sign_and_send_sent:
  assumes "sign_and_send s config tx w = (Ok h, w')" and "sr_SignTransaction s = sign"
  shows "\<exists>sent. sr_SendRawTransaction s sent w = (Ok h, w') \<and> tx_Programs sent \<noteq> [] \<and>
     unsigned sent = unsigned (set_attributes config tx)"
  using assms sign_keeps sign_programs by (auto simp: sign_and_send_def elim!: bnd_OkE)

end

lemma send_tx_OkE:
  assumes "send_tx x s config build w = (Ok h, w')"
  obtains fee nonce tx w1 where "tx_StringToFixed64 x (tc_Fee config) = Ok fee"
    and "pick_nonce s config w = (Ok nonce, w1)" and "build nonce fee = Ok tx"
    and "sign_and_send s config tx w1 = (Ok h, w')"
proof -
  from assms obtain fee where fee: "tx_StringToFixed64 x (tc_Fee config) = Ok fee"
    and r1: "bnd (pick_nonce s config) (\<lambda>nonce. bnd (of_res (build nonce fee)) (\<lambda>tx. sign_and_send s config tx)) w = (Ok h, w')"
    unfolding send_tx_def by (rule bnd_OkE) simp
  from r1 obtain nonce w1 where nonce: "pick_nonce s config w = (Ok nonce, w1)"
    and r2: "bnd (of_res (build nonce fee)) (\<lambda>tx. sign_and_send s config tx) w1 = (Ok h, w')"
    by (rule bnd_OkE)
  from r2 obtain tx where "build nonce fee = Ok tx" and "sign_and_send s config tx w1 = (Ok h, w')"
    by (rule bnd_OkE) simp
  with that fee nonce show thesis by blast
qed

end
