(* ===== verification/Nkn_Wallet.thy ===== *)
theory Nkn_Wallet
  imports Nkn_TxOps Nkn_NanoPay Nkn_Message
begin

text \<open>
  Accounts (\<^verbatim>\<open>src/util.go\<close>) and the wallet (\<^verbatim>\<open>src/wallet.go\<close>): its creation, its encrypted JSON form,
  signing, and the RPC methods, which use the wallet's own seed addresses. The keystore and the signature
  packages of the node are parameters (\<open>vault_ext\<close>); of an encrypted keystore (\<^verbatim>\<open>vault.WalletData\<close>) the
  SDK reads the version, the IV and the address.

  A configuration that is erased when its creator returns (\<^verbatim>\<open>defer\<close>) is the configuration the wallet
  keeps: the model returns it erased.
\<close>

section \<open>State\<close>

record account =
  ac_PublicKey :: bytes
  ac_PrivateKey :: bytes
  ac_ProgramHash :: program_hash

record wallet_data =
  wd_Version :: int
  wd_IV :: string
  wd_Address :: string
  wd_Secrets :: bytes

record wallet =
  wa_config :: wallet_config
  wa_account :: account
  wa_address :: string
  wa_walletData :: "wallet_data option"

record 'w vault_ext =
  copy_wallet_config :: "wallet_config copier"
  NewAccountWithSeed :: "bytes \<Rightarrow> account result"
  vault_NewAccount :: "('w, err, account) act"
  ProgramHash_ToAddress :: "program_hash \<Rightarrow> string result"
  GetSeedFromPrivateKey :: "bytes \<Rightarrow> bytes"
  NewWalletData :: "account \<Rightarrow> bytes \<Rightarrow> bytes \<Rightarrow> bytes \<Rightarrow> bytes \<Rightarrow> int \<Rightarrow> int \<Rightarrow> int \<Rightarrow> ('w, err, wallet_data) act"
  DecryptAccount :: "wallet_data \<Rightarrow> bytes \<Rightarrow> account result"
  DecryptMasterKey :: "wallet_data \<Rightarrow> bytes \<Rightarrow> bytes result"
  WalletData_VerifyPassword :: "wallet_data \<Rightarrow> bytes \<Rightarrow> unit result"
  WalletData_Marshal :: "wallet_data \<Rightarrow> bytes result"
  WalletData_Unmarshal :: "bytes \<Rightarrow> wallet_data result"
  WalletVersion :: int
  MinCompatibleWalletVersion :: int
  MaxCompatibleWalletVersion :: int
  CreateSignatureProgramContext :: "bytes \<Rightarrow> bytes result"
  SignBySigner :: "transaction \<Rightarrow> account \<Rightarrow> bytes result"
  NewProgram :: "bytes \<Rightarrow> bytes \<Rightarrow> bytes"

section \<open>Accounts\<close>

definition NewAccount :: "'w vault_ext \<Rightarrow> bytes \<Rightarrow> ('w, err, account) act" where
  "NewAccount x seed =
     bnd (if length seed > 0 then of_res (NewAccountWithSeed x seed) else vault_NewAccount x) (\<lambda>account.
     bnd (of_res (ProgramHash_ToAddress x (ac_ProgramHash account))) (\<lambda>_.
     ret account))"

definition Account_Seed :: "'w vault_ext \<Rightarrow> account \<Rightarrow> bytes" where
  "Account_Seed x account = GetSeedFromPrivateKey x (ac_PrivateKey account)"

definition Account_PubKey :: "account \<Rightarrow> bytes" where
  "Account_PubKey account = ac_PublicKey account"

text \<open>The error is dropped, and the address is then empty.\<close>

definition Account_WalletAddress :: "'w vault_ext \<Rightarrow> account \<Rightarrow> string" where
  "Account_WalletAddress x account = (case ProgramHash_ToAddress x (ac_ProgramHash account) of Ok addr \<Rightarrow> addr | _ \<Rightarrow> [])"

section \<open>Creating a wallet\<close>

definition erase_secrets :: "wallet_config \<Rightarrow> wallet_config" where
  "erase_secrets config = config\<lparr>wc_Password := [], wc_MasterKey := []\<rparr>"

definition encrypt_account :: "'w vault_ext \<Rightarrow> account \<Rightarrow> wallet_config \<Rightarrow> ('w, err, wallet_data) act" where
  "encrypt_account x account config =
     NewWalletData x account (wc_Password config) (wc_MasterKey config) (wc_IV config)
       (sc_Salt (wc_ScryptConfig config)) (sc_N (wc_ScryptConfig config)) (sc_R (wc_ScryptConfig config))
       (sc_P (wc_ScryptConfig config))"

definition NewWallet :: "'w vault_ext \<Rightarrow> account \<Rightarrow> wallet_config option \<Rightarrow> ('w, err, wallet) act" where
  "NewWallet x account conf =
     bnd (of_res (MergeWalletConfig (copy_wallet_config x) conf)) (\<lambda>config.
       if length (wc_Password config) > 0 \<or> length (wc_MasterKey config) > 0
       then bnd (encrypt_account x account config) (\<lambda>walletData.
              ret \<lparr>wa_config = erase_secrets config, wa_account = account,
                   wa_address = Account_WalletAddress x account, wa_walletData = Some walletData\<rparr>)
       else ret \<lparr>wa_config = config, wa_account = account,
                 wa_address = Account_WalletAddress x account, wa_walletData = None\<rparr>)"

definition WalletFromJSON :: "'w vault_ext \<Rightarrow> string \<Rightarrow> wallet_config option \<Rightarrow> ('w, err, wallet) act" where
  "WalletFromJSON x walletJSON conf =
     bnd (of_res (MergeWalletConfig (copy_wallet_config x) conf)) (\<lambda>config.
     bnd (of_res (WalletData_Unmarshal x walletJSON)) (\<lambda>walletData.
       if wd_Version walletData < MinCompatibleWalletVersion x \<or> wd_Version walletData > MaxCompatibleWalletVersion x
       then throw ErrInvalidWalletVersion
       else
     bnd (of_res (DecryptAccount x walletData (wc_Password config))) (\<lambda>account.
     bnd (of_res (ProgramHash_ToAddress x (ac_ProgramHash account))) (\<lambda>address.
       if address \<noteq> wd_Address walletData then throw ErrWrongPassword
       else if wd_Version walletData = WalletVersion x
       then ret \<lparr>wa_config = erase_secrets config, wa_account = account, wa_address = address,
                 wa_walletData = Some walletData\<rparr>
       else
     bnd (of_res (DecodeString (wd_IV walletData))) (\<lambda>iv.
     bnd (of_res (DecryptMasterKey x walletData (wc_Password config))) (\<lambda>masterKey.
     NewWallet x account (Some (config\<lparr>wc_IV := iv, wc_MasterKey := masterKey\<rparr>))))))))"

section \<open>Methods\<close>

definition getWalletData :: "'w vault_ext \<Rightarrow> (wallet \<times> 'w, err, wallet_data) act" where
  "getWalletData x =
     bnd (obj (\<lambda>w. w)) (\<lambda>w.
       case wa_walletData w of
         None \<Rightarrow> bnd (env (encrypt_account x (wa_account w) (wa_config w))) (\<lambda>walletData.
                 bnd (upd (\<lambda>w. w\<lparr>wa_walletData := Some walletData\<rparr>)) (\<lambda>_.
                 ret walletData))
       | Some walletData \<Rightarrow> ret walletData)"

definition Wallet_MarshalJSON :: "'w vault_ext \<Rightarrow> (wallet \<times> 'w, err, bytes) act" where
  "Wallet_MarshalJSON x = bnd (getWalletData x) (\<lambda>walletData. of_res (WalletData_Marshal x walletData))"

definition Wallet_ToJSON :: "'w vault_ext \<Rightarrow> (wallet \<times> 'w, err, string) act" where
  "Wallet_ToJSON x = bnd (Wallet_MarshalJSON x) (\<lambda>b. ret b)"

definition Wallet_Account :: "wallet \<Rightarrow> account" where "Wallet_Account w = wa_account w"

definition Wallet_Seed :: "'w vault_ext \<Rightarrow> wallet \<Rightarrow> bytes" where "Wallet_Seed x w = Account_Seed x (wa_account w)"

definition Wallet_PubKey :: "wallet \<Rightarrow> bytes" where "Wallet_PubKey w = Account_PubKey (wa_account w)"

definition Wallet_Address :: "wallet \<Rightarrow> string" where "Wallet_Address w = wa_address w"

definition Wallet_VerifyPassword :: "'w vault_ext \<Rightarrow> string \<Rightarrow> (wallet \<times> 'w, err, unit) act" where
  "Wallet_VerifyPassword x password =
     bnd (getWalletData x) (\<lambda>walletData. of_res (WalletData_VerifyPassword x walletData password))"

definition Wallet_ProgramHash :: "wallet \<Rightarrow> program_hash" where "Wallet_ProgramHash w = ac_ProgramHash (wa_account w)"

definition Wallet_SignTransaction :: "'w vault_ext \<Rightarrow> wallet \<Rightarrow> transaction \<Rightarrow> transaction result" where
  "Wallet_SignTransaction x w tx =
     and_then (CreateSignatureProgramContext x (ac_PublicKey (wa_account w))) (\<lambda>ct.
     and_then (SignBySigner x tx (wa_account w)) (\<lambda>sig.
     Ok (tx\<lparr>tx_Programs := [NewProgram x ct sig]\<rparr>)))"

definition Wallet_NewNanoPay :: "'w nano_ext \<Rightarrow> wallet \<Rightarrow> string \<Rightarrow> string \<Rightarrow> int \<Rightarrow> ('w, err, nano_pay) act" where
  "Wallet_NewNanoPay nx w recipientAddress fee duration = NewNanoPay nx (Wallet_ProgramHash w) recipientAddress fee duration"

definition Wallet_NewNanoPayClaimer :: "'w nano_ext \<Rightarrow> wallet \<Rightarrow> string \<Rightarrow> string \<Rightarrow> ('w, err, claimer) act" where
  "Wallet_NewNanoPayClaimer nx w recipientAddress minFlushAmount =
     NewNanoPayClaimer nx (if length recipientAddress = 0 then Wallet_Address w else recipientAddress) minFlushAmount"

section \<open>RPC methods\<close>

definition Wallet_rpc :: "wallet \<Rightarrow> rpc_config option" where
  "Wallet_rpc w = Some (WalletConfig_RPC (wa_config w))"

definition Wallet_GetNonceByAddressContext :: "'w net_ext \<Rightarrow> wallet \<Rightarrow> string \<Rightarrow> bool \<Rightarrow> ('w, err, int64) act" where
  "Wallet_GetNonceByAddressContext net w address txPool = GetNonceContext net address txPool (Wallet_rpc w)"

definition Wallet_GetNonceContext :: "'w net_ext \<Rightarrow> wallet \<Rightarrow> bool \<Rightarrow> ('w, err, int64) act" where
  "Wallet_GetNonceContext net w txPool = Wallet_GetNonceByAddressContext net w (Wallet_Address w) txPool"

definition Wallet_GetHeightContext :: "'w net_ext \<Rightarrow> wallet \<Rightarrow> ('w, err, int32) act" where
  "Wallet_GetHeightContext net w = GetHeightContext net (Wallet_rpc w)"

definition Wallet_BalanceByAddressContext :: "'w net_ext \<Rightarrow> wallet \<Rightarrow> string \<Rightarrow> ('w, err, fixed64) act" where
  "Wallet_BalanceByAddressContext net w address = GetBalanceContext net address (Wallet_rpc w)"

definition Wallet_BalanceContext :: "'w net_ext \<Rightarrow> wallet \<Rightarrow> ('w, err, fixed64) act" where
  "Wallet_BalanceContext net w = Wallet_BalanceByAddressContext net w (Wallet_Address w)"

definition Wallet_GetSubscribersContext ::
  "'w net_ext \<Rightarrow> wallet \<Rightarrow> string \<Rightarrow> int \<Rightarrow> int \<Rightarrow> bool \<Rightarrow> bool \<Rightarrow> bytes \<Rightarrow> ('w, err, subscribers) act" where
  "Wallet_GetSubscribersContext net w topic offset limit meta txPool subscriberHashPrefix =
     GetSubscribersContext net topic offset limit meta txPool subscriberHashPrefix (Wallet_rpc w)"

definition Wallet_GetSubscriptionContext :: "'w net_ext \<Rightarrow> wallet \<Rightarrow> string \<Rightarrow> string \<Rightarrow> ('w, err, subscription) act" where
  "Wallet_GetSubscriptionContext net w topic subscriber = GetSubscriptionContext net topic subscriber (Wallet_rpc w)"

definition Wallet_GetSubscribersCountContext :: "'w net_ext \<Rightarrow> wallet \<Rightarrow> string \<Rightarrow> bytes \<Rightarrow> ('w, err, int) act" where
  "Wallet_GetSubscribersCountContext net w topic subscriberHashPrefix =
     GetSubscribersCountContext net topic subscriberHashPrefix (Wallet_rpc w)"

definition Wallet_GetRegistrantContext :: "'w net_ext \<Rightarrow> wallet \<Rightarrow> string \<Rightarrow> ('w, err, registrant) act" where
  "Wallet_GetRegistrantContext net w name = GetRegistrantContext net name (Wallet_rpc w)"

definition Wallet_SendRawTransactionContext :: "'w net_ext \<Rightarrow> wallet \<Rightarrow> transaction \<Rightarrow> ('w, err, string) act" where
  "Wallet_SendRawTransactionContext net w txn = SendRawTransactionContext net txn (Wallet_rpc w)"

text \<open>The wallet as \<^verbatim>\<open>rpcClient\<close> and as \<^verbatim>\<open>signerRPCClient\<close>.\<close>

definition wallet_rpc_client :: "'w net_ext \<Rightarrow> wallet \<Rightarrow> 'w rpc_client" where
  "wallet_rpc_client net w =
     \<lparr>rpcGetNonce = Wallet_GetNonceContext net w,
      rpcGetNonceByAddress = Wallet_GetNonceByAddressContext net w,
      rpcBalance = Wallet_BalanceContext net w,
      rpcBalanceByAddress = Wallet_BalanceByAddressContext net w,
      rpcGetHeight = Wallet_GetHeightContext net w,
      rpcGetSubscribers = Wallet_GetSubscribersContext net w,
      rpcGetSubscription = Wallet_GetSubscriptionContext net w,
      rpcGetSubscribersCount = Wallet_GetSubscribersCountContext net w,
      rpcGetRegistrant = Wallet_GetRegistrantContext net w,
      rpcSendRawTransaction = Wallet_SendRawTransactionContext net w\<rparr>"

definition wallet_signer :: "'w vault_ext \<Rightarrow> 'w net_ext \<Rightarrow> wallet \<Rightarrow> 'w signer_rpc" where
  "wallet_signer x net w =
     \<lparr>sr_PubKey = Wallet_PubKey w, sr_SignTransaction = Wallet_SignTransaction x w,
      sr_GetNonce = Wallet_GetNonceContext net w, sr_SendRawTransaction = Wallet_SendRawTransactionContext net w\<rparr>"

definition Wallet_TransferContext ::
  "'w vault_ext \<Rightarrow> tx_ext \<Rightarrow> 'w net_ext \<Rightarrow> wallet \<Rightarrow> string \<Rightarrow> string \<Rightarrow> transaction_config option \<Rightarrow> ('w, err, string) act" where
  "Wallet_TransferContext x t net w address amount config = TransferContext t (wallet_signer x net w) address amount config"

definition Wallet_RegisterNameContext ::
  "'w vault_ext \<Rightarrow> tx_ext \<Rightarrow> 'w net_ext \<Rightarrow> wallet \<Rightarrow> string \<Rightarrow> transaction_config option \<Rightarrow> ('w, err, string) act" where
  "Wallet_RegisterNameContext x t net w name config = RegisterNameContext t (wallet_signer x net w) name config"

definition Wallet_TransferNameContext ::
  "'w vault_ext \<Rightarrow> tx_ext \<Rightarrow> 'w net_ext \<Rightarrow> wallet \<Rightarrow> string \<Rightarrow> bytes \<Rightarrow> transaction_config option \<Rightarrow> ('w, err, string) act" where
  "Wallet_TransferNameContext x t net w name recipientPubKey config =
     TransferNameContext t (wallet_signer x net w) name recipientPubKey config"

definition Wallet_DeleteNameContext ::
  "'w vault_ext \<Rightarrow> tx_ext \<Rightarrow> 'w net_ext \<Rightarrow> wallet \<Rightarrow> string \<Rightarrow> transaction_config option \<Rightarrow> ('w, err, string) act" where
  "Wallet_DeleteNameContext x t net w name config = DeleteNameContext t (wallet_signer x net w) name config"

definition Wallet_SubscribeContext ::
  "'w vault_ext \<Rightarrow> tx_ext \<Rightarrow> 'w net_ext \<Rightarrow> wallet \<Rightarrow> string \<Rightarrow> string \<Rightarrow> int \<Rightarrow> string \<Rightarrow> transaction_config option \<Rightarrow> ('w, err, string) act" where
  "Wallet_SubscribeContext x t net w ident topic duration meta config =
     SubscribeContext t (wallet_signer x net w) ident topic duration meta config"

definition Wallet_UnsubscribeContext ::
  "'w vault_ext \<Rightarrow> tx_ext \<Rightarrow> 'w net_ext \<Rightarrow> wallet \<Rightarrow> string \<Rightarrow> string \<Rightarrow> transaction_config option \<Rightarrow> ('w, err, string) act" where
  "Wallet_UnsubscribeContext x t net w ident topic config = UnsubscribeContext t (wallet_signer x net w) ident topic config"

section \<open>The wallet as a signer\<close>

interpretation wallet_signs: tx_signer "Wallet_SignTransaction x w" for x w
  by unfold_locales (auto simp: Wallet_SignTransaction_def unsigned_def)

section \<open>What the keystore promises\<close>

text \<open>
  A keystore made from an account and a password decrypts to the account with that password, carries
  the current version and the account's address, and survives its JSON form. The merged configuration
  has the password that was given.
\<close>

definition vault_laws :: "'w vault_ext \<Rightarrow> bool" where
  "vault_laws x \<longleftrightarrow>
     (\<forall>account pw mk iv salt n r p w wd w'. NewWalletData x account pw mk iv salt n r p w = (Ok wd, w') \<longrightarrow>
        DecryptAccount x wd pw = Ok account \<and> wd_Version wd = WalletVersion x \<and>
        ProgramHash_ToAddress x (ac_ProgramHash account) = Ok (wd_Address wd)) \<and>
     (\<forall>wd b. WalletData_Marshal x wd = Ok b \<longrightarrow> WalletData_Unmarshal x b = Ok wd) \<and>
     MinCompatibleWalletVersion x \<le> WalletVersion x \<and> WalletVersion x \<le> MaxCompatibleWalletVersion x"

definition ignores_empty_wallet :: "wallet_config copier \<Rightarrow> bool" where
  "ignores_empty_wallet copy \<longleftrightarrow> (\<forall>base c. \<exists>m. copy base c = Ok m \<and>
     wc_Password m = overlay [] (wc_Password base) (wc_Password c) \<and>
     wc_MasterKey m = overlay [] (wc_MasterKey base) (wc_MasterKey c))"

definition given_password :: "wallet_config option \<Rightarrow> string" where
  "given_password conf = (case conf of None \<Rightarrow> [] | Some c \<Rightarrow> wc_Password c)"

lemma merged_password:
  assumes "ignores_empty_wallet copy"
  shows "\<exists>m. MergeWalletConfig copy conf = Ok m \<and> wc_Password m = given_password conf"
proof (cases conf)
  case None
  then show ?thesis by (simp add: MergeWalletConfig_def given_password_def GetDefaultWalletConfig_def)
next
  case (Some c)
  from assms obtain m where "copy GetDefaultWalletConfig c = Ok m"
    and "wc_Password m = overlay [] (wc_Password GetDefaultWalletConfig) (wc_Password c)"
    unfolding ignores_empty_wallet_def by blast
  with Some show ?thesis
    by (auto simp: MergeWalletConfig_def given_password_def overlay_def GetDefaultWalletConfig_def)
qed

section \<open>Lemmas\<close>

lemma erase_secrets_fields [simp]:
  "wc_Password (erase_secrets c) = []" "wc_MasterKey (erase_secrets c) = []" "WalletConfig_RPC (erase_secrets c) = WalletConfig_RPC c"
  by (simp_all add: erase_secrets_def WalletConfig_RPC_def)

lemma NewWallet_OkE:
  assumes "NewWallet x account conf w = (Ok wal, w')"
  obtains config where "MergeWalletConfig (copy_wallet_config x) conf = Ok config"
    and "wa_account wal = account" and "wa_address wal = Account_WalletAddress x account"
    and "wa_config wal = erase_secrets config"
    and "(\<exists>wd. encrypt_account x account config w = (Ok wd, w') \<and> wa_walletData wal = Some wd) \<or>
         wc_Password config = [] \<and> wc_MasterKey config = [] \<and> wa_walletData wal = None"
proof -
  from assms obtain config where m: "MergeWalletConfig (copy_wallet_config x) conf = Ok config"
    and r: "(if length (wc_Password config) > 0 \<or> length (wc_MasterKey config) > 0
       then bnd (encrypt_account x account config) (\<lambda>walletData.
              ret \<lparr>wa_config = erase_secrets config, wa_account = account,
                   wa_address = Account_WalletAddress x account, wa_walletData = Some walletData\<rparr>)
       else ret \<lparr>wa_config = config, wa_account = account,
                 wa_address = Account_WalletAddress x account, wa_walletData = None\<rparr>) w = (Ok wal, w')"
    unfolding NewWallet_def by (rule bnd_OkE) simp
  show thesis
  proof (cases "length (wc_Password config) > 0 \<or> length (wc_MasterKey config) > 0")
    case True
    with r m that show thesis by (auto elim!: bnd_OkE)
  next
    case False
    then have "config = erase_secrets config" by (simp add: erase_secrets_def)
    with False r m that show thesis by auto
  qed
qed

text \<open>The keystore a wallet has or will make.\<close>

definition holds_keystore :: "'w vault_ext \<Rightarrow> string \<Rightarrow> wallet \<Rightarrow> bool" where
  "holds_keystore x pw wal \<longleftrightarrow>
     (case wa_walletData wal of
        None \<Rightarrow> pw = wc_Password (wa_config wal)
      | Some wd \<Rightarrow> DecryptAccount x wd pw = Ok (wa_account wal) \<and> wd_Version wd = WalletVersion x \<and>
          ProgramHash_ToAddress x (ac_ProgramHash (wa_account wal)) = Ok (wd_Address wd))"

lemma encrypt_account_law:
  assumes "vault_laws x" and "encrypt_account x account config w = (Ok wd, w')"
  shows "DecryptAccount x wd (wc_Password config) = Ok account \<and> wd_Version wd = WalletVersion x \<and>
     ProgramHash_ToAddress x (ac_ProgramHash account) = Ok (wd_Address wd)"
  using assms unfolding vault_laws_def encrypt_account_def by blast

lemma NewWallet_keystore:
  assumes "vault_laws x" and "ignores_empty_wallet (copy_wallet_config x)"
    and "NewWallet x account conf w = (Ok wal, w')"
  shows "holds_keystore x (given_password conf) wal"
  using assms(3)
proof (rule NewWallet_OkE)
  fix config
  assume m: "MergeWalletConfig (copy_wallet_config x) conf = Ok config" and a: "wa_account wal = account"
    and c: "wa_config wal = erase_secrets config"
    and d: "(\<exists>wd. encrypt_account x account config w = (Ok wd, w') \<and> wa_walletData wal = Some wd) \<or>
         wc_Password config = [] \<and> wc_MasterKey config = [] \<and> wa_walletData wal = None"
  from m merged_password [OF assms(2), of conf] have pw: "wc_Password config = given_password conf" by simp
  from d show ?thesis
  proof
    assume "\<exists>wd. encrypt_account x account config w = (Ok wd, w') \<and> wa_walletData wal = Some wd"
    with encrypt_account_law [OF assms(1), of account config w] pw a show ?thesis by (auto simp: holds_keystore_def)
  next
    assume "wc_Password config = [] \<and> wc_MasterKey config = [] \<and> wa_walletData wal = None"
    with pw c show ?thesis by (simp add: holds_keystore_def)
  qed
qed

lemma getWalletData_Ok:
  assumes "vault_laws x" and "holds_keystore x pw wal" and "getWalletData x (wal, w) = (Ok wd, (wal', w'))"
  shows "DecryptAccount x wd pw = Ok (wa_account wal) \<and> wd_Version wd = WalletVersion x \<and>
     ProgramHash_ToAddress x (ac_ProgramHash (wa_account wal)) = Ok (wd_Address wd) \<and> wa_walletData wal' = Some wd"
proof (cases "wa_walletData wal")
  case None
  with assms(3) obtain w1 where "encrypt_account x (wa_account wal) (wa_config wal) w = (Ok wd, w1)"
    and "wal' = wal\<lparr>wa_walletData := Some wd\<rparr>"
    by (auto simp: getWalletData_def elim!: bnd_OkE)
  with encrypt_account_law [OF assms(1)] assms(2) None show ?thesis by (force simp: holds_keystore_def)
next
  case (Some d)
  with assms show ?thesis by (auto simp: getWalletData_def holds_keystore_def)
qed

lemma WalletFromJSON_OkE:
  assumes "WalletFromJSON x j conf w = (Ok wal, w')"
  obtains config wd account where "MergeWalletConfig (copy_wallet_config x) conf = Ok config"
    and "WalletData_Unmarshal x j = Ok wd"
    and "MinCompatibleWalletVersion x \<le> wd_Version wd" and "wd_Version wd \<le> MaxCompatibleWalletVersion x"
    and "DecryptAccount x wd (wc_Password config) = Ok account"
    and "ProgramHash_ToAddress x (ac_ProgramHash account) = Ok (wd_Address wd)"
    and "wal = \<lparr>wa_config = erase_secrets config, wa_account = account, wa_address = wd_Address wd, wa_walletData = Some wd\<rparr> \<or>
      (\<exists>iv mk. NewWallet x account (Some (config\<lparr>wc_IV := iv, wc_MasterKey := mk\<rparr>)) w = (Ok wal, w'))"
  using assms unfolding WalletFromJSON_def
  by (auto elim!: bnd_OkE split: if_splits simp: not_less) (blast intro: that)

section \<open>Witness instances\<close>

text \<open>A keystore that keeps the secrets in the clear, and a copier that takes the given configuration.\<close>

definition demo_account :: account where
  "demo_account = \<lparr>ac_PublicKey = ''pk'', ac_PrivateKey = ''sk'', ac_ProgramHash = ''hash''\<rparr>"

definition demo_vault :: "unit vault_ext" where
  "demo_vault =
    \<lparr>copy_wallet_config = (\<lambda>base c. Ok (c\<lparr>wc_Password := overlay [] (wc_Password base) (wc_Password c),
        wc_MasterKey := overlay [] (wc_MasterKey base) (wc_MasterKey c)\<rparr>)),
     NewAccountWithSeed = (\<lambda>s. Ok demo_account), vault_NewAccount = ret demo_account,
     ProgramHash_ToAddress = (\<lambda>h. Ok (''NKN'' @ h)), GetSeedFromPrivateKey = id,
     NewWalletData = (\<lambda>a pw mk iv salt n r p w.
        (Ok \<lparr>wd_Version = 2, wd_IV = hex_encode iv, wd_Address = ''NKN'' @ ac_ProgramHash a,
             wd_Secrets = Join [hex_encode (ac_PublicKey a), hex_encode (ac_PrivateKey a), hex_encode (ac_ProgramHash a)]\<rparr>, w)),
     DecryptAccount = (\<lambda>wd pw. case Split (wd_Secrets wd) of
        [a, b, c] \<Rightarrow> Ok \<lparr>ac_PublicKey = the (hex_decode a), ac_PrivateKey = the (hex_decode b), ac_ProgramHash = the (hex_decode c)\<rparr>
      | _ \<Rightarrow> Err ErrWrongPassword),
     DecryptMasterKey = (\<lambda>wd pw. Ok []), WalletData_VerifyPassword = (\<lambda>wd pw. Ok ()),
     WalletData_Marshal = (\<lambda>wd. if wd_Version wd = 2 then Ok (Join [hex_encode (wd_IV wd), hex_encode (wd_Address wd), hex_encode (wd_Secrets wd)]) else Err ErrWrongPassword),
     WalletData_Unmarshal = (\<lambda>b. case Split b of
        [iv, a, s] \<Rightarrow> Ok \<lparr>wd_Version = 2, wd_IV = the (hex_decode iv), wd_Address = the (hex_decode a), wd_Secrets = the (hex_decode s)\<rparr>
      | _ \<Rightarrow> Err ErrWrongPassword),
     WalletVersion = 2, MinCompatibleWalletVersion = 1, MaxCompatibleWalletVersion = 2,
     CreateSignatureProgramContext = (\<lambda>pk. Ok pk), SignBySigner = (\<lambda>tx a. Ok (tx_Payload tx)),
     NewProgram = (\<lambda>ct sig. ct @ sig)\<rparr>"

lemma split_three_hex [simp]:
  "Split (Join [hex_encode a, hex_encode b, hex_encode c]) = [hex_encode a, hex_encode b, hex_encode c]"
  by (rule Split_Join) (simp_all add: hex_encode_no_dot)

lemma demo_vault_laws: "vault_laws demo_vault"
  unfolding vault_laws_def by (auto simp: demo_vault_def hex_decode_encode simp del: Join.simps)

lemma demo_copier: "ignores_empty_wallet (copy_wallet_config demo_vault)"
  by (simp add: ignores_empty_wallet_def demo_vault_def)

definition demo_wallet_config :: wallet_config where
  "demo_wallet_config = GetDefaultWalletConfig\<lparr>wc_Password := ''secret''\<rparr>"

definition demo_wallet_data :: wallet_data where
  "demo_wallet_data = \<lparr>wd_Version = 2, wd_IV = [], wd_Address = ''NKNhash'',
     wd_Secrets = Join [hex_encode ''pk'', hex_encode ''sk'', hex_encode ''hash'']\<rparr>"

definition demo_wallet :: wallet where
  "demo_wallet = \<lparr>wa_config = GetDefaultWalletConfig, wa_account = demo_account, wa_address = ''NKNhash'',
     wa_walletData = Some demo_wallet_data\<rparr>"

definition demo_json :: string where
  "demo_json = Join [hex_encode [], hex_encode ''NKNhash'', hex_encode (wd_Secrets demo_wallet_data)]"

lemma demo_NewWallet: "NewWallet demo_vault demo_account (Some demo_wallet_config) () = (Ok demo_wallet, ())"
  by (simp add: NewWallet_def demo_vault_def MergeWalletConfig_def demo_wallet_config_def GetDefaultWalletConfig_def
    DefaultSeedRPCServerAddr_def encrypt_account_def demo_wallet_def demo_wallet_data_def demo_account_def erase_secrets_def
    Account_WalletAddress_def overlay_def bnd_def)

lemma demo_ToJSON: "Wallet_ToJSON demo_vault (demo_wallet, ()) = (Ok demo_json, (demo_wallet, ()))"
  by (simp add: Wallet_ToJSON_def Wallet_MarshalJSON_def getWalletData_def demo_wallet_def demo_vault_def demo_wallet_data_def
    demo_json_def bnd_def)

definition demo_tx_ext :: tx_ext where
  "demo_tx_ext =
    \<lparr>copy_transaction_config = (\<lambda>base c. Ok (overlay_transaction base c)),
     tx_StringToFixed64 = (\<lambda>s. Ok (of_nat (length s))), tx_CreateProgramHash = (\<lambda>pk. Ok pk), tx_ToScriptHash = (\<lambda>a. Ok a),
     MinNameRegistrationFee = 10,
     NewTransferAssetTransaction = (\<lambda>s r n a f. Ok \<lparr>tx_Payload = s @ r, tx_Nonce = n, tx_Fee = f, tx_Attributes = ''rnd'', tx_Programs = []\<rparr>),
     NewRegisterNameTransaction = (\<lambda>pk name n r f. Err ErrInvalidPubkey),
     NewTransferNameTransaction = (\<lambda>pk r name n f. Err ErrInvalidPubkey),
     NewDeleteNameTransaction = (\<lambda>pk name n f. Err ErrInvalidPubkey),
     NewSubscribeTransaction = (\<lambda>pk i t d m n f. Err ErrInvalidPubkey),
     NewUnsubscribeTransaction = (\<lambda>pk i t n f. Err ErrInvalidPubkey)\<rparr>"

definition demo_send_net :: "unit net_ext" where
  "demo_send_net = demo_net\<lparr>Json_Parse := \<lambda>b. Some (JObj [(''result'', JStr ''txhash'')])\<rparr>"

definition demo_fixed_nonce :: transaction_config where
  "demo_fixed_nonce = \<lparr>tc_Fee = ''1'', tc_Nonce = 5, tc_FixNonce = True, tc_Attributes = []\<rparr>"

section \<open>Properties\<close>

text \<open>
  C19: A wallet's JSON form recovers the wallet: \<^verbatim>\<open>WalletFromJSON\<close> with the password the wallet was created
  with, applied to what \<^verbatim>\<open>ToJSON\<close> returns, succeeds and gives a wallet with the same account and address.
\<close>

theorem wallet_json_roundtrip:
  assumes "vault_laws x" and "ignores_empty_wallet (copy_wallet_config x)"
    and "NewWallet x account conf w = (Ok wal, w1)"
    and "Wallet_ToJSON x (wal, w2) = (Ok j, (wal', w3))"
    and "given_password conf' = given_password conf"
  shows "\<exists>wal2. WalletFromJSON x j conf' w4 = (Ok wal2, w4) \<and>
     Wallet_Account wal2 = account \<and> Wallet_Address wal2 = Wallet_Address wal"
proof -
  have ks: "holds_keystore x (given_password conf) wal" using assms(1-3) by (rule NewWallet_keystore)
  have acc: "wa_account wal = account" and addr: "wa_address wal = Account_WalletAddress x account"
    using assms(3) by (auto elim!: NewWallet_OkE)
  from assms(4) obtain wd s where g: "getWalletData x (wal, w2) = (Ok wd, s)" and j: "WalletData_Marshal x wd = Ok j"
    by (auto simp: Wallet_ToJSON_def Wallet_MarshalJSON_def elim!: bnd_OkE)
  obtain wal1 v where "s = (wal1, v)" by fastforce
  with getWalletData_Ok [OF assms(1) ks] g have wd: "DecryptAccount x wd (given_password conf) = Ok account"
    "wd_Version wd = WalletVersion x" "ProgramHash_ToAddress x (ac_ProgramHash account) = Ok (wd_Address wd)"
    by (auto simp: acc)
  from assms(1) j have "WalletData_Unmarshal x j = Ok wd" unfolding vault_laws_def by blast
  moreover obtain m where "MergeWalletConfig (copy_wallet_config x) conf' = Ok m" and "wc_Password m = given_password conf"
    using merged_password [OF assms(2), of conf'] assms(5) by auto
  ultimately show ?thesis
    using wd assms(1) addr
    by (auto simp: WalletFromJSON_def vault_laws_def Wallet_Account_def Wallet_Address_def Account_WalletAddress_def)
qed

theorem wallet_json_roundtrip_witness:
  "\<exists>wal2. WalletFromJSON demo_vault demo_json (Some demo_wallet_config) () = (Ok wal2, ()) \<and>
     Wallet_Account wal2 = demo_account \<and> Wallet_Address wal2 = Wallet_Address demo_wallet"
  by (rule wallet_json_roundtrip [OF demo_vault_laws demo_copier demo_NewWallet demo_ToJSON]) (rule refl)

text \<open>
  C26: A wallet never keeps its secrets in its configuration: whichever way it was created, its password
  and its master key are erased. Its RPC settings are those of the merged configuration.
\<close>

theorem wallet_secrets_erased:
  assumes "NewWallet x account conf w = (Ok wal, w') \<or> WalletFromJSON x j conf w = (Ok wal, w')"
  shows "wc_Password (wa_config wal) = [] \<and> wc_MasterKey (wa_config wal) = []"
proof -
  have new: "wc_Password (wa_config wal) = [] \<and> wc_MasterKey (wa_config wal) = []"
    if "NewWallet x a c w = (Ok wal, w')" for a c
    using that by (rule NewWallet_OkE) simp
  from assms show ?thesis
  proof
    assume "WalletFromJSON x j conf w = (Ok wal, w')"
    then show ?thesis by (rule WalletFromJSON_OkE) (auto dest: new)
  qed (rule new)
qed

theorem wallet_secrets_erased_witness:
  "wc_Password demo_wallet_config = ''secret'' \<and> wc_Password (wa_config demo_wallet) = []"
  using wallet_secrets_erased [OF disjI1, OF demo_NewWallet] by (simp add: demo_wallet_config_def)

text \<open>
  A keystore is only accepted with the right key: when \<^verbatim>\<open>WalletFromJSON\<close> succeeds, the keystore has a
  supported version, the recovered account is what the given password decrypts, and its address is the
  one the keystore names.
\<close>

theorem WalletFromJSON_accepts:
  assumes "WalletFromJSON x j conf w = (Ok wal, w')"
  shows "\<exists>config wd. MergeWalletConfig (copy_wallet_config x) conf = Ok config \<and> WalletData_Unmarshal x j = Ok wd \<and>
     wd_Version wd \<in> {MinCompatibleWalletVersion x..MaxCompatibleWalletVersion x} \<and>
     DecryptAccount x wd (wc_Password config) = Ok (Wallet_Account wal) \<and>
     ProgramHash_ToAddress x (Wallet_ProgramHash wal) = Ok (wd_Address wd) \<and> Wallet_Address wal = wd_Address wd"
  using assms
proof (rule WalletFromJSON_OkE)
  fix config wd account
  assume *: "MergeWalletConfig (copy_wallet_config x) conf = Ok config" "WalletData_Unmarshal x j = Ok wd"
    "MinCompatibleWalletVersion x \<le> wd_Version wd" "wd_Version wd \<le> MaxCompatibleWalletVersion x"
    "DecryptAccount x wd (wc_Password config) = Ok account" "ProgramHash_ToAddress x (ac_ProgramHash account) = Ok (wd_Address wd)"
  assume "wal = \<lparr>wa_config = erase_secrets config, wa_account = account, wa_address = wd_Address wd, wa_walletData = Some wd\<rparr> \<or>
      (\<exists>iv mk. NewWallet x account (Some (config\<lparr>wc_IV := iv, wc_MasterKey := mk\<rparr>)) w = (Ok wal, w'))"
  with * have "wa_account wal = account" and "wa_address wal = wd_Address wd"
    by (auto simp: Account_WalletAddress_def elim!: NewWallet_OkE)
  with * show ?thesis by (auto simp: Wallet_Account_def Wallet_ProgramHash_def Wallet_Address_def)
qed

theorem WalletFromJSON_accepts_witness:
  "\<exists>config wd. MergeWalletConfig (copy_wallet_config demo_vault) (Some demo_wallet_config) = Ok config \<and>
     WalletData_Unmarshal demo_vault demo_json = Ok wd \<and> DecryptAccount demo_vault wd (wc_Password config) = Ok demo_account"
proof -
  have "WalletFromJSON demo_vault demo_json (Some demo_wallet_config) () = (Ok demo_wallet, ())"
    by (simp add: WalletFromJSON_def demo_vault_def MergeWalletConfig_def demo_wallet_config_def GetDefaultWalletConfig_def
      DefaultSeedRPCServerAddr_def demo_json_def hex_decode_encode demo_wallet_data_def demo_wallet_def demo_account_def
      overlay_def erase_secrets_def del: Join.simps hex_encode.simps)
  from WalletFromJSON_accepts [OF this] show ?thesis by (auto simp: Wallet_Account_def demo_wallet_def)
qed

text \<open>
  C37: What a transfer sends: when \<^verbatim>\<open>TransferContext\<close> of a wallet returns a hash, the node accepted a signed
  transaction, and everything in it but the signature is the transfer of the parsed amount from the
  wallet's own program hash to the recipient, with the configured fee and attributes and with the
  configured nonce, or, when none is fixed, the next nonce counting the transaction pool.
\<close>

theorem wallet_transfer_sent:
  assumes "Wallet_TransferContext x t net wal address amount conf w = (Ok h, w')"
  shows "\<exists>config sender recipient amt fee nonce tx sent w1.
     MergeTransactionConfig (copy_transaction_config t) conf = Ok config \<and>
     tx_CreateProgramHash t (Wallet_PubKey wal) = Ok sender \<and> tx_ToScriptHash t address = Ok recipient \<and>
     tx_StringToFixed64 t amount = Ok amt \<and> tx_StringToFixed64 t (tc_Fee config) = Ok fee \<and>
     (if tc_Nonce config = 0 \<and> \<not> tc_FixNonce config then Wallet_GetNonceContext net wal True w = (Ok nonce, w1)
      else nonce = tc_Nonce config \<and> w1 = w) \<and>
     NewTransferAssetTransaction t sender recipient nonce amt fee = Ok tx \<and>
     Wallet_SendRawTransactionContext net wal sent w1 = (Ok h, w') \<and> tx_Programs sent \<noteq> [] \<and>
     unsigned sent = unsigned (set_attributes config tx)"
proof -
  let ?s = "wallet_signer x net wal"
  from assms obtain config sender amt recipient where *:
    "MergeTransactionConfig (copy_transaction_config t) conf = Ok config"
    "tx_CreateProgramHash t (Wallet_PubKey wal) = Ok sender" "tx_ToScriptHash t address = Ok recipient"
    "tx_StringToFixed64 t amount = Ok amt"
    and s: "send_tx t ?s config (\<lambda>nonce fee. NewTransferAssetTransaction t sender recipient nonce amt fee) w = (Ok h, w')"
    by (auto simp: Wallet_TransferContext_def TransferContext_def wallet_signer_def elim!: bnd_OkE)
  from s show ?thesis
  proof (rule send_tx_OkE)
    fix fee nonce tx w1
    assume fee: "tx_StringToFixed64 t (tc_Fee config) = Ok fee" and n: "pick_nonce ?s config w = (Ok nonce, w1)"
      and b: "NewTransferAssetTransaction t sender recipient nonce amt fee = Ok tx"
      and "sign_and_send ?s config tx w1 = (Ok h, w')"
    then have "\<exists>sent. sr_SendRawTransaction ?s sent w1 = (Ok h, w') \<and> tx_Programs sent \<noteq> [] \<and>
        unsigned sent = unsigned (set_attributes config tx)"
      using wallet_signs.sign_and_send_sent [of ?s config tx w1 h w' x wal] by (simp add: wallet_signer_def)
    with * fee n b show ?thesis by (fastforce simp: wallet_signer_def pick_nonce_def split: if_splits)
  qed
qed

theorem wallet_transfer_sent_witness:
  "Wallet_TransferContext demo_vault demo_tx_ext demo_send_net demo_wallet ''NKNdest'' ''12'' (Some demo_fixed_nonce) ()
     = (Ok ''txhash'', ()) \<and> (\<exists>sent. Wallet_SendRawTransactionContext demo_send_net demo_wallet sent () = (Ok ''txhash'', ()) \<and>
     tx_Programs sent \<noteq> [] \<and> tx_Nonce sent = 5)"
proof -
  have t: "Wallet_TransferContext demo_vault demo_tx_ext demo_send_net demo_wallet ''NKNdest'' ''12'' (Some demo_fixed_nonce) ()
     = (Ok ''txhash'', ())"
    by (simp add: Wallet_TransferContext_def TransferContext_def demo_tx_ext_def demo_fixed_nonce_def wallet_signer_def
      MergeTransactionConfig_def overlay_transaction_def overlay_def GetDefaultTransactionConfig_def send_tx_def pick_nonce_def
      sign_and_send_def set_attributes_def Wallet_SignTransaction_def demo_vault_def Wallet_SendRawTransactionContext_def
      SendRawTransactionContext_def demo_send_net_def demo_net_def Wallet_rpc_def WalletConfig_RPC_def demo_wallet_def
      GetDefaultWalletConfig_def DefaultSeedRPCServerAddr_def RPCCall_def httpPost_def bnd_def attempt_def handle_body_def
      dec_rpcResp_def at_field_def key_eq_def lower_char_def rpc_outcome_def)
  from wallet_transfer_sent [OF t] show ?thesis
    using t by (auto simp: demo_tx_ext_def demo_fixed_nonce_def MergeTransactionConfig_def overlay_transaction_def overlay_def
      unsigned_def set_attributes_def)
qed

end
