(* ===== verification/Nkn_Random.thy ===== *)
theory Nkn_Random
  imports Nkn_Errors
begin

text \<open>
  The random numbers of \<^verbatim>\<open>src/util.go\<close>, \<^verbatim>\<open>randUint32\<close> and \<^verbatim>\<open>randUint64\<close>, which ask the system's source until it answers.
  The source, \<^verbatim>\<open>rand.Int\<close> of \<^verbatim>\<open>crypto/rand\<close>, is a parameter: given a bound it returns a number below it or an error.
  Both loops are partial functions; they return exactly if the source answers at some time.
\<close>

section \<open>The loops\<close>

type_synonym 'w rand_int = "int \<Rightarrow> ('w, err, int) act"

partial_function (option) rand_retry :: "('w, err, int) act \<Rightarrow> 'w \<Rightarrow> (int result \<times> 'w) option" where
  "rand_retry ask w =
     (case ask w of
        (Err e, w') \<Rightarrow> rand_retry ask w'
      | (Ok r, w') \<Rightarrow> Some (Ok r, w')
      | (Panic p, w') \<Rightarrow> Some (Panic p, w'))"

definition randUint32 :: "'w rand_int \<Rightarrow> 'w \<Rightarrow> (uint32 result \<times> 'w) option" where
  "randUint32 randInt w =
     (let m = 4294967296 in
      case rand_retry (randInt m) w of
        None \<Rightarrow> None
      | Some (result, w') \<Rightarrow> Some (and_then result (\<lambda>r. Ok (ucast (word_of_int r :: uint64))), w'))"

definition randUint64 :: "'w rand_int \<Rightarrow> 'w \<Rightarrow> (uint64 result \<times> 'w) option" where
  "randUint64 randInt w =
     (let m = uint (18446744073709551615 :: uint64) + 1 in
      case rand_retry (randInt m) w of
        None \<Rightarrow> None
      | Some (result, w') \<Rightarrow> Some (and_then result (\<lambda>r. Ok (word_of_int r)), w'))"

text \<open>What \<^verbatim>\<open>rand.Int\<close> promises: a number below the bound.\<close>

definition rand_int_laws :: "'w rand_int \<Rightarrow> bool" where
  "rand_int_laws randInt \<longleftrightarrow> (\<forall>m w r w'. 0 < m \<longrightarrow> randInt m w = (Ok r, w') \<longrightarrow> 0 \<le> r \<and> r < m)"

lemma rand_int_below: "rand_int_laws randInt \<Longrightarrow> 0 < m \<Longrightarrow> randInt m w = (Ok r, w') \<Longrightarrow> 0 \<le> r \<and> r < m"
  unfolding rand_int_laws_def by blast

section \<open>When they return\<close>

text \<open>The state after \<open>n\<close> requests that failed.\<close>

fun after_failures :: "('w, err, int) act \<Rightarrow> nat \<Rightarrow> 'w \<Rightarrow> 'w option" where
  "after_failures ask 0 w = Some w"
| "after_failures ask (Suc n) w = (case ask w of (Err e, w') \<Rightarrow> after_failures ask n w' | _ \<Rightarrow> None)"

lemma rand_retry_finds:
  "after_failures ask n w = Some v \<Longrightarrow> ask v = (Ok r, v') \<Longrightarrow> rand_retry ask w = Some (Ok r, v')"
proof (induction ask n w rule: after_failures.induct)
  case (1 ask w)
  then show ?case by (subst rand_retry.simps) simp
next
  case (2 ask n w)
  then show ?case by (subst rand_retry.simps) (auto split: prod.splits res.splits)
qed

definition answered :: "('w, err, int) act \<Rightarrow> 'w \<Rightarrow> int result \<times> 'w \<Rightarrow> bool" where
  "answered ask w y \<longleftrightarrow> (\<exists>n v. after_failures ask n w = Some v \<and> ask v = y \<and> (\<nexists>e. fst y = Err e))"

lemma rand_retry_returns:
  assumes "rand_retry ask w = Some y"
  shows "answered ask w y"
proof -
  have step: "answered ask w y" if ih: "\<And>ask w y. f ask w = Some y \<Longrightarrow> answered ask w y"
    and body: "(case ask w of (Ok r, w') \<Rightarrow> Some (Ok r, w') | (Err e, w') \<Rightarrow> f ask w' | (Panic p, w') \<Rightarrow> Some (Panic p, w')) = Some y"
    for f ask and w :: 'a and y
  proof -
    obtain q w' where q: "ask w = (q, w')" by (cases "ask w")
    show ?thesis
    proof (cases q)
      case (Err e)
      with ih [of ask w' y] body q obtain n v where "after_failures ask n w' = Some v" "ask v = y" "\<nexists>e. fst y = Err e"
        by (auto simp: answered_def)
      with q Err show ?thesis unfolding answered_def by (intro exI [of _ "Suc n"] exI [of _ v]) simp
    qed (use body q in \<open>auto simp: answered_def intro!: exI [of _ 0]\<close>)
  qed
  show ?thesis by (rule rand_retry.raw_induct [OF _ assms]) (rule step)
qed

text \<open>Without an answer the loop goes on, and only then.\<close>

lemma after_failures_stop:
  "after_failures ask n w = Some v \<Longrightarrow> \<nexists>e. fst (ask v) = Err e \<Longrightarrow> after_failures ask (Suc n) w = None"
proof (induction ask n w rule: after_failures.induct)
  case (1 ask w)
  then show ?case by (cases "ask w"; cases "fst (ask w)") auto
next
  case (2 ask n w)
  obtain q w' where q: "ask w = (q, w')" by (cases "ask w")
  with 2 show ?case by (cases q) auto
qed

lemma rand_retry_None: "rand_retry ask w = None \<longleftrightarrow> (\<forall>n. after_failures ask n w \<noteq> None)"
proof
  show "\<forall>n. after_failures ask n w \<noteq> None" if "rand_retry ask w = None"
  proof
    show "after_failures ask n w \<noteq> None" for n using that
    proof (induction n arbitrary: w)
      case (Suc n)
      then show ?case by (cases "ask w"; cases "fst (ask w)") (auto simp: rand_retry.simps [of ask w])
    qed simp
  qed
  show "rand_retry ask w = None" if "\<forall>n. after_failures ask n w \<noteq> None"
  proof (rule ccontr)
    assume "rand_retry ask w \<noteq> None"
    then obtain y where "rand_retry ask w = Some y" by blast
    from rand_retry_returns [OF this] obtain n v where "after_failures ask n w = Some v" "\<nexists>e. fst (ask v) = Err e" by (auto simp: answered_def)
    from after_failures_stop [OF this] that show False by blast
  qed
qed

section \<open>Properties\<close>

text \<open>
  \<^verbatim>\<open>randUint32\<close> and \<^verbatim>\<open>randUint64\<close> return the first number that the source gives, unchanged, so that no number is
  more likely than in the source: if the source fails \<open>n\<close> times and then returns a number below the bound asked for, the
  result is that number; they do not return exactly if every request fails.
\<close>

theorem rand_uint_first_answer:
  assumes "rand_int_laws randInt"
  shows "(\<forall>n v r v'. after_failures (randInt (2 ^ 32)) n w = Some v \<and> randInt (2 ^ 32) v = (Ok r, v') \<longrightarrow>
        (\<exists>u. randUint32 randInt w = Some (Ok u, v') \<and> uint u = r)) \<and>
     (\<forall>n v r v'. after_failures (randInt (2 ^ 64)) n w = Some v \<and> randInt (2 ^ 64) v = (Ok r, v') \<longrightarrow>
        (\<exists>u. randUint64 randInt w = Some (Ok u, v') \<and> uint u = r)) \<and>
     (randUint32 randInt w = None \<longleftrightarrow> (\<forall>n. after_failures (randInt (2 ^ 32)) n w \<noteq> None)) \<and>
     (randUint64 randInt w = None \<longleftrightarrow> (\<forall>n. after_failures (randInt (2 ^ 64)) n w \<noteq> None))"
proof -
  have u32: "uint (ucast (word_of_int r :: uint64) :: uint32) = r" if "0 \<le> r" "r < 2 ^ 32" for r
    using that by (simp add: unsigned_ucast_eq unsigned_of_int take_bit_int_eq_self)
  have u64: "uint (word_of_int r :: uint64) = r" if "0 \<le> r" "r < 2 ^ 64" for r
    using that by (simp add: unsigned_of_int take_bit_int_eq_self)
  have "\<exists>u. randUint32 randInt w = Some (Ok u, v') \<and> uint u = r"
    if "after_failures (randInt (2 ^ 32)) n w = Some v" "randInt (2 ^ 32) v = (Ok r, v')" for n v r v'
    using rand_retry_finds [OF that] rand_int_below [OF assms _ that(2)] u32 by (simp add: randUint32_def)
  moreover have "\<exists>u. randUint64 randInt w = Some (Ok u, v') \<and> uint u = r"
    if "after_failures (randInt (2 ^ 64)) n w = Some v" "randInt (2 ^ 64) v = (Ok r, v')" for n v r v'
    using rand_retry_finds [OF that] rand_int_below [OF assms _ that(2)] u64 by (simp add: randUint64_def)
  moreover have "randUint32 randInt w = None \<longleftrightarrow> (\<forall>n. after_failures (randInt (2 ^ 32)) n w \<noteq> None)"
    unfolding rand_retry_None [symmetric] by (auto simp: randUint32_def split: option.splits)
  moreover have "randUint64 randInt w = None \<longleftrightarrow> (\<forall>n. after_failures (randInt (2 ^ 64)) n w \<noteq> None)"
    unfolding rand_retry_None [symmetric] by (auto simp: randUint64_def split: option.splits)
  ultimately show ?thesis by blast
qed

text \<open>A source that fails as often as its state says and then gives seven.\<close>

definition late_source :: "nat rand_int" where
  "late_source m w = (if 0 < w then (Err (ExternalError ''no entropy''), w - 1) else (Ok (min 7 (m - 1)), w))"

theorem rand_uint_first_answer_witness:
  "\<exists>u. randUint32 late_source 2 = Some (Ok u, 0) \<and> uint u = 7"
proof -
  have l: "rand_int_laws late_source" by (auto simp: rand_int_laws_def late_source_def split: if_splits)
  have "after_failures (late_source (2 ^ 32)) 2 2 = Some 0" "late_source (2 ^ 32) 0 = (Ok 7, 0)"
    by (simp_all add: late_source_def numeral_2_eq_2)
  with rand_uint_first_answer [of late_source 2, OF l] show ?thesis by blast
qed

end
