(* ===== verification/Nkn_Client.thy ===== *)
theory Nkn_Client
  imports Nkn_Wallet Nkn_Message Nkn_Address Nkn_Resolver
begin

text \<open>
  The state of a client (\<^verbatim>\<open>Client\<close> of \<^verbatim>\<open>src/client.go\<close>), the parameters its operations use, and the
  operations on shared keys: \<^verbatim>\<open>getOrComputeSharedKey\<close>, \<^verbatim>\<open>encryptPayload\<close>, \<^verbatim>\<open>decryptPayload\<close>.

  A connection, a WebRTC peer and a resolver are identified by numbers. The cache of reply channels
  belongs to a third-party package and lives in the environment; it maps a message id to the index of
  a reply channel, and the channels themselves are the list \<open>cl_replyChans\<close>, because the channel in the
  cache is the one \<^verbatim>\<open>Send\<close> has returned. The unbuffered channel of reconnect requests is described by
  whether its reader waits, what was handed to it, and whether it is closed. A goroutine that an
  operation starts is a task in \<open>cl_tasks\<close>. An operation is an action over the client and the
  environment that runs from its call to its return; the fields that the code reads outside of the
  lock are read at that moment.
\<close>

section \<open>State\<close>

type_synonym conn = nat

text \<open>A \<^verbatim>\<open>time.Duration\<close> in nanoseconds, and the conversion of a configured number of milliseconds.\<close>

type_synonym duration = int

definition millis :: "int32 \<Rightarrow> duration" where "millis n = sint n * 1000000"

definition ConnConnecting :: int32 where "ConnConnecting = 0"
definition ConnConnected :: int32 where "ConnConnected = 1"
definition ConnDisconnected :: int32 where "ConnDisconnected = 2"

lemmas ConnState_defs = ConnConnecting_def ConnConnected_def ConnDisconnected_def

record client_stats =
  cs_ConnectTime :: int64
  cs_ReconnectCount :: int
  cs_LastReconnect :: int64
  cs_SendFailureCount :: int

definition zero_stats :: client_stats where
  "zero_stats = \<lparr>cs_ConnectTime = 0, cs_ReconnectCount = 0, cs_LastReconnect = 0, cs_SendFailureCount = 0\<rparr>"

record salt_and_signature =
  ss_ClientSalt :: bytes
  ss_Signature :: bytes

record reconnect_chan =
  rq_Waiting :: bool
  rq_Handed :: "node option option"
  rq_Closed :: bool

datatype task =
    TReconnect "node option"
  | TSendReceipt bytes
  | TPing conn
  | TSetClient conn
  | TRead conn

record client =
  cl_OnConnect :: "node option on_event"
  cl_OnMessage :: "message on_event"
  cl_OnMessageEvent :: "message_event on_event option"
  cl_config :: client_config
  cl_account :: account
  cl_publicKey :: bytes
  cl_curveSecretKey :: bytes
  cl_address :: string
  cl_addressID :: bytes
  cl_sigChainBlockHash :: string
  cl_reconnectChan :: reconnect_chan
  cl_resolvers :: "nat list"
  cl_isClosed :: bool
  cl_conn :: "conn option"
  cl_node :: "node option"
  cl_sharedKeys :: "bytes \<rightharpoonup> bytes"
  cl_wallet :: wallet
  cl_chChallengeSignature :: "salt_and_signature chan"
  cl_peer :: "nat option"
  cl_State :: int32
  cl_Stats :: "client_stats option"
  cl_replyChans :: "message on_event list"
  cl_tasks :: "task list"

section \<open>Parameters\<close>

text \<open>
  The protobuf messages of the node's package, as far as the client reads or fills them.
\<close>

datatype client_message_type = OUTBOUND_MESSAGE | INBOUND_MESSAGE | RECEIPT | OTHER_MESSAGE

record client_message =
  cm_MessageType :: client_message_type
  cm_Message :: bytes
  cm_Zlib :: bool

record inbound_message =
  im_Src :: string
  im_Payload :: bytes
  im_PrevHash :: bytes

record outbound_message =
  om_Dests :: "string list"
  om_Payloads :: "bytes list"
  om_MaxHoldingSeconds :: uint32
  om_Nonce :: uint32
  om_BlockHash :: bytes
  om_Signatures :: "bytes list"

record sig_chain =
  sg_Nonce :: uint32
  sg_DataSize :: uint32
  sg_BlockHash :: bytes
  sg_SrcId :: bytes
  sg_SrcPubkey :: bytes
  sg_DestId :: bytes
  sg_DestPubkey :: bytes
  sg_NextPubkey :: bytes

record pb_ext =
  MarshalOutbound :: "outbound_message \<Rightarrow> bytes result"
  MarshalClientMessage :: "client_message \<Rightarrow> bytes result"
  UnmarshalClientMessage :: "bytes \<Rightarrow> client_message result"
  UnmarshalInbound :: "bytes \<Rightarrow> inbound_message result"
  MarshalReceipt :: "bytes \<times> bytes \<Rightarrow> bytes result"
  SerializationUnsigned :: "bytes \<Rightarrow> bytes result"
  SerializationMetadata :: "sig_chain \<Rightarrow> bytes result"
  zlib_compress :: "bytes \<Rightarrow> bytes result"

record 'w client_ext =
  cx_net :: "'w net_ext"
  cx_vault :: "'w vault_ext"
  cx_box :: box_ext
  cx_proto :: proto_ext
  cx_pb :: pb_ext
  cx_rand :: "'w rand"
  cx_randUint32 :: "'w \<Rightarrow> uint32 \<times> 'w"
  cx_now :: "'w \<Rightarrow> int64 \<times> 'w"
  cx_Sleep :: "int32 \<Rightarrow> 'w \<Rightarrow> unit \<times> 'w"
  cx_resolver :: "nat \<Rightarrow> 'w resolver"
  copy_client_config :: "client_config copier"
  copy_message_config :: "message_config copier"
  ParseClientAddress :: "string \<Rightarrow> (bytes \<times> bytes \<times> string) result"
  MakeAddressString :: "bytes \<Rightarrow> string \<Rightarrow> string"
  PrivateKeyToCurve25519PrivateKey :: "bytes \<Rightarrow> bytes"
  Sha256 :: "bytes \<Rightarrow> bytes"
  crypto_Sign :: "bytes \<Rightarrow> bytes \<Rightarrow> bytes result"
  Ws_Dial :: "string \<Rightarrow> int32 \<Rightarrow> dial_fn option \<Rightarrow> ('w, err, conn) act"
  Conn_Close :: "conn \<Rightarrow> ('w, err, unit) act"
  Conn_WriteMessage :: "conn \<Rightarrow> bytes \<Rightarrow> duration \<Rightarrow> ('w, err, unit) act"
  Conn_WriteJSON :: "conn \<Rightarrow> json \<Rightarrow> ('w, err, unit) act"
  Conn_SetWriteDeadline :: "conn \<Rightarrow> int64 \<Rightarrow> ('w, err, unit) act"
  Conn_Ping :: "conn \<Rightarrow> ('w, err, unit) act"
  WebRTC_NewPeer :: "string list \<Rightarrow> 'w \<Rightarrow> nat option \<times> 'w"
  WebRTC_Offer :: "nat \<Rightarrow> string \<Rightarrow> ('w, err, unit) act"
  WebRTC_Sdp :: "nat \<Rightarrow> int32 \<Rightarrow> 'w \<Rightarrow> string option \<times> 'w"
  WebRTC_Connected :: "nat \<Rightarrow> string \<Rightarrow> int32 \<Rightarrow> 'w \<Rightarrow> conn option \<times> 'w"
  Cache_Get :: "bytes \<Rightarrow> 'w \<Rightarrow> nat option \<times> 'w"
  Cache_Delete :: "bytes \<Rightarrow> 'w \<Rightarrow> unit \<times> 'w"
  Cache_Add :: "bytes \<Rightarrow> nat \<Rightarrow> 'w \<Rightarrow> bool \<times> 'w"
  PersistFinished :: string
  dec_ErrCode :: "int decoder"
  ErrCode_SUCCESS :: int
  ErrCode_WRONG_NODE :: int
  ErrCode_Message :: "int \<Rightarrow> string"

text \<open>An operation of the client.\<close>

type_synonym ('w, 'a) client_act = "(client \<times> 'w, err, 'a) act"

text \<open>\<^verbatim>\<open>ed25519.PublicKeySize\<close>, \<^verbatim>\<open>ed25519.SignatureSize\<close>.\<close>

definition PublicKeySize :: nat where "PublicKeySize = 32"
definition SignatureSize :: nat where "SignatureSize = 64"

section \<open>Shared keys\<close>

definition getOrComputeSharedKey :: "'w client_ext \<Rightarrow> bytes \<Rightarrow> ('w, bytes) client_act" where
  "getOrComputeSharedKey x remotePublicKey =
     bnd (obj (\<lambda>c. c)) (\<lambda>c.
       case cl_sharedKeys c remotePublicKey of
         Some sharedKey \<Rightarrow> ret sharedKey
       | None \<Rightarrow>
           if length remotePublicKey \<noteq> PublicKeySize then throw ErrInvalidPubkeySize
           else (case PublicKeyToCurve25519PublicKey (cx_box x) (copy_array PublicKeySize remotePublicKey) of
                   None \<Rightarrow> throw ErrInvalidPubkey
                 | Some curve25519PublicKey \<Rightarrow>
                     (let sharedKey = Precompute (cx_box x) curve25519PublicKey (cl_curveSecretKey c)
                      in bnd (upd (\<lambda>c. c\<lparr>cl_sharedKeys := (cl_sharedKeys c)(remotePublicKey \<mapsto> sharedKey)\<rparr>)) (\<lambda>_.
                         ret sharedKey))))"

definition dest_pubkey :: "'w client_ext \<Rightarrow> string \<Rightarrow> bytes result" where
  "dest_pubkey x dest = and_then (ParseClientAddress x dest) (\<lambda>(_, pubkey, _). Ok pubkey)"

text \<open>The steps that both branches of \<^verbatim>\<open>encryptPayload\<close> take for one destination: its key, and a sealed box for it.\<close>

definition seal_for :: "'w client_ext \<Rightarrow> string \<Rightarrow> bytes \<Rightarrow> ('w, bytes \<times> bytes) client_act" where
  "seal_for x dest m =
     bnd (of_res (dest_pubkey x dest)) (\<lambda>destPubkey.
     bnd (getOrComputeSharedKey x destPubkey) (\<lambda>sharedKey.
     env (encrypt (cx_box x) (cx_rand x) m sharedKey)))"

text \<open>The loop over the destinations of a message for more than one: the message key is sealed for each.\<close>

fun encrypt_keys :: "'w client_ext \<Rightarrow> bytes \<Rightarrow> bytes \<Rightarrow> bytes \<Rightarrow> string list \<Rightarrow> ('w, bytes list) client_act" where
  "encrypt_keys x key encrypted msgNonce [] = ret []"
| "encrypt_keys x key encrypted msgNonce (dest # dests) =
     bnd (seal_for x dest key) (\<lambda>(encryptedKey, keyNonce).
     bnd (of_res (MarshalMessage (cx_proto x)
            \<lparr>wm_Payload = encrypted, wm_Encrypted = True, wm_Nonce = keyNonce @ msgNonce, wm_EncryptedKey = encryptedKey\<rparr>)) (\<lambda>msg.
     bnd (encrypt_keys x key encrypted msgNonce dests) (\<lambda>msgs.
     ret (msg # msgs))))"

definition encryptPayload :: "'w client_ext \<Rightarrow> payload \<Rightarrow> string list \<Rightarrow> ('w, bytes list) client_act" where
  "encryptPayload x msg dests =
     bnd (of_res (MarshalPayload (cx_proto x) msg)) (\<lambda>rawPayload.
       if length dests > 1
       then bnd (env (cx_rand x sharedKeySize)) (\<lambda>key.
            bnd (env (encrypt (cx_box x) (cx_rand x) rawPayload key)) (\<lambda>(encrypted, msgNonce).
            encrypt_keys x key encrypted msgNonce dests))
       else (case dests of
               [] \<Rightarrow> crash IndexOutOfRange
             | dest # _ \<Rightarrow>
                 bnd (seal_for x dest rawPayload) (\<lambda>(encrypted, nonce).
                 bnd (of_res (MarshalMessage (cx_proto x)
                        \<lparr>wm_Payload = encrypted, wm_Encrypted = True, wm_Nonce = nonce, wm_EncryptedKey = []\<rparr>)) (\<lambda>data.
                 ret [data]))))"

definition decryptPayload :: "'w client_ext \<Rightarrow> wire_message \<Rightarrow> string \<Rightarrow> ('w, bytes) client_act" where
  "decryptPayload x msg srcAddr =
     bnd (of_res (dest_pubkey x srcAddr)) (\<lambda>srcPubkey.
       if length (wm_EncryptedKey msg) > 0
       then if length (wm_Nonce msg) < nonceSize then crash SliceOutOfRange
            else bnd (getOrComputeSharedKey x srcPubkey) (\<lambda>sharedKey.
                 bnd (of_res (decrypt (cx_box x) (wm_EncryptedKey msg) (copy_array nonceSize (take nonceSize (wm_Nonce msg))) sharedKey))
                   (\<lambda>decryptedKeySlice.
                 of_res (decrypt (cx_box x) (wm_Payload msg) (copy_array nonceSize (drop nonceSize (wm_Nonce msg)))
                   (copy_array sharedKeySize decryptedKeySlice))))
       else bnd (getOrComputeSharedKey x srcPubkey) (\<lambda>sharedKey.
            of_res (decrypt (cx_box x) (wm_Payload msg) (copy_array nonceSize (wm_Nonce msg)) sharedKey)))"

section \<open>The cache of shared keys\<close>

text \<open>
  The reference: the shared key as a function of the client's secret key and the remote public key. The
  cache is coherent if every entry is the reference value.
\<close>

definition shared_key :: "'w client_ext \<Rightarrow> bytes \<Rightarrow> bytes \<Rightarrow> bytes result" where
  "shared_key x secret pk =
     (if length pk \<noteq> PublicKeySize then Err ErrInvalidPubkeySize
      else (case PublicKeyToCurve25519PublicKey (cx_box x) pk of
              None \<Rightarrow> Err ErrInvalidPubkey
            | Some cpk \<Rightarrow> Ok (Precompute (cx_box x) cpk secret)))"

definition keys_coherent :: "'w client_ext \<Rightarrow> client \<Rightarrow> bool" where
  "keys_coherent x c \<longleftrightarrow> (\<forall>pk k. cl_sharedKeys c pk = Some k \<longrightarrow> shared_key x (cl_curveSecretKey c) pk = Ok k)"

lemma getOrComputeSharedKey_eq:
  assumes "keys_coherent x c"
  shows "getOrComputeSharedKey x pk (c, w) =
     (case shared_key x (cl_curveSecretKey c) pk of
        Ok k \<Rightarrow> (Ok k, (c\<lparr>cl_sharedKeys := (cl_sharedKeys c)(pk \<mapsto> k)\<rparr>, w))
      | Err e \<Rightarrow> (Err e, (c, w))
      | Panic p \<Rightarrow> (Panic p, (c, w)))"
proof (cases "cl_sharedKeys c pk")
  case (Some k)
  with assms have "shared_key x (cl_curveSecretKey c) pk = Ok k" by (auto simp: keys_coherent_def)
  moreover from Some have "(cl_sharedKeys c)(pk \<mapsto> k) = cl_sharedKeys c" by auto
  ultimately show ?thesis using Some by (simp add: getOrComputeSharedKey_def)
next
  case None
  then show ?thesis by (auto simp: getOrComputeSharedKey_def shared_key_def Let_def split: option.splits)
qed

lemma keys_coherent_update:
  assumes "keys_coherent x c" and "shared_key x (cl_curveSecretKey c) pk = Ok k"
  shows "keys_coherent x (c\<lparr>cl_sharedKeys := (cl_sharedKeys c)(pk \<mapsto> k)\<rparr>)"
  using assms by (auto simp: keys_coherent_def)

text \<open>\<open>same_but_keys c c'\<close>: the clients differ at most in their caches of shared keys, both coherent.\<close>

definition same_but_keys :: "'w client_ext \<Rightarrow> client \<Rightarrow> client \<Rightarrow> bool" where
  "same_but_keys x c c' \<longleftrightarrow> (\<exists>m. c' = c\<lparr>cl_sharedKeys := m\<rparr>) \<and> keys_coherent x c'"

lemma same_but_keys_refl: "keys_coherent x c \<Longrightarrow> same_but_keys x c c"
  unfolding same_but_keys_def by (intro conjI exI [of _ "cl_sharedKeys c"]) simp_all

lemma same_but_keys_trans: "same_but_keys x c c' \<Longrightarrow> same_but_keys x c' c'' \<Longrightarrow> same_but_keys x c c''"
  unfolding same_but_keys_def by auto

lemma same_but_keys_coherent: "same_but_keys x c c' \<Longrightarrow> keys_coherent x c'"
  and same_but_keys_secret: "same_but_keys x c c' \<Longrightarrow> cl_curveSecretKey c' = cl_curveSecretKey c"
  by (auto simp: same_but_keys_def)

lemma getOrComputeSharedKey_same:
  assumes "keys_coherent x c" and "getOrComputeSharedKey x pk (c, w) = (r, s)"
  shows "\<exists>c'. s = (c', w) \<and> same_but_keys x c c' \<and> r = shared_key x (cl_curveSecretKey c) pk"
proof (cases "shared_key x (cl_curveSecretKey c) pk")
  case (Ok k)
  have "same_but_keys x c (c\<lparr>cl_sharedKeys := (cl_sharedKeys c)(pk \<mapsto> k)\<rparr>)"
    using keys_coherent_update [OF assms(1) Ok] by (auto simp: same_but_keys_def)
  with Ok assms(2) getOrComputeSharedKey_eq [OF assms(1), of pk w] show ?thesis by auto
qed (use assms getOrComputeSharedKey_eq [OF assms(1), of pk w] in \<open>auto simp: same_but_keys_refl\<close>)

section \<open>What is sealed\<close>

text \<open>The wire message for one of several destinations, and for a single one.\<close>

definition sealed_one :: "'w client_ext \<Rightarrow> bytes \<Rightarrow> bytes \<Rightarrow> string \<Rightarrow> bytes \<Rightarrow> bool" where
  "sealed_one x secret raw dest msg \<longleftrightarrow> (\<exists>pk k n. dest_pubkey x dest = Ok pk \<and> shared_key x secret pk = Ok k \<and>
     length n = nonceSize \<and> MarshalMessage (cx_proto x)
       \<lparr>wm_Payload = SealAfterPrecomputation (cx_box x) raw n k, wm_Encrypted = True, wm_Nonce = n, wm_EncryptedKey = []\<rparr> = Ok msg)"

definition sealed_many :: "'w client_ext \<Rightarrow> bytes \<Rightarrow> bytes \<Rightarrow> bytes \<Rightarrow> bytes \<Rightarrow> string \<Rightarrow> bytes \<Rightarrow> bool" where
  "sealed_many x secret raw key mn dest msg \<longleftrightarrow> (\<exists>pk k n. dest_pubkey x dest = Ok pk \<and> shared_key x secret pk = Ok k \<and>
     length n = nonceSize \<and> MarshalMessage (cx_proto x)
       \<lparr>wm_Payload = SealAfterPrecomputation (cx_box x) raw mn key, wm_Encrypted = True, wm_Nonce = n @ mn,
        wm_EncryptedKey = SealAfterPrecomputation (cx_box x) key n k\<rparr> = Ok msg)"

lemma encrypt_env_OkE:
  assumes "box_laws (cx_box x)" and "rand_laws (cx_rand x)"
    and "env (encrypt (cx_box x) (cx_rand x) m k) (c, w) = (Ok en, s)"
  obtains n w' where "en = (SealAfterPrecomputation (cx_box x) m n k, n)" and "length n = nonceSize" and "s = (c, w')"
proof -
  obtain e n where en: "en = (e, n)" by fastforce
  from assms(3) obtain w' where enc: "encrypt (cx_box x) (cx_rand x) m k w = (Ok (e, n), w')" and s: "s = (c, w')"
    unfolding en by (rule env_OkE)
  from encrypt_Ok(1) [OF assms(1) enc] en s rand_length [OF assms(2) encrypt_Ok(2) [OF assms(1) enc]]
  show thesis by (intro that) simp_all
qed

lemma seal_for_OkE:
  assumes "box_laws (cx_box x)" and "rand_laws (cx_rand x)" and "keys_coherent x c"
    and "seal_for x dest m (c, w) = (Ok en, s)"
  obtains pk k n c' w' where "dest_pubkey x dest = Ok pk" and "shared_key x (cl_curveSecretKey c) pk = Ok k"
    and "en = (SealAfterPrecomputation (cx_box x) m n k, n)" and "length n = nonceSize"
    and "s = (c', w')" and "same_but_keys x c c'"
proof -
  from assms(4) obtain pk where pk: "dest_pubkey x dest = Ok pk"
    and r: "bnd (getOrComputeSharedKey x pk) (\<lambda>k. env (encrypt (cx_box x) (cx_rand x) m k)) (c, w) = (Ok en, s)"
    unfolding seal_for_def by (rule bnd_OkE) simp
  from r obtain k s1 where g: "getOrComputeSharedKey x pk (c, w) = (Ok k, s1)"
    and e: "env (encrypt (cx_box x) (cx_rand x) m k) s1 = (Ok en, s)" by (rule bnd_OkE)
  from getOrComputeSharedKey_same [OF assms(3) g] obtain c' where s1: "s1 = (c', w)"
    and same: "same_but_keys x c c'" and k: "shared_key x (cl_curveSecretKey c) pk = Ok k" by auto
  from e show thesis unfolding s1
    by (rule encrypt_env_OkE [OF assms(1,2)]) (use that pk k same in blast)
qed

lemma encrypt_keys_sealed:
  assumes "box_laws (cx_box x)" and "rand_laws (cx_rand x)" and "keys_coherent x c"
    and "encrypt_keys x key (SealAfterPrecomputation (cx_box x) raw mn key) mn dests (c, w) = (Ok msgs, s)"
  shows "list_all2 (sealed_many x (cl_curveSecretKey c) raw key mn) dests msgs \<and> same_but_keys x c (fst s)"
  using assms(3,4)
proof (induction dests arbitrary: c w msgs)
  case Nil
  then show ?case by (auto simp: same_but_keys_refl)
next
  case (Cons d ds)
  let ?enc = "SealAfterPrecomputation (cx_box x) raw mn key"
  let ?rest = "\<lambda>(ek, n). bnd (of_res (MarshalMessage (cx_proto x)
        \<lparr>wm_Payload = ?enc, wm_Encrypted = True, wm_Nonce = n @ mn, wm_EncryptedKey = ek\<rparr>)) (\<lambda>msg.
     bnd (encrypt_keys x key ?enc mn ds) (\<lambda>msgs. ret (msg # msgs)))"
  from Cons.prems(2) obtain en s1 where sf: "seal_for x d key (c, w) = (Ok en, s1)"
    and r: "?rest en s1 = (Ok msgs, s)"
    unfolding encrypt_keys.simps by (rule bnd_OkE)
  from seal_for_OkE [OF assms(1,2) Cons.prems(1) sf] obtain pk k n c1 w1 where
    pk: "dest_pubkey x d = Ok pk" and k: "shared_key x (cl_curveSecretKey c) pk = Ok k"
    and en: "en = (SealAfterPrecomputation (cx_box x) key n k, n)" and n: "length n = nonceSize"
    and s1: "s1 = (c1, w1)" and same: "same_but_keys x c c1" .
  from r obtain msg rest where m: "MarshalMessage (cx_proto x)
        \<lparr>wm_Payload = ?enc, wm_Encrypted = True, wm_Nonce = n @ mn,
         wm_EncryptedKey = SealAfterPrecomputation (cx_box x) key n k\<rparr> = Ok msg"
    and rest: "encrypt_keys x key ?enc mn ds (c1, w1) = (Ok rest, s)" and msgs: "msgs = msg # rest"
    unfolding en s1 prod.case by (auto elim!: bnd_OkE)
  from Cons.IH [OF same_but_keys_coherent [OF same] rest]
  have "list_all2 (sealed_many x (cl_curveSecretKey c) raw key mn) ds rest" and "same_but_keys x c1 (fst s)"
    using same_but_keys_secret [OF same] by simp_all
  moreover have "sealed_many x (cl_curveSecretKey c) raw key mn d msg"
    using pk k n m unfolding sealed_many_def by blast
  ultimately show ?case using same msgs by (auto intro: same_but_keys_trans)
qed

text \<open>What a successful encryption is, for one destination and for several.\<close>

definition sealed_all :: "'w client_ext \<Rightarrow> bytes \<Rightarrow> bytes \<Rightarrow> string list \<Rightarrow> bytes list \<Rightarrow> bool" where
  "sealed_all x secret raw dests msgs \<longleftrightarrow> list_all2 (sealed_one x secret raw) dests msgs \<or>
     (\<exists>key mn. length key = sharedKeySize \<and> length mn = nonceSize \<and> list_all2 (sealed_many x secret raw key mn) dests msgs)"

lemma encryptPayload_sealed:
  assumes laws: "box_laws (cx_box x)" "rand_laws (cx_rand x)" and coh: "keys_coherent x c"
    and "encryptPayload x p dests (c, w) = (Ok msgs, s)"
  obtains raw where "MarshalPayload (cx_proto x) p = Ok raw" and "sealed_all x (cl_curveSecretKey c) raw dests msgs"
    and "same_but_keys x c (fst s)"
proof -
  let ?many = "\<lambda>raw. bnd (env (cx_rand x sharedKeySize)) (\<lambda>key. bnd (env (encrypt (cx_box x) (cx_rand x) raw key))
     (\<lambda>(encrypted, msgNonce). encrypt_keys x key encrypted msgNonce dests))"
  let ?one = "\<lambda>raw d. bnd (seal_for x d raw) (\<lambda>(e, n). bnd (of_res (MarshalMessage (cx_proto x)
     \<lparr>wm_Payload = e, wm_Encrypted = True, wm_Nonce = n, wm_EncryptedKey = []\<rparr>)) (\<lambda>data. ret [data]))"
  from assms(4) obtain raw where raw: "MarshalPayload (cx_proto x) p = Ok raw"
    and r: "(if length dests > 1 then ?many raw else (case dests of [] \<Rightarrow> crash IndexOutOfRange | d # _ \<Rightarrow> ?one raw d)) (c, w) = (Ok msgs, s)"
    unfolding encryptPayload_def by (rule bnd_OkE) simp
  show thesis
  proof (cases "length dests > 1")
    case True
    with r have "?many raw (c, w) = (Ok msgs, s)" by simp
    then obtain key s1 where "env (cx_rand x sharedKeySize) (c, w) = (Ok key, s1)"
      and r1: "bnd (env (encrypt (cx_box x) (cx_rand x) raw key)) (\<lambda>(e, mn). encrypt_keys x key e mn dests) s1 = (Ok msgs, s)"
      by (rule bnd_OkE)
    then obtain w1 where "cx_rand x sharedKeySize w = (Ok key, w1)" and s1: "s1 = (c, w1)" by (elim env_OkE)
    then have lk: "length key = sharedKeySize" using rand_length [OF laws(2)] by blast
    from r1 obtain en s2 where e: "env (encrypt (cx_box x) (cx_rand x) raw key) (c, w1) = (Ok en, s2)"
      and r2: "(case en of (e, mn) \<Rightarrow> encrypt_keys x key e mn dests) s2 = (Ok msgs, s)"
      unfolding s1 by (rule bnd_OkE)
    from encrypt_env_OkE [OF laws e] obtain mn w2 where "en = (SealAfterPrecomputation (cx_box x) raw mn key, mn)"
      and mn: "length mn = nonceSize" and "s2 = (c, w2)" .
    with r2 have "encrypt_keys x key (SealAfterPrecomputation (cx_box x) raw mn key) mn dests (c, w2) = (Ok msgs, s)" by simp
    from encrypt_keys_sealed [OF laws coh this] raw lk mn that show thesis unfolding sealed_all_def by blast
  next
    case False
    with r obtain d where d: "dests = [d]" and "?one raw d (c, w) = (Ok msgs, s)" by (cases dests) auto
    then obtain en s1 where sf: "seal_for x d raw (c, w) = (Ok en, s1)" and r1: "(case en of (e, n) \<Rightarrow> bnd (of_res (MarshalMessage (cx_proto x)
       \<lparr>wm_Payload = e, wm_Encrypted = True, wm_Nonce = n, wm_EncryptedKey = []\<rparr>)) (\<lambda>data. ret [data])) s1 = (Ok msgs, s)"
      by (elim bnd_OkE)
    from seal_for_OkE [OF laws coh sf] obtain pk k n c1 w1 where
      k: "dest_pubkey x d = Ok pk" "shared_key x (cl_curveSecretKey c) pk = Ok k" "length n = nonceSize"
      and en: "en = (SealAfterPrecomputation (cx_box x) raw n k, n)" and s1: "s1 = (c1, w1)" and same: "same_but_keys x c c1" .
    from r1 en s1 obtain msg where "MarshalMessage (cx_proto x) \<lparr>wm_Payload = SealAfterPrecomputation (cx_box x) raw n k,
         wm_Encrypted = True, wm_Nonce = n, wm_EncryptedKey = []\<rparr> = Ok msg" and msgs: "msgs = [msg]" "s = (c1, w1)"
      by (auto elim!: bnd_OkE)
    with k have "sealed_one x (cl_curveSecretKey c) raw d msg" unfolding sealed_one_def by blast
    with msgs d raw same that show thesis unfolding sealed_all_def by simp
  qed
qed

section \<open>Opening what was sealed\<close>

text \<open>
  The receiver's key: by the key agreement of the box, the key that the sender computed from its secret
  and the receiver's public key is the one the receiver computes from its own secret and the sender's
  public key.
\<close>

definition keys_agree :: "'w client_ext \<Rightarrow> bytes \<Rightarrow> string \<Rightarrow> bytes \<Rightarrow> string \<Rightarrow> bool" where
  "keys_agree x secretA addrA secretB addrB \<longleftrightarrow>
     (\<exists>pkA pkB k. dest_pubkey x addrA = Ok pkA \<and> dest_pubkey x addrB = Ok pkB \<and>
        shared_key x secretA pkB = Ok k \<and> shared_key x secretB pkA = Ok k)"

lemma getOrComputeSharedKey_Ok:
  assumes "keys_coherent x c" and "shared_key x (cl_curveSecretKey c) pk = Ok k"
  shows "\<exists>c'. getOrComputeSharedKey x pk (c, w) = (Ok k, (c', w)) \<and> same_but_keys x c c'"
  using getOrComputeSharedKey_eq [OF assms(1), of pk w] getOrComputeSharedKey_same [OF assms(1), of pk w] assms(2) by force

text \<open>
  Which messages make \<^verbatim>\<open>decryptPayload\<close> crash, with \<open>k\<close> the key shared with their source. Without a sealed key only the length
  of the payload matters, and a short nonce is filled up with zeros. With one, the nonce is sliced at 24, and both the
  sealed key and, once that is open, the payload must have the length of a tag.
\<close>

definition too_short :: "'w client_ext \<Rightarrow> bytes \<Rightarrow> wire_message \<Rightarrow> bool" where
  "too_short x k wm \<longleftrightarrow>
     (if wm_EncryptedKey wm = [] then length (wm_Payload wm) < box_Overhead
      else length (wm_Nonce wm) < nonceSize \<or> length (wm_EncryptedKey wm) < box_Overhead \<or>
        OpenAfterPrecomputation (cx_box x) (wm_EncryptedKey wm) (copy_array nonceSize (take nonceSize (wm_Nonce wm))) k \<noteq> None \<and>
        length (wm_Payload wm) < box_Overhead)"

lemma decrypt_panics_iff: "is_panic (decrypt bx msg nonce k) \<longleftrightarrow> length msg < box_Overhead"
  by (simp add: decrypt_def split: option.split)

lemma decryptPayload_panics_iff:
  assumes "dest_pubkey x src = Ok pk" and "keys_coherent x c" and "shared_key x (cl_curveSecretKey c) pk = Ok k"
  shows "is_panic (fst (decryptPayload x wm src (c, w))) \<longleftrightarrow> too_short x k wm"
proof -
  from getOrComputeSharedKey_Ok [OF assms(2,3), of w] obtain c' where
    "getOrComputeSharedKey x pk (c, w) = (Ok k, (c', w))" by blast
  with assms(1) show ?thesis
    by (auto simp: decryptPayload_def bnd_Ok bnd_def too_short_def decrypt_panics_iff decrypt_def split: option.splits)
qed

lemma decryptPayload_sealed_one:
  assumes "box_laws (cx_box x)" and "proto_laws (cx_proto x)" and "keys_coherent x c"
    and "sealed_one x secret raw dest msg" and "keys_agree x secret src (cl_curveSecretKey c) dest"
  shows "\<exists>wm c'. UnmarshalMessage (cx_proto x) msg = Ok wm \<and> wm_Encrypted wm \<and>
     decryptPayload x wm src (c, w) = (Ok raw, (c', w)) \<and> same_but_keys x c c'"
proof -
  from assms(4) obtain pk k n where pk: "dest_pubkey x dest = Ok pk" and k: "shared_key x secret pk = Ok k"
    and n: "length n = nonceSize" and m: "MarshalMessage (cx_proto x) \<lparr>wm_Payload = SealAfterPrecomputation (cx_box x) raw n k,
      wm_Encrypted = True, wm_Nonce = n, wm_EncryptedKey = []\<rparr> = Ok msg" unfolding sealed_one_def by blast
  from assms(5) pk k obtain pkA where pkA: "dest_pubkey x src = Ok pkA" and kA: "shared_key x (cl_curveSecretKey c) pkA = Ok k"
    unfolding keys_agree_def by auto
  from getOrComputeSharedKey_Ok [OF assms(3) kA] obtain c' where
    "getOrComputeSharedKey x pkA (c, w) = (Ok k, (c', w))" and "same_but_keys x c c'" by blast
  with m pkA n decrypt_seal [OF assms(1)] assms(2) show ?thesis
    by (auto simp: proto_laws_def decryptPayload_def bnd_Ok)
qed

lemma decryptPayload_sealed_many:
  assumes "box_laws (cx_box x)" and "proto_laws (cx_proto x)" and "keys_coherent x c"
    and "length key = sharedKeySize" and "length mn = nonceSize"
    and "sealed_many x secret raw key mn dest msg" and "keys_agree x secret src (cl_curveSecretKey c) dest"
  shows "\<exists>wm c'. UnmarshalMessage (cx_proto x) msg = Ok wm \<and> wm_Encrypted wm \<and>
     decryptPayload x wm src (c, w) = (Ok raw, (c', w)) \<and> same_but_keys x c c'"
proof -
  let ?wm = "\<lambda>n k. \<lparr>wm_Payload = SealAfterPrecomputation (cx_box x) raw mn key, wm_Encrypted = True, wm_Nonce = n @ mn,
      wm_EncryptedKey = SealAfterPrecomputation (cx_box x) key n k\<rparr>"
  from assms(6) obtain pk k n where pk: "dest_pubkey x dest = Ok pk" and k: "shared_key x secret pk = Ok k"
    and n: "length n = nonceSize" and m: "MarshalMessage (cx_proto x) (?wm n k) = Ok msg" unfolding sealed_many_def by blast
  from assms(7) pk k obtain pkA where pkA: "dest_pubkey x src = Ok pkA" and kA: "shared_key x (cl_curveSecretKey c) pkA = Ok k"
    unfolding keys_agree_def by auto
  from getOrComputeSharedKey_Ok [OF assms(3) kA] obtain c' where g: "getOrComputeSharedKey x pkA (c, w) = (Ok k, (c', w))"
    and same: "same_but_keys x c c'" by blast
  have len: "length (SealAfterPrecomputation (cx_box x) key n k) > 0"
    using assms(1) by (simp add: box_laws_def box_Overhead_def)
  have "decryptPayload x (?wm n k) src (c, w) = (Ok raw, (c', w))"
    using pkA n g assms(4,5) len decrypt_seal [OF assms(1)] by (simp add: decryptPayload_def bnd_Ok)
  with m same assms(2) show ?thesis by (auto simp: proto_laws_def)
qed

text \<open>What a client sealed for its destinations, each of them opens.\<close>

lemma encryptPayload_decrypts:
  assumes "box_laws (cx_box x)" and "rand_laws (cx_rand x)" and "proto_laws (cx_proto x)"
    and "keys_coherent x a" and "keys_coherent x b"
    and "encryptPayload x p dests (a, w) = (Ok msgs, s)" and "i < length dests"
    and "keys_agree x (cl_curveSecretKey a) (cl_address a) (cl_curveSecretKey b) (dests ! i)"
  shows "length msgs = length dests \<and> (\<exists>wm raw b'. UnmarshalMessage (cx_proto x) (msgs ! i) = Ok wm \<and> wm_Encrypted wm \<and>
     decryptPayload x wm (cl_address a) (b, v) = (Ok raw, (b', v)) \<and> same_but_keys x b b' \<and> UnmarshalPayload (cx_proto x) raw = Ok p)"
proof -
  from encryptPayload_sealed [OF assms(1,2,4,6)] obtain raw where raw: "MarshalPayload (cx_proto x) p = Ok raw"
    and sealed: "sealed_all x (cl_curveSecretKey a) raw dests msgs" .
  then have p: "UnmarshalPayload (cx_proto x) raw = Ok p" using assms(3) by (auto simp: proto_laws_def)
  from sealed have len: "length msgs = length dests" unfolding sealed_all_def by (auto dest: list_all2_lengthD)
  have "\<exists>wm c'. UnmarshalMessage (cx_proto x) (msgs ! i) = Ok wm \<and> wm_Encrypted wm \<and>
      decryptPayload x wm (cl_address a) (b, v) = (Ok raw, (c', v)) \<and> same_but_keys x b c'"
    using sealed unfolding sealed_all_def
  proof
    assume "list_all2 (sealed_one x (cl_curveSecretKey a) raw) dests msgs"
    with assms(7) have "sealed_one x (cl_curveSecretKey a) raw (dests ! i) (msgs ! i)" by (simp add: list_all2_nthD)
    from decryptPayload_sealed_one [OF assms(1,3,5) this assms(8)] show ?thesis .
  next
    assume "\<exists>key mn. length key = sharedKeySize \<and> length mn = nonceSize \<and>
       list_all2 (sealed_many x (cl_curveSecretKey a) raw key mn) dests msgs"
    with assms(7) obtain key mn where "length key = sharedKeySize" "length mn = nonceSize"
      and "sealed_many x (cl_curveSecretKey a) raw key mn (dests ! i) (msgs ! i)" by (auto simp: list_all2_nthD)
    from decryptPayload_sealed_many [OF assms(1,3,5) this assms(8)] show ?thesis .
  qed
  with len p show ?thesis by blast
qed

section \<open>Witness instances\<close>

text \<open>An environment whose network answers every request and in which every address has the same key.\<close>

definition demo_key :: bytes where "demo_key = replicate 32 zero_byte"

definition demo_pb :: pb_ext where
  "demo_pb = \<lparr>MarshalOutbound = (\<lambda>m. Ok (concat (om_Payloads m))), MarshalClientMessage = (\<lambda>m. Ok (cm_Message m)),
     UnmarshalClientMessage = (\<lambda>b. Ok \<lparr>cm_MessageType = INBOUND_MESSAGE, cm_Message = b, cm_Zlib = False\<rparr>),
     UnmarshalInbound = (\<lambda>b. Ok \<lparr>im_Src = ''alice'', im_Payload = b, im_PrevHash = []\<rparr>),
     MarshalReceipt = (\<lambda>(h, sig). Ok (h @ sig)), SerializationUnsigned = (\<lambda>pk. Ok pk),
     SerializationMetadata = (\<lambda>m. Ok (sg_DestId m)), zlib_compress = (\<lambda>b. Ok b)\<rparr>"

definition demo_cx :: "unit client_ext" where
  "demo_cx =
    \<lparr>cx_net = demo_net, cx_vault = demo_vault, cx_box = plain_box, cx_proto = dotted_proto, cx_pb = demo_pb,
     cx_rand = zero_rand, cx_randUint32 = (\<lambda>w. (7, w)), cx_now = (\<lambda>w. (1000, w)), cx_Sleep = (\<lambda>ms w. ((), w)),
     cx_resolver = (\<lambda>i dest. ret []), copy_client_config = (\<lambda>base c. Ok c),
     copy_message_config = (\<lambda>base c. Ok (overlay_message base c)),
     ParseClientAddress = (\<lambda>s. Ok (s, demo_key, [])), MakeAddressString = (\<lambda>pk ident. ident),
     PrivateKeyToCurve25519PrivateKey = id, Sha256 = (\<lambda>b. take 32 b), crypto_Sign = (\<lambda>sk d. Ok ''sig''),
     Ws_Dial = (\<lambda>url t dc. ret 1), Conn_Close = (\<lambda>c. ret ()), Conn_WriteMessage = (\<lambda>c b t. ret ()),
     Conn_WriteJSON = (\<lambda>c j. ret ()), Conn_SetWriteDeadline = (\<lambda>c t. ret ()), Conn_Ping = (\<lambda>c. ret ()),
     WebRTC_NewPeer = (\<lambda>ss w. (None, w)), WebRTC_Offer = (\<lambda>p a. ret ()), WebRTC_Sdp = (\<lambda>p t w. (None, w)),
     WebRTC_Connected = (\<lambda>p s t w. (None, w)),
     Cache_Get = (\<lambda>k w. (if k = ''id'' then Some 0 else None, w)), Cache_Delete = (\<lambda>k w. ((), w)), Cache_Add = (\<lambda>k v w. (True, w)),
     PersistFinished = ''PERSIST_FINISHED'', dec_ErrCode = dec_int, ErrCode_SUCCESS = 0, ErrCode_WRONG_NODE = 48001, ErrCode_Message = (\<lambda>e. ''error'')\<rparr>"

definition demo_client :: client where
  "demo_client =
    \<lparr>cl_OnConnect = NewOnConnect 1 False, cl_OnMessage = NewOnMessage 16 False,
     cl_OnMessageEvent = Some (NewOnMessageEvent 100 False), cl_config = GetDefaultClientConfig, cl_account = demo_account,
     cl_publicKey = ''pk'', cl_curveSecretKey = ''sk'', cl_address = ''alice'', cl_addressID = ''alice'', cl_sigChainBlockHash = [],
     cl_reconnectChan = \<lparr>rq_Waiting = True, rq_Handed = None, rq_Closed = False\<rparr>, cl_resolvers = [], cl_isClosed = False,
     cl_conn = Some 1, cl_node = Some \<lparr>nd_Addr = ''node'', nd_RPCAddr = [], nd_PubKey = [], nd_ID = ''n1'', nd_Sdp = []\<rparr>,
     cl_sharedKeys = Map.empty, cl_wallet = demo_wallet, cl_chChallengeSignature = make_chan 1, cl_peer = None,
     cl_State = ConnConnected, cl_Stats = None, cl_replyChans = [], cl_tasks = []\<rparr>"

lemma demo_client_laws:
  "box_laws (cx_box demo_cx)" "rand_laws (cx_rand demo_cx)" "proto_laws (cx_proto demo_cx)" "keys_coherent demo_cx demo_client"
  using plain_box_laws zero_rand_laws dotted_proto_laws
  by (simp_all add: demo_cx_def keys_coherent_def demo_client_def)

lemma demo_address [simp]: "cl_address demo_client = ''alice''"
  by (simp add: demo_client_def)

lemma demo_pubkey [simp]: "dest_pubkey demo_cx addr = Ok demo_key"
  by (simp add: dest_pubkey_def demo_cx_def)

lemma demo_shared_key: "shared_key demo_cx secret demo_key = Ok demo_key"
  by (simp add: shared_key_def demo_cx_def demo_key_def PublicKeySize_def plain_box_def)

definition demo_payload :: payload where
  "demo_payload = \<lparr>pl_Type = BinaryType, pl_MessageId = ''id'', pl_Data = ''hello'', pl_ReplyToId = [], pl_NoReply = False\<rparr>"

lemma demo_rand: "cx_rand demo_cx n () = (Ok (replicate n zero_byte), ())"
  by (simp add: demo_cx_def zero_rand_def)

lemma demo_seal_for:
  assumes "keys_coherent demo_cx c"
  shows "\<exists>c' en. seal_for demo_cx d m (c, ()) = (Ok en, (c', ())) \<and> keys_coherent demo_cx c'"
proof -
  from getOrComputeSharedKey_Ok [OF assms demo_shared_key] obtain c' where
    "getOrComputeSharedKey demo_cx demo_key (c, ()) = (Ok demo_key, (c', ()))" and "same_but_keys demo_cx c c'" by blast
  then show ?thesis
    by (auto simp: seal_for_def bnd_Ok encrypt_def demo_rand dest: same_but_keys_coherent)
qed

lemma demo_encrypt_keys:
  "keys_coherent demo_cx c \<Longrightarrow> \<exists>msgs c'. encrypt_keys demo_cx key e mn dests (c, ()) = (Ok msgs, (c', ()))"
proof (induction dests arbitrary: c)
  case (Cons d ds)
  from demo_seal_for [OF Cons.prems] obtain c' ek n where s: "seal_for demo_cx d key (c, ()) = (Ok (ek, n), (c', ()))"
    and c': "keys_coherent demo_cx c'" by fastforce
  obtain msg where m: "MarshalMessage (cx_proto demo_cx)
      \<lparr>wm_Payload = e, wm_Encrypted = True, wm_Nonce = n @ mn, wm_EncryptedKey = ek\<rparr> = Ok msg"
    by (simp add: demo_cx_def dotted_proto_def)
  from Cons.IH [OF c'] obtain msgs c2 where "encrypt_keys demo_cx key e mn ds (c', ()) = (Ok msgs, (c2, ()))" by blast
  with s m show ?case by (simp add: bnd_Ok)
qed simp

lemma demo_encrypts:
  "\<exists>msgs c'. encryptPayload demo_cx demo_payload [''bob'', ''carol''] (demo_client, ()) = (Ok msgs, (c', ()))"
proof -
  obtain raw where raw: "MarshalPayload (cx_proto demo_cx) demo_payload = Ok raw"
    by (simp add: demo_cx_def dotted_proto_def demo_payload_def BinaryType_def)
  show ?thesis
    using demo_encrypt_keys [OF demo_client_laws(4)]
    by (simp add: encryptPayload_def raw demo_rand encrypt_def bnd_def env_def del: encrypt_keys.simps)
qed

section \<open>Properties\<close>

text \<open>
  End-to-end encryption: whatever \<^verbatim>\<open>encryptPayload\<close> of one client returns for a list of destinations,
  there is one message per destination, and the client at a destination, given the sender's address,
  decrypts its message with \<^verbatim>\<open>decryptPayload\<close> to a byte string that decodes to the payload. This holds for one
  destination, where the payload is sealed with the shared key, and for several, where a fresh key is.
\<close>

theorem payload_end_to_end:
  assumes "box_laws (cx_box x)" and "rand_laws (cx_rand x)" and "proto_laws (cx_proto x)"
    and "keys_coherent x a" and "keys_coherent x b"
    and "encryptPayload x p dests (a, w) = (Ok msgs, s)" and "i < length dests"
    and "keys_agree x (cl_curveSecretKey a) (cl_address a) (cl_curveSecretKey b) (dests ! i)"
  shows "length msgs = length dests \<and> (\<exists>wm raw b'. UnmarshalMessage (cx_proto x) (msgs ! i) = Ok wm \<and> wm_Encrypted wm \<and>
     decryptPayload x wm (cl_address a) (b, v) = (Ok raw, (b', v)) \<and> UnmarshalPayload (cx_proto x) raw = Ok p)"
  using encryptPayload_decrypts [OF assms, of v] by blast

theorem payload_end_to_end_witness:
  "\<exists>msgs s wm raw b'. encryptPayload demo_cx demo_payload [''bob'', ''carol''] (demo_client, ()) = (Ok msgs, s) \<and>
     length msgs = 2 \<and> UnmarshalMessage (cx_proto demo_cx) (msgs ! 1) = Ok wm \<and>
     decryptPayload demo_cx wm ''alice'' (demo_client, ()) = (Ok raw, (b', ())) \<and>
     UnmarshalPayload (cx_proto demo_cx) raw = Ok demo_payload"
proof -
  from demo_encrypts obtain msgs c' where e:
    "encryptPayload demo_cx demo_payload [''bob'', ''carol''] (demo_client, ()) = (Ok msgs, (c', ()))" by blast
  have "keys_agree demo_cx (cl_curveSecretKey demo_client) (cl_address demo_client) (cl_curveSecretKey demo_client) ([''bob'', ''carol''] ! 1)"
    by (simp add: keys_agree_def demo_shared_key)
  from payload_end_to_end [OF demo_client_laws(1-3) demo_client_laws(4) demo_client_laws(4) e _ this, of "()"] e
  show ?thesis by auto
qed

text \<open>
  C27: The cache of shared keys is transparent: in a client whose cache is coherent,
  \<^verbatim>\<open>getOrComputeSharedKey\<close> returns what computing the key afresh returns, errors included, keeps the cache
  coherent and changes nothing else of the client.
\<close>

theorem shared_key_cache_transparent:
  assumes "keys_coherent x c" and "getOrComputeSharedKey x pk (c, w) = (r, (c', w'))"
  shows "r = shared_key x (cl_curveSecretKey c) pk \<and> keys_coherent x c' \<and> w' = w \<and>
     c'\<lparr>cl_sharedKeys := m\<rparr> = c\<lparr>cl_sharedKeys := m\<rparr>"
  using getOrComputeSharedKey_same [OF assms] by (auto simp: same_but_keys_def)

theorem shared_key_cache_transparent_witness:
  "\<exists>c'. getOrComputeSharedKey demo_cx demo_key (demo_client, ()) = (Ok demo_key, (c', ())) \<and> keys_coherent demo_cx c'"
proof -
  obtain r c' where g: "getOrComputeSharedKey demo_cx demo_key (demo_client, ()) = (r, (c', ()))"
    by (metis prod.exhaust old.unit.exhaust)
  from shared_key_cache_transparent [OF demo_client_laws(4) g] g show ?thesis by (simp add: demo_shared_key)
qed

end
