(* ===== verification/Nkn_Client_RPC.thy ===== *)
theory Nkn_Client_RPC
  imports Nkn_Client
begin

text \<open>
  The RPC methods of \<^verbatim>\<open>Client\<close> (\<^verbatim>\<open>src/client.go\<close>). Each asks the node the client is connected to first, if
  that node has a usable RPC address, and the configured seed servers when that fails. The connected
  node's address is in the wallet's configuration, where \<^verbatim>\<open>connectToNode\<close> puts it. The order of
  attempts is shared with \<^verbatim>\<open>MultiClient\<close>, which has one such node per sub-client: \<open>tiered\<close> is the common
  part of the methods. A method and its variant without a context are one definition.
\<close>

section \<open>Asking node after node\<close>

fun tiered :: "rpc_config list \<Rightarrow> rpc_config \<Rightarrow> (rpc_config option \<Rightarrow> ('w, err, 'a) act) \<Rightarrow> ('w, err, 'a) act" where
  "tiered [] seeds query = query (Some seeds)"
| "tiered (node # nodes) seeds query =
     (if length (rc_SeedRPCServerAddr node) > 0
      then attempt (query (Some node)) (\<lambda>err. tiered nodes seeds query) (\<lambda>res. ret res)
      else tiered nodes seeds query)"

definition client_query :: "client \<Rightarrow> (rpc_config option \<Rightarrow> ('w, err, 'a) act) \<Rightarrow> ('w, err, 'a) act" where
  "client_query c query = tiered [WalletConfig_RPC (wa_config (cl_wallet c))] (ClientConfig_RPC (cl_config c)) query"

section \<open>The methods\<close>

definition Client_GetNonceByAddressContext :: "'w net_ext \<Rightarrow> client \<Rightarrow> string \<Rightarrow> bool \<Rightarrow> ('w, err, int64) act" where
  "Client_GetNonceByAddressContext net c address txPool = client_query c (GetNonceContext net address txPool)"

definition Client_GetHeightContext :: "'w net_ext \<Rightarrow> client \<Rightarrow> ('w, err, int32) act" where
  "Client_GetHeightContext net c = client_query c (GetHeightContext net)"

definition Client_BalanceByAddressContext :: "'w net_ext \<Rightarrow> client \<Rightarrow> string \<Rightarrow> ('w, err, fixed64) act" where
  "Client_BalanceByAddressContext net c address = client_query c (GetBalanceContext net address)"

definition Client_GetSubscribersContext :: "'w net_ext \<Rightarrow> client \<Rightarrow> string \<Rightarrow> int \<Rightarrow> int \<Rightarrow> bool \<Rightarrow> bool \<Rightarrow> bytes \<Rightarrow> ('w, err, subscribers) act" where
  "Client_GetSubscribersContext net c topic offset limit meta txPool subscriberHashPrefix = client_query c (GetSubscribersContext net topic offset limit meta txPool subscriberHashPrefix)"

definition Client_GetSubscriptionContext :: "'w net_ext \<Rightarrow> client \<Rightarrow> string \<Rightarrow> string \<Rightarrow> ('w, err, subscription) act" where
  "Client_GetSubscriptionContext net c topic subscriber = client_query c (GetSubscriptionContext net topic subscriber)"

definition Client_GetSubscribersCountContext :: "'w net_ext \<Rightarrow> client \<Rightarrow> string \<Rightarrow> bytes \<Rightarrow> ('w, err, int) act" where
  "Client_GetSubscribersCountContext net c topic subscriberHashPrefix = client_query c (GetSubscribersCountContext net topic subscriberHashPrefix)"

definition Client_GetRegistrantContext :: "'w net_ext \<Rightarrow> client \<Rightarrow> string \<Rightarrow> ('w, err, registrant) act" where
  "Client_GetRegistrantContext net c name = client_query c (GetRegistrantContext net name)"

definition Client_SendRawTransactionContext :: "'w net_ext \<Rightarrow> client \<Rightarrow> transaction \<Rightarrow> ('w, err, string) act" where
  "Client_SendRawTransactionContext net c txn = client_query c (SendRawTransactionContext net txn)"

definition Client_GetNonceContext :: "'w net_ext \<Rightarrow> client \<Rightarrow> bool \<Rightarrow> ('w, err, int64) act" where
  "Client_GetNonceContext net c txPool = Client_GetNonceByAddressContext net c (Wallet_Address (cl_wallet c)) txPool"

definition Client_BalanceContext :: "'w net_ext \<Rightarrow> client \<Rightarrow> ('w, err, fixed64) act" where
  "Client_BalanceContext net c = Client_BalanceByAddressContext net c (Wallet_Address (cl_wallet c))"

definition client_rpc_client :: "'w net_ext \<Rightarrow> client \<Rightarrow> 'w rpc_client" where
  "client_rpc_client net c =
     \<lparr>rpcGetNonce = Client_GetNonceContext net c,
      rpcGetNonceByAddress = Client_GetNonceByAddressContext net c,
      rpcBalance = Client_BalanceContext net c,
      rpcBalanceByAddress = Client_BalanceByAddressContext net c,
      rpcGetHeight = Client_GetHeightContext net c,
      rpcGetSubscribers = Client_GetSubscribersContext net c,
      rpcGetSubscription = Client_GetSubscriptionContext net c,
      rpcGetSubscribersCount = Client_GetSubscribersCountContext net c,
      rpcGetRegistrant = Client_GetRegistrantContext net c,
      rpcSendRawTransaction = Client_SendRawTransactionContext net c\<rparr>"

definition Client_SignTransaction :: "'w vault_ext \<Rightarrow> client \<Rightarrow> transaction \<Rightarrow> transaction result" where
  "Client_SignTransaction x c tx = Wallet_SignTransaction x (cl_wallet c) tx"

definition Client_PubKey :: "client \<Rightarrow> bytes" where "Client_PubKey c = Account_PubKey (cl_account c)"

definition Client_NewNanoPay :: "'w nano_ext \<Rightarrow> client \<Rightarrow> string \<Rightarrow> string \<Rightarrow> int \<Rightarrow> ('w, err, nano_pay) act" where
  "Client_NewNanoPay nx c recipientAddress fee duration =
     NewNanoPay nx (Wallet_ProgramHash (cl_wallet c)) recipientAddress fee duration"

definition Client_NewNanoPayClaimer :: "'w nano_ext \<Rightarrow> client \<Rightarrow> string \<Rightarrow> string \<Rightarrow> ('w, err, claimer) act" where
  "Client_NewNanoPayClaimer nx c recipientAddress minFlushAmount =
     NewNanoPayClaimer nx (if length recipientAddress = 0 then Wallet_Address (cl_wallet c) else recipientAddress) minFlushAmount"

definition client_signer :: "'w vault_ext \<Rightarrow> 'w net_ext \<Rightarrow> client \<Rightarrow> 'w signer_rpc" where
  "client_signer x net c =
     \<lparr>sr_PubKey = Client_PubKey c, sr_SignTransaction = Client_SignTransaction x c,
      sr_GetNonce = Client_GetNonceContext net c, sr_SendRawTransaction = Client_SendRawTransactionContext net c\<rparr>"

definition Client_TransferContext ::
  "'w vault_ext \<Rightarrow> tx_ext \<Rightarrow> 'w net_ext \<Rightarrow> client \<Rightarrow> string \<Rightarrow> string \<Rightarrow> transaction_config option \<Rightarrow> ('w, err, string) act" where
  "Client_TransferContext x t net c address amount config = TransferContext t (client_signer x net c) address amount config"

definition Client_RegisterNameContext ::
  "'w vault_ext \<Rightarrow> tx_ext \<Rightarrow> 'w net_ext \<Rightarrow> client \<Rightarrow> string \<Rightarrow> transaction_config option \<Rightarrow> ('w, err, string) act" where
  "Client_RegisterNameContext x t net c name config = RegisterNameContext t (client_signer x net c) name config"

definition Client_TransferNameContext ::
  "'w vault_ext \<Rightarrow> tx_ext \<Rightarrow> 'w net_ext \<Rightarrow> client \<Rightarrow> string \<Rightarrow> bytes \<Rightarrow> transaction_config option \<Rightarrow> ('w, err, string) act" where
  "Client_TransferNameContext x t net c name recipientPubKey config = TransferNameContext t (client_signer x net c) name recipientPubKey config"

definition Client_DeleteNameContext ::
  "'w vault_ext \<Rightarrow> tx_ext \<Rightarrow> 'w net_ext \<Rightarrow> client \<Rightarrow> string \<Rightarrow> transaction_config option \<Rightarrow> ('w, err, string) act" where
  "Client_DeleteNameContext x t net c name config = DeleteNameContext t (client_signer x net c) name config"

definition Client_SubscribeContext ::
  "'w vault_ext \<Rightarrow> tx_ext \<Rightarrow> 'w net_ext \<Rightarrow> client \<Rightarrow> string \<Rightarrow> string \<Rightarrow> int \<Rightarrow> string \<Rightarrow> transaction_config option \<Rightarrow> ('w, err, string) act" where
  "Client_SubscribeContext x t net c ident topic duration meta config = SubscribeContext t (client_signer x net c) ident topic duration meta config"

definition Client_UnsubscribeContext ::
  "'w vault_ext \<Rightarrow> tx_ext \<Rightarrow> 'w net_ext \<Rightarrow> client \<Rightarrow> string \<Rightarrow> string \<Rightarrow> transaction_config option \<Rightarrow> ('w, err, string) act" where
  "Client_UnsubscribeContext x t net c ident topic config = UnsubscribeContext t (client_signer x net c) ident topic config"

interpretation client_signs: tx_signer "Client_SignTransaction x c" for x c
  unfolding Client_SignTransaction_def by (rule wallet_signs.tx_signer_axioms)

section \<open>Lemmas\<close>

lemma tiered_Ok:
  assumes "tiered nodes seeds query w = (Ok r, w')"
  shows "\<exists>cfg v. (cfg = seeds \<or> cfg \<in> set nodes \<and> rc_SeedRPCServerAddr cfg \<noteq> []) \<and> query (Some cfg) v = (Ok r, w')"
  using assms
proof (induction nodes arbitrary: w)
  case (Cons n ns)
  show ?case
  proof (cases "length (rc_SeedRPCServerAddr n) > 0")
    case True
    obtain x v where q: "query (Some n) w = (x, v)" by fastforce
    show ?thesis
    proof (cases x)
      case (Ok a)
      with q True Cons.prems show ?thesis by (intro exI [of _ n] exI [of _ w]) (simp add: attempt_def)
    next
      case (Err e)
      with q True Cons.prems have "tiered ns seeds query v = (Ok r, w')" by (simp add: attempt_def)
      from Cons.IH [OF this] show ?thesis by auto
    next
      case (Panic p)
      with q True Cons.prems show ?thesis by (simp add: attempt_def)
    qed
  next
    case False
    with Cons.prems have "tiered ns seeds query w = (Ok r, w')" by simp
    from Cons.IH [OF this] show ?thesis by auto
  qed
qed auto

lemma tiered_Err:
  assumes "tiered nodes seeds query w = (Err e, w')"
  shows "\<exists>v. query (Some seeds) v = (Err e, w')"
  using assms
proof (induction nodes arbitrary: w)
  case (Cons n ns)
  obtain x v where q: "query (Some n) w = (x, v)" by fastforce
  with Cons.prems Cons.IH show ?case
    by (cases x) (auto simp: attempt_def split: if_splits)
qed auto

section \<open>Property\<close>

text \<open>
  An RPC method of a client answers from its connected node or from its seed servers and gives up last
  of all on the seeds: a result is what one of the two returned (the node is only asked when it has an RPC
  address), and an error is the error of the seed servers. When the node answers, the seeds are not asked.
\<close>

theorem client_query_tiers:
  assumes "client_query c query w = (res, w')"
  shows "(is_ok res \<longrightarrow> (\<exists>v. query (Some (ClientConfig_RPC (cl_config c))) v = (res, w') \<or>
        wc_SeedRPCServerAddr (wa_config (cl_wallet c)) \<noteq> [] \<and>
        query (Some (WalletConfig_RPC (wa_config (cl_wallet c)))) v = (res, w'))) \<and>
     (\<forall>e. res = Err e \<longrightarrow> (\<exists>v. query (Some (ClientConfig_RPC (cl_config c))) v = (Err e, w'))) \<and>
     (\<forall>r v. wc_SeedRPCServerAddr (wa_config (cl_wallet c)) \<noteq> [] \<and>
        query (Some (WalletConfig_RPC (wa_config (cl_wallet c)))) w = (Ok r, v) \<longrightarrow> res = Ok r \<and> w' = v)"
proof (intro conjI)
  let ?node = "WalletConfig_RPC (wa_config (cl_wallet c))" and ?seeds = "ClientConfig_RPC (cl_config c)"
  have t: "tiered [?node] ?seeds query w = (res, w')" using assms unfolding client_query_def .
  have n: "rc_SeedRPCServerAddr ?node = wc_SeedRPCServerAddr (wa_config (cl_wallet c))" by (simp add: WalletConfig_RPC_def)
  show "is_ok res \<longrightarrow> (\<exists>v. query (Some ?seeds) v = (res, w') \<or>
      wc_SeedRPCServerAddr (wa_config (cl_wallet c)) \<noteq> [] \<and> query (Some ?node) v = (res, w'))"
  proof
    assume "is_ok res"
    then obtain r where "res = Ok r" by (auto simp: is_ok_iff)
    with tiered_Ok [of "[?node]" ?seeds query w r w'] t n show "\<exists>v. query (Some ?seeds) v = (res, w') \<or>
      wc_SeedRPCServerAddr (wa_config (cl_wallet c)) \<noteq> [] \<and> query (Some ?node) v = (res, w')" by fastforce
  qed
  show "\<forall>e. res = Err e \<longrightarrow> (\<exists>v. query (Some ?seeds) v = (Err e, w'))" using t by (auto intro: tiered_Err [of "[?node]" ?seeds query w])
  show "\<forall>r v. wc_SeedRPCServerAddr (wa_config (cl_wallet c)) \<noteq> [] \<and> query (Some ?node) w = (Ok r, v) \<longrightarrow>
      res = Ok r \<and> w' = v"
    using t n by (auto simp: attempt_def)
qed

theorem client_query_tiers_witness:
  "\<exists>v. GetHeightContext demo_net (Some (ClientConfig_RPC (cl_config demo_client))) v = (Ok 7, ()) \<or>
     wc_SeedRPCServerAddr (wa_config (cl_wallet demo_client)) \<noteq> [] \<and>
     GetHeightContext demo_net (Some (WalletConfig_RPC (wa_config (cl_wallet demo_client)))) v = (Ok 7, ())"
proof -
  have "client_query demo_client (GetHeightContext demo_net) () = (Ok 7, ())"
    by (simp add: client_query_def GetHeightContext_def RPCCall_def demo_net_def demo_client_def demo_wallet_def WalletConfig_RPC_def
      GetDefaultWalletConfig_def DefaultSeedRPCServerAddr_def httpPost_def bnd_def attempt_def handle_body_def dec_rpcResp_def
      at_field_def key_eq_def lower_char_def rpc_outcome_def)
  from client_query_tiers [OF this, THEN conjunct1] show ?thesis by simp
qed

end
