(* ===== verification/Nkn_Client_Send.thy ===== *)
theory Nkn_Client_Send
  imports Nkn_Client_RPC
begin

text \<open>
  Sending (\<^verbatim>\<open>src/client.go\<close>): from \<^verbatim>\<open>Send\<close> over the processing of destinations, the payloads, the signed
  outbound messages and their splitting into batches down to the write on the connection, and
  \<^verbatim>\<open>publish\<close>, which sends to all subscribers of a topic. Log lines are not modelled.
\<close>

section \<open>Writing to the connection\<close>

definition Client_IsClosed :: "client \<Rightarrow> bool" where "Client_IsClosed c = cl_isClosed c"

text \<open>
  \<^verbatim>\<open>Reconnect\<close> hands the request over only if \<^verbatim>\<open>handleReconnect\<close> waits for one; it never blocks.
\<close>

definition Client_Reconnect :: "node option \<Rightarrow> ('w, unit) client_act" where
  "Client_Reconnect node =
     bnd (upd (\<lambda>c. c\<lparr>cl_State := ConnConnecting\<rparr>)) (\<lambda>_.
     bnd (obj (\<lambda>c. c)) (\<lambda>c.
       if Client_IsClosed c then ret ()
       else if rq_Closed (cl_reconnectChan c) then crash SendOnClosedChannel
       else if rq_Waiting (cl_reconnectChan c)
       then upd (\<lambda>c. c\<lparr>cl_reconnectChan := (cl_reconnectChan c)\<lparr>rq_Waiting := False, rq_Handed := Some node\<rparr>\<rparr>)
       else ret ()))"

definition writeMessage :: "'w client_ext \<Rightarrow> bytes \<Rightarrow> duration \<Rightarrow> ('w, unit) client_act" where
  "writeMessage x buf writeTimeout =
     bnd (obj cl_conn) (\<lambda>conn.
       case conn of
         None \<Rightarrow> crash NilDereference
       | Some conn \<Rightarrow>
           attempt (env (Conn_WriteMessage x conn buf writeTimeout))
             (\<lambda>err. bnd (Client_Reconnect None) (\<lambda>_. throw err))
             (\<lambda>_. ret ()))"

definition count_failure :: "client \<Rightarrow> client" where
  "count_failure c =
     (let stats = (case cl_Stats c of None \<Rightarrow> zero_stats | Some s \<Rightarrow> s)
      in c\<lparr>cl_Stats := Some (stats\<lparr>cs_SendFailureCount := cs_SendFailureCount stats + 1\<rparr>)\<rparr>)"

text \<open>A write whose failure is counted.\<close>

definition write_counted :: "'w client_ext \<Rightarrow> bytes \<Rightarrow> duration \<Rightarrow> ('w, unit) client_act" where
  "write_counted x buf writeTimeout =
     attempt (writeMessage x buf writeTimeout)
       (\<lambda>err. bnd (upd count_failure) (\<lambda>_. throw err))
       (\<lambda>_. ret ())"

definition sendReceipt :: "'w client_ext \<Rightarrow> bytes \<Rightarrow> ('w, unit) client_act" where
  "sendReceipt x prevSignature =
     bnd (obj (\<lambda>c. c)) (\<lambda>c.
     bnd (of_res (SerializationUnsigned (cx_pb x) [])) (\<lambda>sigChainElemSerialized.
     bnd (of_res (crypto_Sign x (ac_PrivateKey (cl_account c)) (Sha256 x (Sha256 x prevSignature @ sigChainElemSerialized)))) (\<lambda>signature.
     bnd (of_res (MarshalReceipt (cx_pb x) (prevSignature, signature))) (\<lambda>receiptData.
     bnd (of_res (MarshalClientMessage (cx_pb x) \<lparr>cm_MessageType = RECEIPT, cm_Message = receiptData, cm_Zlib = False\<rparr>)) (\<lambda>buf.
     write_counted x buf (millis (cc_WsWriteTimeout (cl_config c))))))))"

section \<open>Destinations\<close>

definition Client_ResolveDestContext :: "'w client_ext \<Rightarrow> client \<Rightarrow> string \<Rightarrow> ('w, err, string) act" where
  "Client_ResolveDestContext x c dest =
     ResolveDestN (map (cx_resolver x) (cl_resolvers c)) (cc_ResolverDepth (cl_config c)) dest"

definition Client_ResolveDestsContext :: "'w client_ext \<Rightarrow> client \<Rightarrow> string list \<Rightarrow> ('w, err, string list) act" where
  "Client_ResolveDestsContext x c dests =
     ResolveDests (map (cx_resolver x) (cl_resolvers c)) (cc_ResolverDepth (cl_config c)) dests"

definition processDest :: "'w client_ext \<Rightarrow> client \<Rightarrow> string \<Rightarrow> ('w, err, string) act" where
  "processDest x c dest =
     (if length dest = 0 then throw ErrNoDestination
      else (let addr = Split dest in
            if length (last addr) < 2 * PublicKeySize
            then bnd (Client_GetRegistrantContext (cx_net x) c (last addr)) (\<lambda>reg.
                   if length (rg_Registrant reg) = 0 then throw ErrInvalidPubkeyOrName
                   else ret (Join (butlast addr @ [rg_Registrant reg])))
            else ret (Join addr)))"

fun processDests_loop :: "'w client_ext \<Rightarrow> client \<Rightarrow> string list \<Rightarrow> ('w, err, string list) act" where
  "processDests_loop x c [] = ret []"
| "processDests_loop x c (dest # dests) =
     attempt (processDest x c dest)
       (\<lambda>err. processDests_loop x c dests)
       (\<lambda>processedDest. bnd (processDests_loop x c dests) (\<lambda>rest. ret (processedDest # rest)))"

definition processDests :: "'w client_ext \<Rightarrow> client \<Rightarrow> string list \<Rightarrow> ('w, err, string list) act" where
  "processDests x c dests =
     (if length dests = 0 then ret []
      else bnd (processDests_loop x c dests) (\<lambda>processedDests.
        if length processedDests = 0 then throw ErrInvalidDestination else ret processedDests))"

section \<open>Payloads and outbound messages\<close>

definition newPayloads :: "'w client_ext \<Rightarrow> string list \<Rightarrow> payload \<Rightarrow> bool \<Rightarrow> ('w, bytes list) client_act" where
  "newPayloads x dests payload encrypted =
     (if encrypted then encryptPayload x payload dests
      else bnd (of_res (MarshalPayload (cx_proto x) payload)) (\<lambda>payloadData.
           bnd (of_res (MarshalMessage (cx_proto x)
                  \<lparr>wm_Payload = payloadData, wm_Encrypted = False, wm_Nonce = [], wm_EncryptedKey = []\<rparr>)) (\<lambda>data.
           ret [data])))"

text \<open>The loop over the destinations that signs for each; \<open>i\<close> is its index.\<close>

fun sign_dests :: "'w client_ext \<Rightarrow> client \<Rightarrow> sig_chain \<Rightarrow> bytes \<Rightarrow> bytes list \<Rightarrow> nat \<Rightarrow> string list \<Rightarrow> bytes list result" where
  "sign_dests x c sigChain sigChainElemSerialized plds i [] = Ok []"
| "sign_dests x c sigChain sigChainElemSerialized plds i (dest # dests) =
     and_then (ParseClientAddress x dest) (\<lambda>(destID, destPubKey, _).
     let j = (if length plds > 1 then i else 0) in
     if j \<ge> length plds then Panic IndexOutOfRange
     else
     and_then (SerializationMetadata (cx_pb x) (sigChain\<lparr>sg_DestId := destID, sg_DestPubkey := destPubKey,
       sg_DataSize := of_nat (length (plds ! j))\<rparr>)) (\<lambda>metadata.
     and_then (crypto_Sign x (ac_PrivateKey (cl_account c)) (Sha256 x (Sha256 x metadata @ sigChainElemSerialized))) (\<lambda>signature.
     and_then (sign_dests x c sigChain sigChainElemSerialized plds (Suc i) dests) (\<lambda>signatures.
     Ok (signature # signatures)))))"

definition newOutboundMessage :: "'w client_ext \<Rightarrow> string list \<Rightarrow> bytes list \<Rightarrow> int32 \<Rightarrow> ('w, outbound_message) client_act" where
  "newOutboundMessage x dests plds maxHoldingSeconds =
     bnd (obj (\<lambda>c. c)) (\<lambda>c.
       case cl_node c of
         None \<Rightarrow> crash NilDereference
       | Some node \<Rightarrow>
     bnd (of_res (DecodeString (nd_PubKey node))) (\<lambda>nodePk.
     bnd (of_res (SerializationUnsigned (cx_pb x) nodePk)) (\<lambda>sigChainElemSerialized.
     bnd (env_val (cx_randUint32 x)) (\<lambda>nonce.
     bnd (if cl_sigChainBlockHash c \<noteq> [] then of_res (DecodeString (cl_sigChainBlockHash c)) else ret []) (\<lambda>blockHash.
     bnd (of_res (sign_dests x c
            \<lparr>sg_Nonce = nonce, sg_DataSize = 0, sg_BlockHash = blockHash, sg_SrcId = cl_addressID c, sg_SrcPubkey = cl_publicKey c,
             sg_DestId = [], sg_DestPubkey = [], sg_NextPubkey = nodePk\<rparr> sigChainElemSerialized plds 0 dests)) (\<lambda>signatures.
     ret \<lparr>om_Dests = dests, om_Payloads = plds, om_MaxHoldingSeconds = maxHoldingSeconds, om_Nonce = nonce,
          om_BlockHash = blockHash, om_Signatures = signatures\<rparr>))))))"

definition newClientMessage :: "'w client_ext \<Rightarrow> outbound_message \<Rightarrow> client_message result" where
  "newClientMessage x outboundMsg =
     and_then (MarshalOutbound (cx_pb x) outboundMsg) (\<lambda>outboundMsgData.
       if length (om_Payloads outboundMsg) > 1
       then and_then (zlib_compress (cx_pb x) outboundMsgData) (\<lambda>b.
              Ok \<lparr>cm_MessageType = OUTBOUND_MESSAGE, cm_Message = b, cm_Zlib = True\<rparr>)
       else Ok \<lparr>cm_MessageType = OUTBOUND_MESSAGE, cm_Message = outboundMsgData, cm_Zlib = False\<rparr>)"

section \<open>Batches\<close>

text \<open>
  The loop that fills batches: \<open>items\<close> pairs what is left of the destinations with their payloads,
  \<open>destList\<close>, \<open>pldList\<close> and \<open>totalSize\<close> are the batch being filled. It returns the finished messages
  and the last batch. (Its caller runs it only with as many payloads as destinations.)
\<close>

definition item_size :: "string \<times> bytes \<Rightarrow> nat" where
  "item_size it = length (snd it) + length (fst it) + SignatureSize"

fun batch_loop :: "'w client_ext \<Rightarrow> int32 \<Rightarrow> (string \<times> bytes) list \<Rightarrow> string list \<Rightarrow> bytes list \<Rightarrow> nat \<Rightarrow>
    ('w, outbound_message list \<times> string list \<times> bytes list) client_act" where
  "batch_loop x maxHoldingSeconds [] destList pldList totalSize = ret ([], destList, pldList)"
| "batch_loop x maxHoldingSeconds (it # items) destList pldList totalSize =
     (if item_size it > maxClientMessageSize then throw ErrMessageOversize
      else if totalSize + item_size it > maxClientMessageSize
      then bnd (newOutboundMessage x destList pldList maxHoldingSeconds) (\<lambda>outboundMsg.
           bnd (batch_loop x maxHoldingSeconds items [fst it] [snd it] (item_size it)) (\<lambda>(outboundMsgs, lastDests, lastPlds).
           ret (outboundMsg # outboundMsgs, lastDests, lastPlds)))
      else batch_loop x maxHoldingSeconds items (destList @ [fst it]) (pldList @ [snd it]) (totalSize + item_size it))"

definition one_batch :: "string list \<Rightarrow> bytes list \<Rightarrow> ('w, outbound_message list \<times> string list \<times> bytes list) client_act" where
  "one_batch dests plds =
     (case plds of
        [] \<Rightarrow> crash IndexOutOfRange
      | pld # _ \<Rightarrow>
          if length pld + (\<Sum>dest \<leftarrow> dests. length dest + SignatureSize) > maxClientMessageSize
          then throw ErrMessageOversize else ret ([], dests, plds))"

text \<open>All outbound messages of one send.\<close>

definition newOutboundMessages :: "'w client_ext \<Rightarrow> string list \<Rightarrow> bytes list \<Rightarrow> int32 \<Rightarrow> ('w, outbound_message list) client_act" where
  "newOutboundMessages x dests plds maxHoldingSeconds =
     bnd (if length plds > 1 then batch_loop x maxHoldingSeconds (zip dests plds) [] [] 0 else one_batch dests plds)
       (\<lambda>(outboundMsgs, destList, pldList).
     bnd (newOutboundMessage x destList pldList maxHoldingSeconds) (\<lambda>outboundMsg.
     ret (outboundMsgs @ [outboundMsg])))"

fun write_all :: "'w client_ext \<Rightarrow> duration \<Rightarrow> outbound_message list \<Rightarrow> ('w, unit) client_act" where
  "write_all x writeTimeout [] = ret ()"
| "write_all x writeTimeout (outboundMsg # outboundMsgs) =
     bnd (of_res (newClientMessage x outboundMsg)) (\<lambda>clientMsg.
     bnd (of_res (MarshalClientMessage (cx_pb x) clientMsg)) (\<lambda>buf.
     bnd (write_counted x buf writeTimeout) (\<lambda>_.
     write_all x writeTimeout outboundMsgs)))"

definition sendTimeout :: "'w client_ext \<Rightarrow> string list \<Rightarrow> payload \<Rightarrow> bool \<Rightarrow> int32 \<Rightarrow> duration \<Rightarrow> ('w, unit) client_act" where
  "sendTimeout x dests payload encrypted maxHoldingSeconds writeTimeout =
     (let maxHolding = (if maxHoldingSeconds <s 0 then 0 else maxHoldingSeconds) in
      bnd (obj (\<lambda>c. c)) (\<lambda>c.
      bnd (env (processDests x c dests)) (\<lambda>dests.
        if length dests = 0 then ret ()
        else
      bnd (newPayloads x dests payload encrypted) (\<lambda>plds.
      bnd (newOutboundMessages x dests plds maxHolding) (\<lambda>outboundMsgs.
      write_all x writeTimeout outboundMsgs)))))"

definition client_send :: "'w client_ext \<Rightarrow> string list \<Rightarrow> payload \<Rightarrow> bool \<Rightarrow> int32 \<Rightarrow> ('w, unit) client_act" where
  "client_send x dests payload encrypted maxHoldingSeconds =
     bnd (obj cl_config) (\<lambda>config.
     sendTimeout x dests payload encrypted maxHoldingSeconds (millis (cc_WsWriteTimeout config)))"

section \<open>Send\<close>

text \<open>An event is emitted if the event channel is set; its time is read then.\<close>

definition emit_event :: "'w client_ext \<Rightarrow> (int64 \<Rightarrow> message_event) \<Rightarrow> ('w, unit) client_act" where
  "emit_event x ev =
     bnd (obj cl_OnMessageEvent) (\<lambda>oe.
       case oe of
         None \<Rightarrow> ret ()
       | Some oe \<Rightarrow> bnd (env_val (cx_now x)) (\<lambda>t.
           focus (\<lambda>c. oe) (\<lambda>oe' c. c\<lparr>cl_OnMessageEvent := Some oe'\<rparr>) (OnMessageEvent_receive (ev t))))"

definition send_event :: "message_event_type \<Rightarrow> string \<Rightarrow> int32 \<Rightarrow> string list \<Rightarrow> payload \<Rightarrow> message_config \<Rightarrow> err option \<Rightarrow> int64 \<Rightarrow> message_event" where
  "send_event ty addr subClientID dests payload cfg err t =
     \<lparr>me_Type = ty, me_ClientAddr = addr, me_SubClientID = subClientID,
      me_Destinations = (if length dests > 0 then Some dests else None), me_Src = [], me_MessageID = pl_MessageId payload,
      me_MessageType = pl_Type payload, me_Encrypted = (\<not> mc_Unencrypted cfg), me_DataSize = 0, me_NoReply = mc_NoReply cfg,
      me_Error = err, me_Timestamp = t\<rparr>"

text \<open>The payload of a send: a payload is taken as it is, other data are wrapped.\<close>

definition payload_of :: "'w client_ext \<Rightarrow> idata \<Rightarrow> message_config \<Rightarrow> ('w, err, payload) act" where
  "payload_of x data cfg =
     (case data of
        DPayload p \<Rightarrow> ret p
      | _ \<Rightarrow> newMessagePayload (cx_proto x) (cx_rand x) data (mc_MessageID cfg) (mc_NoReply cfg))"

definition new_reply_chan :: "('w, nat) client_act" where
  "new_reply_chan =
     bnd (obj (\<lambda>c. length (cl_replyChans c))) (\<lambda>i.
     bnd (upd (\<lambda>c. c\<lparr>cl_replyChans := cl_replyChans c @ [NewOnMessage 1 False]\<rparr>)) (\<lambda>_. ret i))"

definition Client_Send :: "'w client_ext \<Rightarrow> string list \<Rightarrow> idata \<Rightarrow> message_config option \<Rightarrow> ('w, nat) client_act" where
  "Client_Send x dests data conf =
     bnd (obj (\<lambda>c. c)) (\<lambda>c.
     bnd (of_res (MergeMessageConfig (copy_message_config x) (cc_MessageConfig (cl_config c)) conf)) (\<lambda>cfg.
     bnd (env (Client_ResolveDestsContext x c dests)) (\<lambda>destArr.
     bnd (env (payload_of x data cfg)) (\<lambda>payload.
     let event = (\<lambda>ty err. send_event ty (cl_address c) (- 1) destArr payload cfg err) in
     bnd (emit_event x (event MessageEventTypeSend None)) (\<lambda>_.
     bnd (attempt (client_send x destArr payload (\<not> mc_Unencrypted cfg) (mc_MaxHoldingSeconds cfg))
            (\<lambda>err. bnd (emit_event x (event MessageEventTypeSendFailed (Some err))) (\<lambda>_. throw err))
            (\<lambda>_. ret ())) (\<lambda>_.
     bnd (emit_event x (event MessageEventTypeSendSuccess None)) (\<lambda>_.
     bnd new_reply_chan (\<lambda>onReply.
     bnd (if \<not> mc_NoReply cfg then env_val (Cache_Add x (pl_MessageId payload) onReply) else ret True) (\<lambda>_.
     ret onReply)))))))))"

definition Client_SendBinary :: "'w client_ext \<Rightarrow> string list \<Rightarrow> bytes \<Rightarrow> message_config option \<Rightarrow> ('w, nat) client_act" where
  "Client_SendBinary x dests data config = Client_Send x dests (DBytes data) config"

definition Client_SendText :: "'w client_ext \<Rightarrow> string list \<Rightarrow> string \<Rightarrow> message_config option \<Rightarrow> ('w, nat) client_act" where
  "Client_SendText x dests data config = Client_Send x dests (DString data) config"

definition Client_SendPayload :: "'w client_ext \<Rightarrow> string list \<Rightarrow> payload \<Rightarrow> message_config option \<Rightarrow> ('w, nat) client_act" where
  "Client_SendPayload x dests payload config = Client_Send x dests (DPayload payload) config"

section \<open>Publish\<close>

text \<open>
  What \<^verbatim>\<open>publish\<close> uses of a client or multiclient (\<^verbatim>\<open>clientInterface\<close>). The loop asks for further pages
  while the first page was full: its condition reads the variable that holds the first page, which the
  loop does not change, so the loop may not end: not returning is \<open>None\<close>.
\<close>

record 's publisher =
  pc_MessageConfig :: message_config
  pc_GetSubscribers :: "string \<Rightarrow> int \<Rightarrow> int \<Rightarrow> bool \<Rightarrow> bool \<Rightarrow> bytes \<Rightarrow> ('s, err, subscribers) act"
  pc_send :: "string list \<Rightarrow> payload \<Rightarrow> bool \<Rightarrow> int32 \<Rightarrow> ('s, err, unit) act"

partial_function (option) publish_loop ::
  "(int \<Rightarrow> ('s, err, subscribers) act) \<Rightarrow> int \<Rightarrow> int \<Rightarrow> int \<Rightarrow> string list \<Rightarrow> 's \<Rightarrow> (string list result \<times> 's) option" where
  "publish_loop query nSubscribers limit offset dests s =
     (if nSubscribers \<ge> limit
      then (case query (offset + limit) s of
              (Ok res, s') \<Rightarrow> publish_loop query nSubscribers limit (offset + limit) (dests @ map fst (sb_Subscribers res)) s'
            | (Err e, s') \<Rightarrow> Some (Err e, s')
            | (Panic p, s') \<Rightarrow> Some (Panic p, s'))
      else Some (Ok dests, s))"

definition publish_dests :: "'s publisher \<Rightarrow> string \<Rightarrow> message_config \<Rightarrow> 's \<Rightarrow> (string list result \<times> 's) option" where
  "publish_dests pc topic cfg s =
     (case pc_GetSubscribers pc topic (sint (mc_Offset cfg)) (sint (mc_Limit cfg)) False (mc_TxPool cfg) [] s of
        (Err e, s') \<Rightarrow> Some (Err e, s')
      | (Panic p, s') \<Rightarrow> Some (Panic p, s')
      | (Ok res, s') \<Rightarrow>
          (case publish_loop (\<lambda>offset. pc_GetSubscribers pc topic offset (sint (mc_Limit cfg)) False False [])
                  (int (length (sb_Subscribers res))) (sint (mc_Limit cfg)) (sint (mc_Offset cfg)) (map fst (sb_Subscribers res)) s' of
             None \<Rightarrow> None
           | Some (r, s'') \<Rightarrow>
               Some (and_then r (\<lambda>dests. Ok (dests @ (if mc_TxPool cfg then map fst (sb_SubscribersInTxPool res) else []))), s'')))"

definition publish :: "message_config copier \<Rightarrow> (bytes \<Rightarrow> bool \<Rightarrow> ('s, err, payload) act) \<Rightarrow>
    's publisher \<Rightarrow> string \<Rightarrow> message_config option \<Rightarrow> 's \<Rightarrow> (unit result \<times> 's) option" where
  "publish copy newPayload pc topic conf s =
     (case MergeMessageConfig copy (pc_MessageConfig pc) conf of
        Err e \<Rightarrow> Some (Err e, s)
      | Panic p \<Rightarrow> Some (Panic p, s)
      | Ok cfg \<Rightarrow>
          (case newPayload (mc_MessageID cfg) True s of
             (Err e, s1) \<Rightarrow> Some (Err e, s1)
           | (Panic p, s1) \<Rightarrow> Some (Panic p, s1)
           | (Ok payload, s1) \<Rightarrow>
               (case publish_dests pc topic cfg s1 of
                  None \<Rightarrow> None
                | Some (Err e, s2) \<Rightarrow> Some (Err e, s2)
                | Some (Panic p, s2) \<Rightarrow> Some (Panic p, s2)
                | Some (Ok dests, s2) \<Rightarrow>
                    Some (pc_send pc dests payload (\<not> mc_Unencrypted cfg) (mc_MaxHoldingSeconds cfg) s2))))"

definition client_publisher :: "'w client_ext \<Rightarrow> client \<Rightarrow> (client \<times> 'w) publisher" where
  "client_publisher x c =
     \<lparr>pc_MessageConfig = cc_MessageConfig (cl_config c),
      pc_GetSubscribers = (\<lambda>topic offset limit meta txPool hashPrefix.
        bnd (obj (\<lambda>c. c)) (\<lambda>c. env (Client_GetSubscribersContext (cx_net x) c topic offset limit meta txPool hashPrefix))),
      pc_send = client_send x\<rparr>"

definition Client_Publish :: "'w client_ext \<Rightarrow> string \<Rightarrow> idata \<Rightarrow> message_config option \<Rightarrow> client \<times> 'w \<Rightarrow> (unit result \<times> (client \<times> 'w)) option" where
  "Client_Publish x topic data conf s =
     publish (copy_message_config x)
       (\<lambda>messageID noReply. env (newMessagePayload (cx_proto x) (cx_rand x) data messageID noReply))
       (client_publisher x (fst s)) topic conf s"

definition Client_PublishBinary :: "'w client_ext \<Rightarrow> string \<Rightarrow> bytes \<Rightarrow> message_config option \<Rightarrow> client \<times> 'w \<Rightarrow> (unit result \<times> (client \<times> 'w)) option" where
  "Client_PublishBinary x topic data = Client_Publish x topic (DBytes data)"

definition Client_PublishText :: "'w client_ext \<Rightarrow> string \<Rightarrow> string \<Rightarrow> message_config option \<Rightarrow> client \<times> 'w \<Rightarrow> (unit result \<times> (client \<times> 'w)) option" where
  "Client_PublishText x topic data = Client_Publish x topic (DString data)"

section \<open>Lemmas on batches\<close>

definition batch_size :: "(string \<times> bytes) list \<Rightarrow> nat" where
  "batch_size b = (\<Sum>it \<leftarrow> b. item_size it)"

text \<open>What an outbound message costs by the code's own count: its payloads and, per destination, address and signature.\<close>

definition om_size :: "outbound_message \<Rightarrow> nat" where
  "om_size om = (\<Sum>p \<leftarrow> om_Payloads om. length p) + (\<Sum>d \<leftarrow> om_Dests om. length d + SignatureSize)"

lemma batch_size_simps [simp]:
  "batch_size [] = 0" "batch_size (it # b) = item_size it + batch_size b" "batch_size (b @ b') = batch_size b + batch_size b'"
  by (simp_all add: batch_size_def)

lemma om_size_zip:
  "length (om_Dests om) = length (om_Payloads om) \<Longrightarrow> om_size om = batch_size (zip (om_Dests om) (om_Payloads om))"
proof -
  have "length ds = length ps \<Longrightarrow> (\<Sum>p \<leftarrow> ps. length p) + (\<Sum>d \<leftarrow> ds. length d + SignatureSize) = batch_size (zip ds ps)" for ds ps
    by (induction ds ps rule: list_induct2) (simp_all add: item_size_def)
  then show "length (om_Dests om) = length (om_Payloads om) \<Longrightarrow> ?thesis" by (simp add: om_size_def)
qed

lemma sign_dests_length: "sign_dests x c sc ser plds i dests = Ok sigs \<Longrightarrow> length sigs = length dests"
  by (induction dests arbitrary: i sigs) (auto simp: Let_def split: if_splits)

lemma newOutboundMessage_OkE:
  assumes "newOutboundMessage x dests plds mh (c, w) = (Ok om, s)"
  shows "om_Dests om = dests \<and> om_Payloads om = plds \<and> length (om_Signatures om) = length dests \<and>
     om_MaxHoldingSeconds om = mh \<and> fst s = c"
  using assms unfolding newOutboundMessage_def
  by (auto simp: of_res_def bnd_def env_val_def dest: sign_dests_length split: option.splits res.splits prod.splits if_splits)

definition batch_of :: "outbound_message \<Rightarrow> (string \<times> bytes) list" where
  "batch_of om = zip (om_Dests om) (om_Payloads om)"

definition good_batch :: "outbound_message \<Rightarrow> bool" where
  "good_batch om \<longleftrightarrow> length (om_Dests om) = length (om_Payloads om) \<and> om_Dests om \<noteq> [] \<and>
     batch_size (batch_of om) \<le> maxClientMessageSize \<and> length (om_Signatures om) = length (om_Dests om)"

lemma batch_loop_spec:
  assumes "batch_loop x mh items dl pl tot (c, w) = (Ok (oms, ld, lp), s)"
    and "length dl = length pl" and "tot = batch_size (zip dl pl)" and "tot \<le> maxClientMessageSize"
    and "dl = [] \<longrightarrow> items \<noteq> []"
  shows "concat (map batch_of oms) @ zip ld lp = zip dl pl @ items \<and> list_all good_batch oms \<and>
     length ld = length lp \<and> ld \<noteq> [] \<and> batch_size (zip ld lp) \<le> maxClientMessageSize \<and> fst s = c"
  using assms
proof (induction items arbitrary: dl pl tot oms w)
  case Nil
  then show ?case by (auto simp: batch_of_def)
next
  case (Cons it items)
  have small: "item_size it \<le> maxClientMessageSize"
    using Cons.prems(1) by (auto split: if_splits)
  show ?case
  proof (cases "tot + item_size it > maxClientMessageSize")
    case False
    with Cons.prems small have "batch_loop x mh items (dl @ [fst it]) (pl @ [snd it]) (tot + item_size it) (c, w) = (Ok (oms, ld, lp), s)"
      by simp
    from Cons.IH [OF this] Cons.prems False show ?thesis by simp
  next
    case True
    let ?rest = "\<lambda>om. bnd (batch_loop x mh items [fst it] [snd it] (item_size it)) (\<lambda>(oms, ld, lp). ret (om # oms, ld, lp))"
    from True small Cons.prems(1) have "bnd (newOutboundMessage x dl pl mh) ?rest (c, w) = (Ok (oms, ld, lp), s)" by simp
    then obtain om s1 where om: "newOutboundMessage x dl pl mh (c, w) = (Ok om, s1)"
      and r: "?rest om s1 = (Ok (oms, ld, lp), s)" by (rule bnd_OkE)
    from newOutboundMessage_OkE [OF om] obtain w1 where f: "om_Dests om = dl" "om_Payloads om = pl"
      "length (om_Signatures om) = length dl" and s1: "s1 = (c, w1)" by (cases s1) auto
    from r s1 obtain oms' where l: "batch_loop x mh items [fst it] [snd it] (item_size it) (c, w1) = (Ok (oms', ld, lp), s)"
      and oms: "oms = om # oms'" by (auto elim!: bnd_OkE)
    have "dl \<noteq> []" using True small Cons.prems(2,3) by auto
    with f Cons.prems(2-4) have "good_batch om" by (auto simp: good_batch_def batch_of_def)
    with Cons.IH [OF l] small oms f show ?thesis by (simp add: batch_of_def)
  qed
qed

lemma concat_batches_split:
  "list_all good_batch oms \<Longrightarrow>
    concat (map om_Dests oms) = map fst (concat (map batch_of oms)) \<and>
    concat (map om_Payloads oms) = map snd (concat (map batch_of oms))"
  by (induction oms) (simp_all add: batch_of_def good_batch_def)

lemma encrypt_keys_length: "encrypt_keys x key e mn dests s = (Ok msgs, t) \<Longrightarrow> length msgs = length dests"
  by (induction dests arbitrary: s msgs) (auto elim!: bnd_OkE split: prod.splits)

lemma newPayloads_length:
  assumes "newPayloads x dests p enc s = (Ok plds, t)"
  shows "length plds = length dests \<or> length plds = 1"
  using assms
  by (auto simp: newPayloads_def encryptPayload_def elim!: bnd_OkE split: if_splits list.splits prod.splits)
    (metis encrypt_keys_length)

text \<open>What \<^verbatim>\<open>sendTimeout\<close> puts on the wire for processed destinations and their payloads.\<close>

definition covers :: "string list \<Rightarrow> bytes list \<Rightarrow> outbound_message list \<Rightarrow> bool" where
  "covers dests plds oms \<longleftrightarrow> concat (map om_Dests oms) = dests \<and> concat (map om_Payloads oms) = plds \<and>
     (\<forall>om \<in> set oms. om_Dests om \<noteq> [] \<and> om_size om \<le> maxClientMessageSize \<and>
        length (om_Signatures om) = length (om_Dests om))"

lemma newOutboundMessages_covers:
  assumes "newOutboundMessages x dests plds mh (c, w) = (Ok oms, s)" and "dests \<noteq> []"
    and "length plds = length dests \<or> length plds = 1"
  shows "covers dests plds oms"
proof -
  let ?build = "if length plds > 1 then batch_loop x mh (zip dests plds) [] [] 0 else one_batch dests plds"
  let ?last = "\<lambda>(oms, dl, pl). bnd (newOutboundMessage x dl pl mh) (\<lambda>om. ret (oms @ [om]))"
  from assms(1) obtain z s1 where b: "?build (c, w) = (Ok z, s1)" and r: "?last z s1 = (Ok oms, s)"
    unfolding newOutboundMessages_def by (rule bnd_OkE)
  obtain oms' dl pl where z: "z = (oms', dl, pl)" by (cases z)
  show ?thesis
  proof (cases "length plds > 1")
    case True
    with assms(3) have len: "length plds = length dests" by simp
    from True b z have "batch_loop x mh (zip dests plds) [] [] 0 (c, w) = (Ok (oms', dl, pl), s1)" by simp
    moreover have "plds \<noteq> []" using len assms(2) by auto
    ultimately have spec: "concat (map batch_of oms') @ zip dl pl = zip dests plds"
      "list_all good_batch oms'" "length dl = length pl" "dl \<noteq> []" "batch_size (zip dl pl) \<le> maxClientMessageSize" "fst s1 = c"
      using batch_loop_spec [of x mh "zip dests plds" "[]" "[]" 0 c w oms' dl pl s1] assms(2) by auto
    from r z obtain om where om: "newOutboundMessage x dl pl mh s1 = (Ok om, s)" and oms: "oms = oms' @ [om]"
      by (auto elim!: bnd_OkE)
    from newOutboundMessage_OkE [of x dl pl mh "fst s1" "snd s1" om s] om have f: "om_Dests om = dl" "om_Payloads om = pl"
      "length (om_Signatures om) = length dl" by simp_all
    from f spec have "good_batch om" by (auto simp: good_batch_def batch_of_def)
    with spec(2) have good: "list_all good_batch oms" by (simp add: oms)
    have "concat (map batch_of oms) = zip dests plds" using spec(1) f by (simp add: oms batch_of_def)
    with concat_batches_split [OF good] len good show ?thesis
      by (auto simp: covers_def good_batch_def list_all_iff om_size_zip batch_of_def)
  next
    case False
    with b z obtain pld where p: "plds = [pld]" "oms' = []" "dl = dests" "pl = plds" "s1 = (c, w)"
      and sz: "length pld + (\<Sum>d \<leftarrow> dests. length d + SignatureSize) \<le> maxClientMessageSize"
      using assms(3) by (auto simp: one_batch_def split: list.splits if_splits)
    with r z obtain om where "newOutboundMessage x dests plds mh (c, w) = (Ok om, s)" and "oms = [om]"
      by (auto elim!: bnd_OkE)
    with newOutboundMessage_OkE [of x dests plds mh c w om s] p sz assms(2) show ?thesis by (simp add: covers_def om_size_def)
  qed
qed

section \<open>Lemmas on publishing\<close>

text \<open>If the loop returns at all, the first page was not full or a query failed.\<close>

lemma publish_loop_returns:
  assumes "publish_loop query n limit offset dests s = Some y"
  shows "n < limit \<and> y = (Ok dests, s) \<or> limit \<le> n \<and> (\<exists>offset s'. \<not> is_ok (fst (query offset s')))"
proof (rule publish_loop.raw_induct [OF _ assms])
  fix loop query and n limit offset :: int and dests s y
  assume IH: "\<And>q n l off ds s y. loop q n l off ds s = Some y \<Longrightarrow>
      n < l \<and> y = (Ok ds, s) \<or> l \<le> n \<and> (\<exists>offset s'. \<not> is_ok (fst (q offset s')))"
    and body: "(if limit \<le> n then case query (offset + limit) s of
        (Ok res, s') \<Rightarrow> loop query n limit (offset + limit) (dests @ map fst (sb_Subscribers res)) s'
      | (Err e, s') \<Rightarrow> Some (Err e, s') | (Panic p, s') \<Rightarrow> Some (Panic p, s') else Some (Ok dests, s)) = Some y"
  show "n < limit \<and> y = (Ok dests, s) \<or> limit \<le> n \<and> (\<exists>offset s'. \<not> is_ok (fst (query offset s')))"
  proof (cases "limit \<le> n")
    case True
    obtain r s' where q: "query (offset + limit) s = (r, s')" by fastforce
    show ?thesis
    proof (cases r)
      case (Ok res)
      with True q body have "loop query n limit (offset + limit) (dests @ map fst (sb_Subscribers res)) s' = Some y" by simp
      from IH [OF this] True show ?thesis by auto
    qed (use True q in \<open>metis fst_conv is_ok.simps(2,3)\<close>)+
  qed (use body in simp)
qed

lemma publish_loop_done: "n < limit \<Longrightarrow> publish_loop query n limit offset dests s = Some (Ok dests, s)"
  by (subst publish_loop.simps) simp

section \<open>Properties\<close>

text \<open>
  C12: A message is split without loss: when \<^verbatim>\<open>sendTimeout\<close> succeeds, the outbound messages it wrote, in
  order, together carry exactly the processed destinations and their payloads in the given order; no
  batch is empty, each has one signature per destination, and each stays within the 4000000 bytes the
  node accepts, by the code's own count. If no destination is left after processing, nothing is written.
\<close>

theorem sendTimeout_batches:
  assumes "sendTimeout x dests p enc mh t (c, w) = (Ok (), s)"
  shows "\<exists>ds w1. processDests x c dests w = (Ok ds, w1) \<and> (ds = [] \<and> s = (c, w1) \<or>
     (\<exists>plds s1 oms s2. newPayloads x ds p enc (c, w1) = (Ok plds, s1) \<and>
        newOutboundMessages x ds plds (if mh <s 0 then 0 else mh) s1 = (Ok oms, s2) \<and> covers ds plds oms \<and>
        write_all x t oms s2 = (Ok (), s)))"
proof -
  let ?rest = "\<lambda>ds. if length ds = 0 then ret () else bnd (newPayloads x ds p enc) (\<lambda>plds.
      bnd (newOutboundMessages x ds plds (if mh <s 0 then 0 else mh)) (\<lambda>oms. write_all x t oms))"
  from assms have "bnd (env (processDests x c dests)) ?rest (c, w) = (Ok (), s)"
    by (simp add: sendTimeout_def Let_def)
  then obtain ds s0 where "env (processDests x c dests) (c, w) = (Ok ds, s0)" and r: "?rest ds s0 = (Ok (), s)" by (rule bnd_OkE)
  then obtain w1 where d: "processDests x c dests w = (Ok ds, w1)" and s0: "s0 = (c, w1)" by (elim env_OkE)
  show ?thesis
  proof (cases "ds = []")
    case True
    with r s0 d show ?thesis by simp
  next
    case False
    with r s0 obtain plds s1 where p: "newPayloads x ds p enc (c, w1) = (Ok plds, s1)"
      and r1: "bnd (newOutboundMessages x ds plds (if mh <s 0 then 0 else mh)) (\<lambda>oms. write_all x t oms) s1 = (Ok (), s)"
      by (simp only: length_0_conv if_False) (rule bnd_OkE)
    from r1 obtain oms s2 where o: "newOutboundMessages x ds plds (if mh <s 0 then 0 else mh) s1 = (Ok oms, s2)"
      and wr: "write_all x t oms s2 = (Ok (), s)" by (rule bnd_OkE)
    obtain c1 v1 where s1: "s1 = (c1, v1)" by fastforce
    from newOutboundMessages_covers [OF _ False newPayloads_length [OF p], of x _ c1 v1 oms s2] o s1
    have "covers ds plds oms" by blast
    with d p o wr show ?thesis by blast
  qed
qed

definition demo_dest :: string where "demo_dest = replicate 64 CHR ''a''"

lemma demo_processDests: "processDests demo_cx demo_client [demo_dest] () = (Ok [demo_dest], ())"
proof -
  have split: "Split demo_dest = [demo_dest]" by (rule Split_plain) (simp add: demo_dest_def)
  show ?thesis
    by (simp add: processDests_def processDest_def split Let_def PublicKeySize_def attempt_def bnd_def)
       (simp add: demo_dest_def)
qed

lemma demo_sendTimeout: "\<exists>s. sendTimeout demo_cx [demo_dest] demo_payload False 0 t (demo_client, ()) = (Ok (), s)"
proof -
  obtain pld where p: "newPayloads demo_cx [demo_dest] demo_payload False (demo_client, ()) = (Ok [pld], (demo_client, ()))"
    and l: "length pld < 1000"
    by (simp add: newPayloads_def demo_cx_def dotted_proto_def demo_payload_def BinaryType_def dotted_def bool_bytes_def)
  have n: "\<exists>om. newOutboundMessage demo_cx [demo_dest] [pld] 0 (demo_client, ()) = (Ok om, (demo_client, ()))"
    by (simp add: newOutboundMessage_def demo_client_def DecodeString_def demo_cx_def demo_pb_def)
  then obtain oms where "newOutboundMessages demo_cx [demo_dest] [pld] 0 (demo_client, ()) = (Ok oms, (demo_client, ()))"
    using l by (auto simp: newOutboundMessages_def one_batch_def demo_dest_def SignatureSize_def maxClientMessageSize_def bnd_Ok)
  moreover have "write_counted demo_cx buf t (demo_client, ()) = (Ok (), (demo_client, ()))" for buf t
    by (simp add: write_counted_def writeMessage_def attempt_def demo_client_def demo_cx_def)
  then have "write_all demo_cx t oms (demo_client, ()) = (Ok (), (demo_client, ()))" for oms
  proof (induction oms)
    case (Cons om oms)
    have "\<exists>m b. newClientMessage demo_cx om = Ok m \<and> MarshalClientMessage (cx_pb demo_cx) m = Ok b"
      by (simp add: newClientMessage_def demo_cx_def demo_pb_def)
    with Cons show ?case by (auto simp: bnd_Ok)
  qed simp
  ultimately show ?thesis using demo_processDests p by (simp add: sendTimeout_def Let_def bnd_Ok)
qed

theorem sendTimeout_batches_witness:
  "\<exists>plds s1 oms s2. newPayloads demo_cx [demo_dest] demo_payload False (demo_client, ()) = (Ok plds, s1) \<and>
     newOutboundMessages demo_cx [demo_dest] plds 0 s1 = (Ok oms, s2) \<and> covers [demo_dest] plds oms"
proof -
  from demo_sendTimeout [of 1000] obtain s where "sendTimeout demo_cx [demo_dest] demo_payload False 0 1000 (demo_client, ()) = (Ok (), s)" by blast
  from sendTimeout_batches [OF this] demo_processDests show ?thesis by auto
qed

text \<open>
  Publishing reaches every subscriber once, as long as they fit on one page: when the first page of
  subscribers is not full, \<^verbatim>\<open>publish\<close> ends, and what it does is to send the payload to the subscribers on
  that page, followed by those in the transaction pool if these are to be counted.
\<close>

theorem publish_one_page:
  assumes "MergeMessageConfig copy (pc_MessageConfig pc) conf = Ok cfg"
    and "newPayload (mc_MessageID cfg) True s = (Ok payload, s1)"
    and "pc_GetSubscribers pc topic (sint (mc_Offset cfg)) (sint (mc_Limit cfg)) False (mc_TxPool cfg) [] s1 = (Ok res, s2)"
    and "int (length (sb_Subscribers res)) < sint (mc_Limit cfg)"
  shows "publish copy newPayload pc topic conf s =
     Some (pc_send pc (map fst (sb_Subscribers res) @ (if mc_TxPool cfg then map fst (sb_SubscribersInTxPool res) else []))
       payload (\<not> mc_Unencrypted cfg) (mc_MaxHoldingSeconds cfg) s2)"
  using assms by (simp add: publish_def publish_dests_def publish_loop_done)

definition demo_publisher :: "unit publisher" where
  "demo_publisher = \<lparr>pc_MessageConfig = DefaultMessageConfig,
     pc_GetSubscribers = (\<lambda>topic offset limit meta txPool hashPrefix. ret \<lparr>sb_Subscribers = [(''bob'', [])], sb_SubscribersInTxPool = []\<rparr>),
     pc_send = (\<lambda>dests p enc mh. if dests = [''bob''] then ret () else throw ErrNoDestination)\<rparr>"

theorem publish_one_page_witness:
  "publish (\<lambda>base c. Ok base) (\<lambda>messageID noReply. ret demo_payload) demo_publisher ''topic'' None () = Some (Ok (), ())"
  using publish_one_page [where copy = "\<lambda>base c. Ok base" and pc = demo_publisher and conf = None and cfg = DefaultMessageConfig
    and newPayload = "\<lambda>messageID noReply. ret demo_payload" and payload = demo_payload and s = "()" and ?s1.0 = "()" and ?s2.0 = "()"
    and topic = "''topic''" and res = "\<lparr>sb_Subscribers = [(''bob'', [])], sb_SubscribersInTxPool = []\<rparr>"]
  by (simp add: MergeMessageConfig_def demo_publisher_def DefaultMessageConfig_def)

text \<open>
  C33: Publishing to more subscribers than fit on one page never ends: when the first page is full and the
  queries for further pages succeed, as they do on a topic with any number of subscribers, \<^verbatim>\<open>publish\<close> does
  not return and sends nothing. The condition of its loop looks at the first page only.
\<close>

theorem publish_full_page_diverges:
  assumes "MergeMessageConfig copy (pc_MessageConfig pc) conf = Ok cfg"
    and "newPayload (mc_MessageID cfg) True s = (Ok payload, s1)"
    and "\<And>offset txPool v. is_ok (fst (pc_GetSubscribers pc topic offset (sint (mc_Limit cfg)) False txPool [] v))"
    and "pc_GetSubscribers pc topic (sint (mc_Offset cfg)) (sint (mc_Limit cfg)) False (mc_TxPool cfg) [] s1 = (Ok res, s2)"
    and "sint (mc_Limit cfg) \<le> int (length (sb_Subscribers res))"
  shows "publish copy newPayload pc topic conf s = None"
proof -
  let ?query = "\<lambda>offset. pc_GetSubscribers pc topic offset (sint (mc_Limit cfg)) False False []"
  have "publish_loop ?query (int (length (sb_Subscribers res))) (sint (mc_Limit cfg)) (sint (mc_Offset cfg))
      (map fst (sb_Subscribers res)) s2 = None"
  proof (rule ccontr)
    assume "publish_loop ?query (int (length (sb_Subscribers res))) (sint (mc_Limit cfg)) (sint (mc_Offset cfg))
      (map fst (sb_Subscribers res)) s2 \<noteq> None"
    then obtain y where "publish_loop ?query (int (length (sb_Subscribers res))) (sint (mc_Limit cfg)) (sint (mc_Offset cfg))
      (map fst (sb_Subscribers res)) s2 = Some y" by blast
    from publish_loop_returns [OF this] assms(3,5) show False by auto
  qed
  with assms show ?thesis by (simp add: publish_def publish_dests_def)
qed

theorem publish_full_page_diverges_witness:
  "publish (\<lambda>base c. Ok (overlay_message base c)) (\<lambda>messageID noReply. ret demo_payload) demo_publisher ''topic''
     (Some (DefaultMessageConfig\<lparr>mc_Limit := 1\<rparr>)) () = None"
  by (rule publish_full_page_diverges [where cfg = "DefaultMessageConfig\<lparr>mc_Limit := 1\<rparr>" and payload = demo_payload and ?s1.0 = "()"
      and ?s2.0 = "()" and res = "\<lparr>sb_Subscribers = [(''bob'', [])], sb_SubscribersInTxPool = []\<rparr>"])
    (simp_all add: MergeMessageConfig_def demo_publisher_def overlay_message_def overlay_def DefaultMessageConfig_def)

text \<open>
  \<^verbatim>\<open>Send\<close> on a closed client crashes: the event channel is closed with the client, and \<^verbatim>\<open>Send\<close> writes to
  it before it looks at anything that could fail because of the close.
\<close>

theorem closed_client_Send_panics:
  assumes "cl_OnMessageEvent c = Some oe" and "\<not> oe_Callback oe" and "ch_closed (oe_C oe)"
    and "MergeMessageConfig (copy_message_config x) (cc_MessageConfig (cl_config c)) conf = Ok cfg"
    and "Client_ResolveDestsContext x c dests w = (Ok destArr, w1)" and "payload_of x data cfg w1 = (Ok payload, w2)"
  shows "fst (Client_Send x dests data conf (c, w)) = Panic SendOnClosedChannel"
proof -
  have "fst (emit_event x ev (c, w2)) = Panic SendOnClosedChannel" for ev
    using assms(1-3) by (simp add: emit_event_def OnMessageEvent_receive_def on_receive_def chan_try_send_def)
  moreover have "env (Client_ResolveDestsContext x c dests) (c, w) = (Ok destArr, (c, w1))"
    and "env (payload_of x data cfg) (c, w1) = (Ok payload, (c, w2))"
    using assms(5,6) by simp_all
  ultimately show ?thesis using assms(4) by (simp add: Client_Send_def bnd_Ok Let_def fst_bnd_Panic)
qed

definition demo_closed_client :: client where
  "demo_closed_client = demo_client\<lparr>cl_OnMessageEvent :=
     Some \<lparr>oe_C = \<lparr>ch_buf = [], ch_cap = 1, ch_closed = True\<rparr>, oe_Callback = False, oe_calls = []\<rparr>\<rparr>"

theorem closed_client_Send_panics_witness:
  "fst (Client_Send demo_cx [''bob''] (DPayload demo_payload) None (demo_closed_client, ())) = Panic SendOnClosedChannel"
proof -
  have "MergeMessageConfig (copy_message_config demo_cx) m None = Ok m" for m by (simp add: MergeMessageConfig_def)
  moreover have "Client_ResolveDestsContext demo_cx demo_closed_client [''bob''] () = (Ok [''bob''], ())"
    by (simp add: Client_ResolveDestsContext_def demo_closed_client_def demo_client_def GetDefaultClientConfig_def
        ResolveDests_no_resolvers [of 16] word_sless_alt)
  moreover have "payload_of demo_cx (DPayload demo_payload) m () = (Ok demo_payload, ())" for m by (simp add: payload_of_def)
  ultimately show ?thesis
    using closed_client_Send_panics [of demo_closed_client _ demo_cx None _ "[''bob'']" "()" _ _ "DPayload demo_payload"]
    by (simp add: demo_closed_client_def)
qed

end
