(* ===== verification/Nkn_Client_Msg.thy ===== *)
theory Nkn_Client_Msg
  imports Nkn_Client_Send
begin

text \<open>
  Closing a client and the messages it receives (\<^verbatim>\<open>src/client.go\<close>): \<^verbatim>\<open>Close\<close> and the whole of
  \<^verbatim>\<open>handleMessage\<close>, split into the branches of its switch statements. A goroutine that the code starts
  here is appended to the client's tasks. A nil pointer in the map of raw JSON fields, for a key that is
  missing or null, is dereferenced by the code and panics.
\<close>

section \<open>Close\<close>

definition close_events :: "('w, unit) client_act" where
  "close_events =
     bnd (focus cl_OnConnect (\<lambda>ev c. c\<lparr>cl_OnConnect := ev\<rparr>) OnConnect_close) (\<lambda>_.
     bnd (focus cl_OnMessage (\<lambda>ev c. c\<lparr>cl_OnMessage := ev\<rparr>) OnMessage_close) (\<lambda>_.
     bnd (obj cl_OnMessageEvent) (\<lambda>oe.
       case oe of
         None \<Rightarrow> ret ()
       | Some oe \<Rightarrow> focus (\<lambda>c. oe) (\<lambda>ev c. c\<lparr>cl_OnMessageEvent := Some ev\<rparr>) OnMessageEvent_close)))"

definition close_reconnectChan :: "('w, unit) client_act" where
  "close_reconnectChan =
     bnd (obj cl_reconnectChan) (\<lambda>rq.
       if rq_Closed rq then crash CloseOfClosedChannel
       else upd (\<lambda>c. c\<lparr>cl_reconnectChan := rq\<lparr>rq_Closed := True\<rparr>\<rparr>))"

definition close_challenge :: "('w, unit) client_act" where
  "close_challenge = focus cl_chChallengeSignature (\<lambda>ch c. c\<lparr>cl_chChallengeSignature := ch\<rparr>) chan_close"

definition Client_Close :: "'w client_ext \<Rightarrow> ('w, unit) client_act" where
  "Client_Close x =
     bnd (obj (\<lambda>c. c)) (\<lambda>c.
       if cl_isClosed c then ret ()
       else
     bnd (upd (\<lambda>c. c\<lparr>cl_isClosed := True, cl_State := ConnDisconnected\<rparr>)) (\<lambda>_.
     bnd close_events (\<lambda>_.
     bnd close_reconnectChan (\<lambda>_.
       case cl_conn c of
         None \<Rightarrow> crash NilDereference
       | Some conn \<Rightarrow>
           attempt (env (Conn_Close x conn))
             (\<lambda>err. bnd close_challenge (\<lambda>_. throw err))
             (\<lambda>_. close_challenge)))))"

section \<open>Text messages\<close>

datatype ws_type = TextMessage | BinaryMessage | OtherMessageType

definition setClientAction :: string where "setClientAction = ''setClient''"
definition authChallengeAction :: string where "authChallengeAction = ''authChallenge''"

definition unmarshal :: "'r decoder \<Rightarrow> 'r \<Rightarrow> json \<Rightarrow> 'r result" where
  "unmarshal d old j = (case d old j of (r, good) \<Rightarrow> if good then Ok r else Err (ExternalError ''encoding/json''))"

text \<open>\<^verbatim>\<open>map[string]*json.RawMessage\<close>, and the decoding of one of its entries.\<close>

definition raw_message :: "'w net_ext \<Rightarrow> bytes \<Rightarrow> (string \<times> json) list result" where
  "raw_message net data =
     (case Json_Parse net data of
        None \<Rightarrow> Err (ExternalError ''encoding/json'')
      | Some j \<Rightarrow> unmarshal dec_map [] j)"

definition raw_get :: "(string \<times> json) list \<Rightarrow> string \<Rightarrow> 'r decoder \<Rightarrow> 'r \<Rightarrow> 'r result" where
  "raw_get msg key d old =
     (case map_get msg key of
        None \<Rightarrow> Panic NilDereference
      | Some JNull \<Rightarrow> Panic NilDereference
      | Some j \<Rightarrow> unmarshal d old j)"

definition spawn :: "task \<Rightarrow> ('w, unit) client_act" where
  "spawn t = upd (\<lambda>c. c\<lparr>cl_tasks := cl_tasks c @ [t]\<rparr>)"

definition handle_error :: "'w client_ext \<Rightarrow> (string \<times> json) list \<Rightarrow> string \<Rightarrow> int \<Rightarrow> ('w, unit) client_act" where
  "handle_error x msg action errCode =
     bnd (if errCode = ErrCode_WRONG_NODE x
          then bnd (of_res (raw_get msg ''Result'' dec_node zero_node)) (\<lambda>node. spawn (TReconnect (Some node)))
          else if action = setClientAction then attempt (Client_Close x) (\<lambda>_. ret ()) (\<lambda>_. ret ())
          else ret ()) (\<lambda>_.
     throw (errorWithCode (ExternalError (ErrCode_Message x errCode)) (word_of_int errCode)))"

record set_client_result =
  sc_Node :: "node option"
  sc_SigChainBlockHash :: string

fun dec_node_ptr :: "node option decoder" where
  "dec_node_ptr old JNull = (None, True)"
| "dec_node_ptr old j = (case dec_node (case old of None \<Rightarrow> zero_node | Some n \<Rightarrow> n) j of (n, good) \<Rightarrow> (Some n, good))"

definition dec_setClientResult :: "set_client_result decoder" where
  "dec_setClientResult = dec_struct
     [(''node'', at_field sc_Node (\<lambda>v r. r\<lparr>sc_Node := v\<rparr>) dec_node_ptr),
      (''sigChainBlockHash'', at_field sc_SigChainBlockHash (\<lambda>v r. r\<lparr>sc_SigChainBlockHash := v\<rparr>) dec_string)]"

definition set_connected :: "int64 \<Rightarrow> client \<Rightarrow> client" where
  "set_connected t c =
     c\<lparr>cl_Stats := Some (case cl_Stats c of
          None \<Rightarrow> zero_stats\<lparr>cs_ConnectTime := t\<rparr>
        | Some stats \<Rightarrow>
            if cl_State c \<noteq> ConnConnected
            then stats\<lparr>cs_ReconnectCount := cs_ReconnectCount stats + 1, cs_LastReconnect := t\<rparr>
            else stats),
       cl_State := ConnConnected\<rparr>"

definition handle_setClient :: "'w client_ext \<Rightarrow> (string \<times> json) list \<Rightarrow> ('w, unit) client_act" where
  "handle_setClient x msg =
     bnd (of_res (raw_get msg ''Result'' dec_setClientResult \<lparr>sc_Node = None, sc_SigChainBlockHash = []\<rparr>)) (\<lambda>result.
     bnd (env_val (cx_now x)) (\<lambda>now.
     bnd (upd (\<lambda>c. c\<lparr>cl_sigChainBlockHash := sc_SigChainBlockHash result\<rparr>)) (\<lambda>_.
     bnd (obj (\<lambda>c. c)) (\<lambda>c.
       if cl_isClosed c then ret ()
       else
     bnd (upd (set_connected now)) (\<lambda>_.
     focus cl_OnConnect (\<lambda>ev c. c\<lparr>cl_OnConnect := ev\<rparr>) (OnConnect_receive (cl_node c)))))))"

definition handle_challenge :: "'w client_ext \<Rightarrow> (string \<times> json) list \<Rightarrow> ('w, unit) client_act" where
  "handle_challenge x msg =
     bnd (of_res (raw_get msg ''Challenge'' dec_string [])) (\<lambda>challenge.
     bnd (of_res (DecodeString challenge)) (\<lambda>byteChallenge.
     bnd (env (RandomBytes (cx_rand x) 32)) (\<lambda>clientSalt.
     bnd (obj cl_account) (\<lambda>account.
     bnd (of_res (crypto_Sign x (ac_PrivateKey account) (Sha256 x (byteChallenge @ clientSalt)))) (\<lambda>signature.
     focus cl_chChallengeSignature (\<lambda>ch c. c\<lparr>cl_chChallengeSignature := ch\<rparr>)
       (chan_try_send \<lparr>ss_ClientSalt = clientSalt, ss_Signature = signature\<rparr>))))))"

definition handle_text :: "'w client_ext \<Rightarrow> bytes \<Rightarrow> ('w, unit) client_act" where
  "handle_text x data =
     bnd (of_res (raw_message (cx_net x) data)) (\<lambda>msg.
     bnd (of_res (raw_get msg ''Action'' dec_string [])) (\<lambda>action.
     bnd (of_res (raw_get msg ''Error'' (dec_ErrCode x) 0)) (\<lambda>errCode.
       if errCode \<noteq> ErrCode_SUCCESS x then handle_error x msg action errCode
       else if action = setClientAction then handle_setClient x msg
       else if action = ''updateSigChainBlockHash''
       then bnd (of_res (raw_get msg ''Result'' dec_string [])) (\<lambda>sigChainBlockHash.
              upd (\<lambda>c. c\<lparr>cl_sigChainBlockHash := sigChainBlockHash\<rparr>))
       else if action = authChallengeAction then handle_challenge x msg
       else ret ())))"

section \<open>Binary messages\<close>

definition open_payload :: "'w client_ext \<Rightarrow> wire_message \<Rightarrow> string \<Rightarrow> ('w, bytes) client_act" where
  "open_payload x payloadMsg src =
     bnd (obj cl_config) (\<lambda>config.
       if wm_Encrypted payloadMsg then decryptPayload x payloadMsg src
       else if cc_AllowUnencrypted config then ret (wm_Payload payloadMsg)
       else throw ErrUnencryptedMessage)"

definition receive_event :: "message_event_type \<Rightarrow> string \<Rightarrow> message \<Rightarrow> int64 \<Rightarrow> message_event" where
  "receive_event ty addr msg t =
     \<lparr>me_Type = ty, me_ClientAddr = addr, me_SubClientID = - 1, me_Destinations = None, me_Src = m_Src msg,
      me_MessageID = m_MessageID msg, me_MessageType = m_Type msg, me_Encrypted = m_Encrypted msg,
      me_DataSize = length (m_Data msg), me_NoReply = m_NoReply msg, me_Error = None, me_Timestamp = t\<rparr>"

text \<open>
  A reply goes to the channel that waits for it, if there still is one. The cache holds only channels
  that \<^verbatim>\<open>Send\<close> has made, so an index outside the list does not arise.
\<close>

definition deliver_reply :: "'w client_ext \<Rightarrow> message \<Rightarrow> bytes \<Rightarrow> ('w, unit) client_act" where
  "deliver_reply x msg replyToId =
     bnd (env_val (Cache_Get x replyToId)) (\<lambda>onReply.
       case onReply of
         None \<Rightarrow> ret ()
       | Some i \<Rightarrow>
           bnd (env_val (Cache_Delete x replyToId)) (\<lambda>_.
           bnd (obj cl_address) (\<lambda>addr.
           bnd (emit_event x (receive_event MessageEventTypeReceiveReply addr msg)) (\<lambda>_.
           bnd (obj cl_replyChans) (\<lambda>chans.
             if i < length chans
             then focus (\<lambda>c. chans ! i) (\<lambda>ev c. c\<lparr>cl_replyChans := (cl_replyChans c)[i := ev]\<rparr>) (OnMessage_receive msg)
             else ret ())))))"

definition deliver_message :: "'w client_ext \<Rightarrow> message \<Rightarrow> ('w, unit) client_act" where
  "deliver_message x msg =
     bnd (obj cl_address) (\<lambda>addr.
     bnd (emit_event x (receive_event MessageEventTypeReceive addr msg)) (\<lambda>_.
     bnd (obj cl_isClosed) (\<lambda>isClosed.
       if isClosed then ret ()
       else focus cl_OnMessage (\<lambda>ev c. c\<lparr>cl_OnMessage := ev\<rparr>)
              (OnMessage_receive (msg\<lparr>m_reply :=
                 (if m_NoReply msg then IgnoreReply else SendReply (m_Src msg) (m_MessageID msg) (m_Encrypted msg))\<rparr>)))))"

definition handle_inbound :: "'w client_ext \<Rightarrow> inbound_message \<Rightarrow> ('w, unit) client_act" where
  "handle_inbound x inboundMsg =
     bnd (if length (im_PrevHash inboundMsg) > 0 then spawn (TSendReceipt (im_PrevHash inboundMsg)) else ret ()) (\<lambda>_.
     bnd (of_res (UnmarshalMessage (cx_proto x) (im_Payload inboundMsg))) (\<lambda>payloadMsg.
     bnd (open_payload x payloadMsg (im_Src inboundMsg)) (\<lambda>payloadBytes.
     bnd (of_res (UnmarshalPayload (cx_proto x) payloadBytes)) (\<lambda>payload.
     bnd (of_res (payload_data (cx_proto x) payload)) (\<lambda>data.
     let msg = \<lparr>m_Src = im_Src inboundMsg, m_Data = data, m_Type = pl_Type payload, m_Encrypted = wm_Encrypted payloadMsg,
                m_MessageID = pl_MessageId payload, m_NoReply = pl_NoReply payload, m_reply = NilReply\<rparr>
     in if length (pl_ReplyToId payload) > 0 then deliver_reply x msg (pl_ReplyToId payload) else deliver_message x msg)))))"

definition handle_binary :: "'w client_ext \<Rightarrow> bytes \<Rightarrow> ('w, unit) client_act" where
  "handle_binary x data =
     bnd (of_res (UnmarshalClientMessage (cx_pb x) data)) (\<lambda>clientMsg.
       if cm_MessageType clientMsg = INBOUND_MESSAGE
       then bnd (of_res (UnmarshalInbound (cx_pb x) (cm_Message clientMsg))) (handle_inbound x)
       else ret ())"

definition handleMessage :: "'w client_ext \<Rightarrow> ws_type \<Rightarrow> bytes \<Rightarrow> ('w, unit) client_act" where
  "handleMessage x msgType data =
     bnd (obj (\<lambda>c. c)) (\<lambda>c.
       if Client_IsClosed c then ret ()
       else (case msgType of
               TextMessage \<Rightarrow> handle_text x data
             | BinaryMessage \<Rightarrow> handle_binary x data
             | OtherMessageType \<Rightarrow> ret ()))"

text \<open>\<^verbatim>\<open>Reply\<close> on a message that a client delivered.\<close>

definition Client_Message_Reply :: "'w client_ext \<Rightarrow> message \<Rightarrow> idata \<Rightarrow> ('w, unit) client_act" where
  "Client_Message_Reply x msg data =
     Message_Reply (cx_proto x) (\<lambda>n. env (cx_rand x n)) (client_send x) msg data"

section \<open>What every operation keeps\<close>

text \<open>
  The invariant of a client: as long as it is not closed, none of its channels is; its state is one of
  the three; its key cache is coherent; and once it has been connected (\<open>up\<close>) it has a connection and a node.
\<close>

definition events_open :: "client \<Rightarrow> bool" where
  "events_open c \<longleftrightarrow> \<not> ch_closed (oe_C (cl_OnConnect c)) \<and> \<not> ch_closed (oe_C (cl_OnMessage c)) \<and>
     (case cl_OnMessageEvent c of None \<Rightarrow> True | Some oe \<Rightarrow> \<not> ch_closed (oe_C oe))"

definition channels_open :: "client \<Rightarrow> bool" where
  "channels_open c \<longleftrightarrow> events_open c \<and> \<not> rq_Closed (cl_reconnectChan c) \<and> \<not> ch_closed (cl_chChallengeSignature c)"

definition client_inv :: "bool \<Rightarrow> 'w client_ext \<Rightarrow> client \<Rightarrow> bool" where
  "client_inv up x c \<longleftrightarrow> keys_coherent x c \<and> (cl_isClosed c \<or> channels_open c) \<and>
     cl_State c \<in> {ConnConnecting, ConnConnected, ConnDisconnected} \<and> (up \<longrightarrow> cl_conn c \<noteq> None \<and> cl_node c \<noteq> None)"

abbreviation keeps_client :: "bool \<Rightarrow> 'w client_ext \<Rightarrow> ('w, 'a) client_act \<Rightarrow> bool" where
  "keeps_client up x m \<equiv> keeps (\<lambda>s. client_inv up x (fst s)) m"

lemmas client_inv_defs = client_inv_def channels_open_def events_open_def keys_coherent_def

lemma keeps_Pair [keeps_intros]: "keeps P (Pair r)"
  by (simp add: keeps_def)

lemma keeps_client_upd [keeps_intros]:
  "(\<And>c. client_inv up x c \<Longrightarrow> client_inv up x (f c)) \<Longrightarrow> keeps_client up x (upd f)"
  by (rule keeps_upd) simp

text \<open>An action on one channel keeps the invariant if it never closes the channel.\<close>

declare keeps_focus [keeps_intros del]

lemma keeps_client_focus:
  assumes "\<And>c. client_inv up x c \<Longrightarrow> client_inv up x (setf (snd (m (getf c))) c)"
  shows "keeps_client up x (focus getf setf m)"
  using assms by (auto simp: keeps_def)

lemma on_receive_closed: "ch_closed (oe_C (snd (on_receive v ev))) = ch_closed (oe_C ev)"
  by (simp add: on_receive_def chan_try_send_def)

lemma keeps_emit_event [keeps_intros]: "keeps_client up x (emit_event x ev)"
  by (auto simp: keeps_def emit_event_def client_inv_defs OnMessageEvent_defs on_receive_closed
      split: option.splits)

lemma keeps_getOrComputeSharedKey [keeps_intros]: "keeps_client up x (getOrComputeSharedKey x pk)"
proof -
  have "client_inv up x (fst (snd (getOrComputeSharedKey x pk (c, w))))" if "client_inv up x c" for c w
  proof -
    from that have k: "keys_coherent x c" by (simp add: client_inv_def)
    from getOrComputeSharedKey_same [OF k, of pk w] that show ?thesis
      by (cases "getOrComputeSharedKey x pk (c, w)") (auto simp: same_but_keys_def client_inv_defs)
  qed
  then show ?thesis by (auto simp: keeps_def)
qed

lemma keeps_Reconnect [keeps_intros]: "keeps_client up x (Client_Reconnect node)"
  by (auto simp: keeps_def Client_Reconnect_def client_inv_defs)

lemma keeps_writeMessage [keeps_intros]: "keeps_client up x (writeMessage x buf t)"
  unfolding writeMessage_def by (intro keeps_intros) simp_all

lemma keeps_write_counted [keeps_intros]: "keeps_client up x (write_counted x buf t)"
  unfolding write_counted_def
  by (intro keeps_intros) (simp_all add: client_inv_defs count_failure_def Let_def)

lemma keeps_sendReceipt [keeps_intros]: "keeps_client up x (sendReceipt x h)"
  unfolding sendReceipt_def by (intro keeps_intros)

lemma keeps_seal_for [keeps_intros]: "keeps_client up x (seal_for x dest m)"
  unfolding seal_for_def by (intro keeps_intros) simp

lemma keeps_encrypt_keys [keeps_intros]: "keeps_client up x (encrypt_keys x key e n dests)"
  by (induction dests) (auto intro!: keeps_intros)

lemma keeps_encryptPayload [keeps_intros]: "keeps_client up x (encryptPayload x p dests)"
  unfolding encryptPayload_def
  by (intro keeps_intros) (auto intro!: keeps_intros split: list.splits)

lemma keeps_decryptPayload [keeps_intros]: "keeps_client up x (decryptPayload x m src)"
  unfolding decryptPayload_def by (intro keeps_intros)

lemma keeps_newPayloads [keeps_intros]: "keeps_client up x (newPayloads x dests p enc)"
  unfolding newPayloads_def by (intro keeps_intros)

lemma keeps_newOutboundMessage [keeps_intros]: "keeps_client up x (newOutboundMessage x dests plds mh)"
  unfolding newOutboundMessage_def by (intro keeps_intros) simp_all

lemma keeps_batch_loop [keeps_intros]: "keeps_client up x (batch_loop x mh items dl pl n)"
  by (induction items arbitrary: dl pl n) (auto intro!: keeps_intros)

lemma keeps_newOutboundMessages [keeps_intros]: "keeps_client up x (newOutboundMessages x dests plds mh)"
  unfolding newOutboundMessages_def one_batch_def
  by (intro keeps_intros) (auto intro!: keeps_intros split: list.splits)

lemma keeps_write_all [keeps_intros]: "keeps_client up x (write_all x t oms)"
  by (induction oms) (auto intro!: keeps_intros)

lemma keeps_sendTimeout [keeps_intros]: "keeps_client up x (sendTimeout x dests p enc mh t)"
  unfolding sendTimeout_def Let_def by (intro keeps_intros) simp_all

lemma keeps_client_send [keeps_intros]: "keeps_client up x (client_send x dests p enc mh)"
  unfolding client_send_def by (intro keeps_intros)

lemma keeps_Send [keeps_intros]: "keeps_client up x (Client_Send x dests data conf)"
  unfolding Client_Send_def new_reply_chan_def Let_def
  by (intro keeps_intros) (simp_all add: client_inv_defs)

text \<open>Closing: step by step, it keeps the invariant even where it panics.\<close>

lemma keeps_shut_events:
  "keeps (\<lambda>s. client_inv up x (fst s) \<and> cl_isClosed (fst s)) close_events"
  "keeps (\<lambda>s. client_inv up x (fst s) \<and> cl_isClosed (fst s)) close_reconnectChan"
  "keeps (\<lambda>s. client_inv up x (fst s) \<and> cl_isClosed (fst s)) close_challenge"
  unfolding close_events_def close_reconnectChan_def close_challenge_def
  by (intro keeps_intros keeps_focus; simp add: client_inv_defs)+

lemma keeps_Close [keeps_intros]: "keeps_client up x (Client_Close x)"
proof -
  have K: "keeps (\<lambda>s. client_inv up x (fst s) \<and> cl_isClosed (fst s)) (bnd close_events (\<lambda>_. bnd close_reconnectChan (\<lambda>_.
      case cn of None \<Rightarrow> crash NilDereference
      | Some conn \<Rightarrow> attempt (env (Conn_Close x conn)) (\<lambda>err. bnd close_challenge (\<lambda>_. throw err)) (\<lambda>_. close_challenge))))" for cn
    by (intro keeps_intros keeps_shut_events) simp
  have "client_inv up x (fst (snd (Client_Close x (c, w))))" if "client_inv up x c" for c w
    using that keepsD [OF K, of "(c\<lparr>cl_isClosed := True, cl_State := ConnDisconnected\<rparr>, w)" "cl_conn c"]
    by (simp add: Client_Close_def) (simp add: client_inv_defs)
  then show ?thesis by (auto simp: keeps_def)
qed

lemma Client_Close_closed: "cl_isClosed c \<Longrightarrow> Client_Close x (c, w) = (Ok (), (c, w))"
  by (simp add: Client_Close_def)

lemma Client_Close_open:
  assumes "\<not> cl_isClosed c" and "channels_open c" and "cl_conn c = Some k" and "Conn_Close x k w = (r, w')" and "\<not> is_panic r"
  shows "Client_Close x (c, w) = (r, (c\<lparr>cl_isClosed := True, cl_State := ConnDisconnected,
      cl_OnConnect := (cl_OnConnect c)\<lparr>oe_C := (oe_C (cl_OnConnect c))\<lparr>ch_closed := True\<rparr>\<rparr>,
      cl_OnMessage := (cl_OnMessage c)\<lparr>oe_C := (oe_C (cl_OnMessage c))\<lparr>ch_closed := True\<rparr>\<rparr>,
      cl_OnMessageEvent := map_option (\<lambda>oe. oe\<lparr>oe_C := (oe_C oe)\<lparr>ch_closed := True\<rparr>\<rparr>) (cl_OnMessageEvent c),
      cl_reconnectChan := (cl_reconnectChan c)\<lparr>rq_Closed := True\<rparr>,
      cl_chChallengeSignature := (cl_chChallengeSignature c)\<lparr>ch_closed := True\<rparr>\<rparr>, w'))"
proof -
  let ?c1 = "c\<lparr>cl_isClosed := True, cl_State := ConnDisconnected\<rparr>"
  let ?c2 = "?c1\<lparr>cl_OnConnect := (cl_OnConnect c)\<lparr>oe_C := (oe_C (cl_OnConnect c))\<lparr>ch_closed := True\<rparr>\<rparr>,
      cl_OnMessage := (cl_OnMessage c)\<lparr>oe_C := (oe_C (cl_OnMessage c))\<lparr>ch_closed := True\<rparr>\<rparr>,
      cl_OnMessageEvent := map_option (\<lambda>oe. oe\<lparr>oe_C := (oe_C oe)\<lparr>ch_closed := True\<rparr>\<rparr>) (cl_OnMessageEvent c)\<rparr>"
  have ev: "close_events (?c1, w) = (Ok (), (?c2, w))"
    using assms(2)
    by (auto simp: close_events_def channels_open_def events_open_def OnConnect_close_def OnMessage_close_def
        OnMessageEvent_close_def on_close_def chan_close_def bnd_def split: option.splits)
  have rq: "close_reconnectChan (?c2, w) = (Ok (), (?c2\<lparr>cl_reconnectChan := (cl_reconnectChan c)\<lparr>rq_Closed := True\<rparr>\<rparr>, w))"
    using assms(2) by (simp add: close_reconnectChan_def channels_open_def)
  show ?thesis
    using assms by (cases r) (simp_all add: Client_Close_def bnd_Ok ev rq attempt_def close_challenge_def
        chan_close_def channels_open_def bnd_def)
qed

lemma keeps_spawn [keeps_intros]: "keeps_client up x (spawn t)"
  unfolding spawn_def by (intro keeps_intros) (simp add: client_inv_defs)

lemma keeps_handle_error [keeps_intros]: "keeps_client up x (handle_error x msg action e)"
  unfolding handle_error_def by (intro keeps_intros)

lemma keeps_handle_setClient [keeps_intros]: "keeps_client up x (handle_setClient x msg)"
  unfolding handle_setClient_def
  by (intro keeps_intros keeps_client_focus)
    (simp_all add: client_inv_defs set_connected_def OnConnect_receive_def on_receive_closed)

lemma keeps_handle_challenge [keeps_intros]: "keeps_client up x (handle_challenge x msg)"
  unfolding handle_challenge_def
  by (intro keeps_intros keeps_client_focus) (auto simp: client_inv_defs chan_try_send_def)

lemma keeps_handle_text [keeps_intros]: "keeps_client up x (handle_text x data)"
  unfolding handle_text_def by (intro keeps_intros) (simp_all add: client_inv_defs)

lemma keeps_deliver_reply [keeps_intros]: "keeps_client up x (deliver_reply x msg rid)"
  unfolding deliver_reply_def by (intro keeps_intros keeps_client_focus) (simp_all add: client_inv_defs)

lemma keeps_deliver_message [keeps_intros]: "keeps_client up x (deliver_message x msg)"
  unfolding deliver_message_def
  by (intro keeps_intros keeps_client_focus) (simp_all add: client_inv_defs OnMessage_receive_def on_receive_closed)

lemma keeps_handle_inbound [keeps_intros]: "keeps_client up x (handle_inbound x im)"
  unfolding handle_inbound_def open_payload_def Let_def by (intro keeps_intros)

lemma keeps_handle_binary [keeps_intros]: "keeps_client up x (handle_binary x data)"
  unfolding handle_binary_def by (intro keeps_intros)

lemma keeps_handleMessage [keeps_intros]: "keeps_client up x (handleMessage x ty data)"
  unfolding handleMessage_def by (intro keeps_intros) (cases ty; auto intro!: keeps_intros)+

section \<open>Lemmas on delivery\<close>

lemma emit_event_ok:
  assumes "events_open c"
  shows "\<exists>oe w'. emit_event x ev (c, w) = (Ok (), (c\<lparr>cl_OnMessageEvent := oe\<rparr>, w')) \<and> w' \<in> {w, snd (cx_now x w)}"
  using assms
  by (cases "cl_OnMessageEvent c")
    (auto simp: emit_event_def events_open_def OnMessageEvent_receive_def on_receive_def chan_try_send_def
      intro: exI [of _ "cl_OnMessageEvent c"])

definition with_reply :: "message \<Rightarrow> message" where
  "with_reply msg = msg\<lparr>m_reply := (if m_NoReply msg then IgnoreReply else SendReply (m_Src msg) (m_MessageID msg) (m_Encrypted msg))\<rparr>"

lemma deliver_message_ok:
  assumes "events_open c" and "\<not> cl_isClosed c"
  shows "\<exists>oe w'. deliver_message x msg (c, w) =
    (Ok (), (c\<lparr>cl_OnMessageEvent := oe, cl_OnMessage := snd (OnMessage_receive (with_reply msg) (cl_OnMessage c))\<rparr>, w')) \<and>
    w' \<in> {w, snd (cx_now x w)}"
proof -
  from emit_event_ok [OF assms(1), of x "receive_event MessageEventTypeReceive (cl_address c) msg" w] obtain oe w' where
    e: "emit_event x (receive_event MessageEventTypeReceive (cl_address c) msg) (c, w) = (Ok (), (c\<lparr>cl_OnMessageEvent := oe\<rparr>, w'))"
    and w': "w' \<in> {w, snd (cx_now x w)}" by blast
  have "fst (OnMessage_receive m (cl_OnMessage c)) = Ok ()" for m
    using assms(1) by (intro on_message.receive_open_ok) (simp add: events_open_def)
  with assms(2) e w' show ?thesis by (intro exI [of _ oe] exI [of _ w']) (simp add: deliver_message_def bnd_Ok with_reply_def)
qed

lemma same_but_keys_simps:
  assumes "same_but_keys x c c'"
  shows "events_open c' = events_open c" "cl_isClosed c' = cl_isClosed c" "cl_OnMessage c' = cl_OnMessage c"
    "cl_address c' = cl_address c" "cl_replyChans c' = cl_replyChans c" "cl_config c' = cl_config c" "cl_tasks c' = cl_tasks c"
  using assms by (auto simp: same_but_keys_def events_open_def)

text \<open>
  What it means that a client accepts a wire message: it is sealed with the key that the client shares
  with the address the message names as its source, or the client allows unencrypted messages.
\<close>

definition opens_with :: "'w client_ext \<Rightarrow> bytes \<Rightarrow> wire_message \<Rightarrow> bytes \<Rightarrow> bool" where
  "opens_with x k wm raw \<longleftrightarrow>
     (if wm_EncryptedKey wm = [] then decrypt (cx_box x) (wm_Payload wm) (copy_array nonceSize (wm_Nonce wm)) k = Ok raw
      else (\<exists>key. decrypt (cx_box x) (wm_EncryptedKey wm) (copy_array nonceSize (take nonceSize (wm_Nonce wm))) k = Ok key \<and>
              decrypt (cx_box x) (wm_Payload wm) (copy_array nonceSize (drop nonceSize (wm_Nonce wm))) (copy_array sharedKeySize key) = Ok raw))"

definition accepted :: "'w client_ext \<Rightarrow> client \<Rightarrow> string \<Rightarrow> wire_message \<Rightarrow> bytes \<Rightarrow> bool" where
  "accepted x c src wm raw \<longleftrightarrow>
     (if wm_Encrypted wm
      then (\<exists>pk k. dest_pubkey x src = Ok pk \<and> shared_key x (cl_curveSecretKey c) pk = Ok k \<and> opens_with x k wm raw)
      else cc_AllowUnencrypted (cl_config c) \<and> raw = wm_Payload wm)"

lemma open_payload_accepted:
  assumes "keys_coherent x c" and "open_payload x wm src (c, w) = (Ok raw, s)"
  shows "accepted x c src wm raw \<and> (\<exists>c'. s = (c', w) \<and> same_but_keys x c c')"
proof (cases "wm_Encrypted wm")
  case True
  with assms(2) have d: "decryptPayload x wm src (c, w) = (Ok raw, s)" by (simp add: open_payload_def)
  then obtain pk k s' where pk: "dest_pubkey x src = Ok pk" and g: "getOrComputeSharedKey x pk (c, w) = (Ok k, s')"
    unfolding decryptPayload_def by (auto split: if_splits)
  from getOrComputeSharedKey_same [OF assms(1) g] obtain c' where "s' = (c', w)" and "same_but_keys x c c'"
    and "shared_key x (cl_curveSecretKey c) pk = Ok k" by auto
  moreover from d pk g have "opens_with x k wm raw \<and> s = s'"
    unfolding decryptPayload_def by (auto simp: opens_with_def split: if_splits elim!: bnd_OkE)
  ultimately show ?thesis using True pk by (auto simp: accepted_def)
next
  case False
  with assms show ?thesis by (auto simp: open_payload_def accepted_def same_but_keys_refl split: if_splits)
qed

lemma deliver_reply_OnMessage: "cl_OnMessage (fst (snd (deliver_reply x msg rid (c, w)))) = cl_OnMessage c"
proof -
  have "keeps (\<lambda>s. cl_OnMessage (fst s) = cl_OnMessage c) (emit_event x ev)" for ev
    by (auto simp: keeps_def emit_event_def split: option.splits)
  then have "keeps (\<lambda>s. cl_OnMessage (fst s) = cl_OnMessage c) (deliver_reply x msg rid)"
    unfolding deliver_reply_def by (intro keeps_intros keeps_focus) simp_all
  from keepsD [OF this, of "(c, w)"] show ?thesis by simp
qed

text \<open>If a sequence of actions breaks a predicate that its first action keeps, the first action succeeded.\<close>

lemma bnd_breaksE:
  assumes "\<not> P (snd (bnd m f s))" and "keeps P m" and "P s"
  obtains a s' where "m s = (Ok a, s')" and "P s'" and "\<not> P (snd (f a s'))"
proof -
  obtain r s' where m: "m s = (r, s')" by fastforce
  then have "P s'" using assms(2,3) keepsD_eq by metis
  with m assms(1) that show ?thesis by (cases r) (auto simp: bnd_def)
qed

abbreviation queue_is :: "message list \<Rightarrow> client \<times> 'w \<Rightarrow> bool" where
  "queue_is B s \<equiv> ch_buf (oe_C (cl_OnMessage (fst s))) = B"

lemma keeps_queue:
  "keeps (queue_is B) (emit_event x ev)" "keeps (queue_is B) (Client_Close x)" "keeps (queue_is B) (getOrComputeSharedKey x pk)"
  "keeps (queue_is B) (spawn t)"
  unfolding emit_event_def Client_Close_def close_events_def close_reconnectChan_def close_challenge_def OnMessage_close_def
    getOrComputeSharedKey_def Let_def spawn_def
  by (intro keeps_intros; auto simp: keeps_def on_close_def chan_close_def split: option.splits)+

lemma keeps_queue_text: "keeps (queue_is B) (handle_text x data)"
  unfolding handle_text_def handle_error_def handle_setClient_def handle_challenge_def
  by (intro keeps_intros keeps_queue; auto simp: keeps_def set_connected_def)+

lemma keeps_queue_open: "keeps (queue_is B) (open_payload x wm src)"
  unfolding open_payload_def decryptPayload_def by (intro keeps_intros keeps_queue)

lemma deliver_message_queue:
  assumes "queue_is B s" and "\<not> queue_is B (snd (deliver_message x msg s))"
  shows "queue_is (B @ [with_reply msg]) (snd (deliver_message x msg s))"
proof -
  obtain c w where s: "s = (c, w)" by fastforce
  obtain r c' w' where e: "emit_event x (receive_event MessageEventTypeReceive (cl_address c) msg) (c, w) = (r, (c', w'))"
    by (metis prod.exhaust)
  then have q: "queue_is B (c', w')" using keepsD_eq [OF keeps_queue(1) _ e] assms(1) s by simp
  show ?thesis
    using assms(2) q s e
    by (cases r) (auto simp: deliver_message_def bnd_Ok bnd_Err bnd_Panic with_reply_def OnMessage_receive_def on_receive_def
        chan_try_send_def split: if_splits)
qed

definition inbound_of :: "inbound_message \<Rightarrow> wire_message \<Rightarrow> payload \<Rightarrow> bytes \<Rightarrow> message" where
  "inbound_of im wm p d = \<lparr>m_Src = im_Src im, m_Data = d, m_Type = pl_Type p, m_Encrypted = wm_Encrypted wm,
     m_MessageID = pl_MessageId p, m_NoReply = pl_NoReply p, m_reply = NilReply\<rparr>"

lemma handle_inbound_queue:
  assumes "keys_coherent x c" and "\<not> queue_is B (snd (handle_inbound x im (c, w)))" and "queue_is B (c, w)"
  shows "\<exists>wm raw p d. UnmarshalMessage (cx_proto x) (im_Payload im) = Ok wm \<and> accepted x c (im_Src im) wm raw \<and>
     UnmarshalPayload (cx_proto x) raw = Ok p \<and> payload_data (cx_proto x) p = Ok d \<and> pl_ReplyToId p = [] \<and>
     queue_is (B @ [with_reply (inbound_of im wm p d)]) (snd (handle_inbound x im (c, w)))"
proof -
  let ?start = "if length (im_PrevHash im) > 0 then spawn (TSendReceipt (im_PrevHash im)) else ret ()"
  let ?fin = "\<lambda>wm p d. if length (pl_ReplyToId p) > 0 then deliver_reply x (inbound_of im wm p d) (pl_ReplyToId p)
      else deliver_message x (inbound_of im wm p d)"
  let ?tail = "\<lambda>wm raw. bnd (of_res (UnmarshalPayload (cx_proto x) raw)) (\<lambda>p. bnd (of_res (payload_data (cx_proto x) p)) (?fin wm p))"
  let ?mid = "bnd (of_res (UnmarshalMessage (cx_proto x) (im_Payload im))) (\<lambda>wm. bnd (open_payload x wm (im_Src im)) (?tail wm))"
  define c1 where "c1 = (if length (im_PrevHash im) > 0 then c\<lparr>cl_tasks := cl_tasks c @ [TSendReceipt (im_PrevHash im)]\<rparr> else c)"
  have c1: "?start (c, w) = (Ok (), (c1, w))" by (simp add: c1_def spawn_def)
  have k1: "keys_coherent x c1" "cl_config c1 = cl_config c" "cl_curveSecretKey c1 = cl_curveSecretKey c"
    using assms(1) by (simp_all add: c1_def keys_coherent_def)
  have q1: "queue_is B (c1, w)" using assms(3) by (simp add: c1_def)
  have h: "handle_inbound x im (c, w) = ?mid (c1, w)"
    unfolding handle_inbound_def inbound_of_def Let_def using c1 by (rule bnd_Ok)
  note breaks = bnd_breaksE [where P = "queue_is B"]
  from assms(2) have m0: "\<not> queue_is B (snd (?mid (c1, w)))" unfolding h .
  from m0 keeps_of_res q1 obtain wm where wm: "UnmarshalMessage (cx_proto x) (im_Payload im) = Ok wm"
    and m1: "\<not> queue_is B (snd (bnd (open_payload x wm (im_Src im)) (?tail wm) (c1, w)))" by (rule breaks) auto
  from m1 keeps_queue_open q1 obtain raw s2 where raw: "open_payload x wm (im_Src im) (c1, w) = (Ok raw, s2)" and q2: "queue_is B s2"
    and m2: "\<not> queue_is B (snd (?tail wm raw s2))" by (rule breaks)
  from open_payload_accepted [OF k1(1) raw] k1 have acc: "accepted x c (im_Src im) wm raw" by (auto simp: accepted_def split: if_splits)
  from m2 keeps_of_res q2 obtain p where p: "UnmarshalPayload (cx_proto x) raw = Ok p"
    and m3: "\<not> queue_is B (snd (bnd (of_res (payload_data (cx_proto x) p)) (?fin wm p) s2))" by (rule breaks) auto
  from m3 keeps_of_res q2 obtain d where d: "payload_data (cx_proto x) p = Ok d" and m4: "\<not> queue_is B (snd (?fin wm p d s2))"
    by (rule breaks) auto
  obtain c2 w2 where s2: "s2 = (c2, w2)" by fastforce
  from m4 q2 s2 deliver_reply_OnMessage [of x _ _ c2 w2] have rep: "pl_ReplyToId p = []" by (auto split: if_splits)
  with m4 have "\<not> queue_is B (snd (deliver_message x (inbound_of im wm p d) s2))" by simp
  then have "queue_is (B @ [with_reply (inbound_of im wm p d)]) (snd (deliver_message x (inbound_of im wm p d) s2))"
    by (rule deliver_message_queue [OF q2])
  then have "queue_is (B @ [with_reply (inbound_of im wm p d)]) (snd (handle_inbound x im (c, w)))"
    unfolding h using raw p d rep wm by (simp add: bnd_Ok)
  with wm acc p d rep show ?thesis by blast
qed

lemma handleMessage_queue:
  assumes "keys_coherent x c" and "\<not> queue_is B (snd (handleMessage x ty data (c, w)))" and "queue_is B (c, w)"
  shows "\<not> cl_isClosed c \<and> ty = BinaryMessage \<and> (\<exists>cm im. UnmarshalClientMessage (cx_pb x) data = Ok cm \<and>
     UnmarshalInbound (cx_pb x) (cm_Message cm) = Ok im \<and> handleMessage x ty data (c, w) = handle_inbound x im (c, w))"
proof -
  have op: "\<not> cl_isClosed c" using assms(2,3) by (auto simp: handleMessage_def Client_IsClosed_def)
  have ty: "ty = BinaryMessage"
  proof (cases ty)
    case TextMessage
    with op assms(2) have "\<not> queue_is B (snd (handle_text x data (c, w)))" by (simp add: handleMessage_def Client_IsClosed_def)
    with keepsD [OF keeps_queue_text assms(3)] show ?thesis by blast
  qed (use op assms(2,3) in \<open>auto simp: handleMessage_def Client_IsClosed_def\<close>)
  with op assms(2) have h: "handleMessage x ty data (c, w) = handle_binary x data (c, w)"
    by (simp add: handleMessage_def Client_IsClosed_def)
  show ?thesis
  proof (cases "UnmarshalClientMessage (cx_pb x) data")
    case (Ok cm)
    with assms(2,3) h op ty show ?thesis
      by (cases "UnmarshalInbound (cx_pb x) (cm_Message cm)") (auto simp: handle_binary_def split: if_splits)
  qed (use assms(2,3) h in \<open>auto simp: handle_binary_def\<close>)
qed

section \<open>Properties\<close>

text \<open>
  C5: Only accepted messages reach the application: if handling a websocket message changes the queue of
  \<^verbatim>\<open>OnMessage\<close>, the client was not closed, the message was a binary inbound message, and exactly one message
  was appended. Its data are what the payload decodes to, the payload answers no message of this client,
  and it was sealed with the key that the client shares with the address in its source field, or it was
  unencrypted and the configuration allows that.
\<close>

theorem handleMessage_accepts:
  assumes "keys_coherent x c" and "handleMessage x ty data (c, w) = (r, (c', w'))"
    and "ch_buf (oe_C (cl_OnMessage c')) \<noteq> ch_buf (oe_C (cl_OnMessage c))"
  shows "\<not> cl_isClosed c \<and> ty = BinaryMessage \<and> (\<exists>cm im wm raw p d.
     UnmarshalClientMessage (cx_pb x) data = Ok cm \<and> UnmarshalInbound (cx_pb x) (cm_Message cm) = Ok im \<and>
     UnmarshalMessage (cx_proto x) (im_Payload im) = Ok wm \<and> accepted x c (im_Src im) wm raw \<and>
     UnmarshalPayload (cx_proto x) raw = Ok p \<and> payload_data (cx_proto x) p = Ok d \<and> pl_ReplyToId p = [] \<and>
     ch_buf (oe_C (cl_OnMessage c')) = ch_buf (oe_C (cl_OnMessage c)) @ [with_reply (inbound_of im wm p d)])"
proof -
  let ?B = "ch_buf (oe_C (cl_OnMessage c))"
  have n: "\<not> queue_is ?B (snd (handleMessage x ty data (c, w)))" using assms(2,3) by simp
  from handleMessage_queue [OF assms(1) n] obtain cm im where
    m: "\<not> cl_isClosed c" "ty = BinaryMessage" "UnmarshalClientMessage (cx_pb x) data = Ok cm"
      "UnmarshalInbound (cx_pb x) (cm_Message cm) = Ok im" "handleMessage x ty data (c, w) = handle_inbound x im (c, w)" by auto
  with n assms(2) handle_inbound_queue [where B = ?B and im = im and w = w, OF assms(1)] show ?thesis by (metis fst_conv snd_conv)
qed

lemma demo_client_inv: "client_inv up demo_cx demo_client"
  using demo_client_laws(4)
  by (simp add: client_inv_defs) (simp add: demo_client_def OnConnect_defs OnMessage_defs OnMessageEvent_defs on_event_defs)

definition demo_open_client :: client where
  "demo_open_client = demo_client\<lparr>cl_config := GetDefaultClientConfig\<lparr>cc_AllowUnencrypted := True\<rparr>\<rparr>"

lemma demo_open_inv: "client_inv up demo_cx demo_open_client" "\<not> cl_isClosed demo_open_client" "events_open demo_open_client"
  using demo_client_inv by (simp_all add: demo_open_client_def client_inv_defs, auto simp: demo_client_def)

theorem handleMessage_accepts_witness:
  "\<exists>data c' cm im wm raw p d. handleMessage demo_cx BinaryMessage data (demo_open_client, ()) = (Ok (), (c', ())) \<and>
     UnmarshalClientMessage (cx_pb demo_cx) data = Ok cm \<and> UnmarshalInbound (cx_pb demo_cx) (cm_Message cm) = Ok im \<and>
     accepted demo_cx demo_open_client (im_Src im) wm raw \<and> payload_data (cx_proto demo_cx) p = Ok d \<and>
     ch_buf (oe_C (cl_OnMessage c')) = [with_reply (inbound_of im wm p d)]"
proof -
  obtain raw where raw: "MarshalPayload (cx_proto demo_cx) demo_payload = Ok raw"
    by (simp add: demo_cx_def dotted_proto_def demo_payload_def BinaryType_def)
  let ?wm = "\<lparr>wm_Payload = raw, wm_Encrypted = False, wm_Nonce = [], wm_EncryptedKey = []\<rparr>"
  obtain data where data: "MarshalMessage (cx_proto demo_cx) ?wm = Ok data" by (simp add: demo_cx_def dotted_proto_def)
  let ?im = "\<lparr>im_Src = ''alice'', im_Payload = data, im_PrevHash = []\<rparr>"
  have um: "UnmarshalMessage (cx_proto demo_cx) data = Ok ?wm" "UnmarshalPayload (cx_proto demo_cx) raw = Ok demo_payload"
    using raw data demo_client_laws(3) by (simp_all add: proto_laws_def)
  have "UnmarshalClientMessage (cx_pb demo_cx) data = Ok \<lparr>cm_MessageType = INBOUND_MESSAGE, cm_Message = data, cm_Zlib = False\<rparr>"
    "UnmarshalInbound (cx_pb demo_cx) data = Ok ?im" by (simp_all add: demo_cx_def demo_pb_def)
  then have "handleMessage demo_cx BinaryMessage data (demo_open_client, ()) = handle_inbound demo_cx ?im (demo_open_client, ())"
    using demo_open_inv(2) by (simp add: handleMessage_def handle_binary_def Client_IsClosed_def)
  also have "\<dots> = deliver_message demo_cx (inbound_of ?im ?wm demo_payload ''hello'') (demo_open_client, ())"
    using um by (simp add: handle_inbound_def open_payload_def demo_open_client_def inbound_of_def Let_def bnd_Ok)
      (simp add: payload_data_def demo_payload_def payload_type_defs)
  finally have h: "handleMessage demo_cx BinaryMessage data (demo_open_client, ()) =
      deliver_message demo_cx (inbound_of ?im ?wm demo_payload ''hello'') (demo_open_client, ())" .
  have room: "\<not> oe_Callback (cl_OnMessage demo_open_client)" "\<not> ch_closed (oe_C (cl_OnMessage demo_open_client))"
      "ch_buf (oe_C (cl_OnMessage demo_open_client)) = []" "ch_cap (oe_C (cl_OnMessage demo_open_client)) = 16"
    by (simp_all add: demo_open_client_def demo_client_def on_message.new_empty)
  from deliver_message_ok [OF demo_open_inv(3,2), of demo_cx "inbound_of ?im ?wm demo_payload ''hello''" "()"] h obtain c' where
    c': "handleMessage demo_cx BinaryMessage data (demo_open_client, ()) = (Ok (), (c', ()))"
    and q: "ch_buf (oe_C (cl_OnMessage c')) = [with_reply (inbound_of ?im ?wm demo_payload ''hello'')]"
    using room by (auto simp: on_message.receive_room)
  have k: "keys_coherent demo_cx demo_open_client" using demo_open_inv(1) by (simp add: client_inv_def)
  have "ch_buf (oe_C (cl_OnMessage c')) \<noteq> ch_buf (oe_C (cl_OnMessage demo_open_client))" using q room(3) by simp
  from handleMessage_accepts [OF k c' this] room(3) c' show ?thesis by (metis append_Nil)
qed

text \<open>The payload of a message that whoever holds a secret key opens, and what it then delivers.\<close>

definition opens_as :: "'w client_ext \<Rightarrow> bytes \<Rightarrow> inbound_message \<Rightarrow> payload \<Rightarrow> bool" where
  "opens_as x secret im p \<longleftrightarrow> (\<forall>b v. keys_coherent x b \<and> cl_curveSecretKey b = secret \<longrightarrow>
     (\<exists>wm raw b'. UnmarshalMessage (cx_proto x) (im_Payload im) = Ok wm \<and> wm_Encrypted wm \<and>
        decryptPayload x wm (im_Src im) (b, v) = (Ok raw, (b', v)) \<and> same_but_keys x b b' \<and> UnmarshalPayload (cx_proto x) raw = Ok p))"

definition sealed_message :: "inbound_message \<Rightarrow> payload \<Rightarrow> bytes \<Rightarrow> message" where
  "sealed_message im p d = \<lparr>m_Src = im_Src im, m_Data = d, m_Type = pl_Type p, m_Encrypted = True, m_MessageID = pl_MessageId p,
     m_NoReply = pl_NoReply p, m_reply = NilReply\<rparr>"

definition receipt_spawned :: "inbound_message \<Rightarrow> client \<Rightarrow> client" where
  "receipt_spawned im c = (if length (im_PrevHash im) > 0 then c\<lparr>cl_tasks := cl_tasks c @ [TSendReceipt (im_PrevHash im)]\<rparr> else c)"

lemma receipt_spawned_simps [simp]:
  "keys_coherent x (receipt_spawned im c) = keys_coherent x c" "events_open (receipt_spawned im c) = events_open c"
  "cl_isClosed (receipt_spawned im c) = cl_isClosed c" "cl_curveSecretKey (receipt_spawned im c) = cl_curveSecretKey c"
  "cl_OnMessage (receipt_spawned im c) = cl_OnMessage c" "cl_replyChans (receipt_spawned im c) = cl_replyChans c"
  by (simp_all add: receipt_spawned_def keys_coherent_def events_open_def)

lemma sealed_opens_as:
  assumes "box_laws (cx_box x)" and "rand_laws (cx_rand x)" and "proto_laws (cx_proto x)" and "keys_coherent x a"
    and "newPayloads x dests p True (a, w) = (Ok plds, s)" and "i < length dests"
    and "keys_agree x (cl_curveSecretKey a) (cl_address a) secret (dests ! i)"
    and "im_Src im = cl_address a" and "im_Payload im = plds ! i"
  shows "opens_as x secret im p"
  using encryptPayload_decrypts [OF assms(1-4) _ _ assms(6)] assms(5,7-9) unfolding opens_as_def newPayloads_def by fastforce

lemma opened_inbound:
  assumes "opens_as x (cl_curveSecretKey b) im p" and "payload_data (cx_proto x) p = Ok d" and "keys_coherent x b"
  shows "\<exists>b'. same_but_keys x (receipt_spawned im b) b' \<and>
    handle_inbound x im (b, v) =
      (if length (pl_ReplyToId p) > 0 then deliver_reply x (sealed_message im p d) (pl_ReplyToId p)
       else deliver_message x (sealed_message im p d)) (b', v)"
proof -
  from assms(1,3) obtain wm raw b' where "UnmarshalMessage (cx_proto x) (im_Payload im) = Ok wm" "wm_Encrypted wm"
    "decryptPayload x wm (im_Src im) (receipt_spawned im b, v) = (Ok raw, (b', v))" "same_but_keys x (receipt_spawned im b) b'"
    "UnmarshalPayload (cx_proto x) raw = Ok p" unfolding opens_as_def by (metis receipt_spawned_simps(1,4))
  with assms(2) show ?thesis
    by (intro exI [of _ b']) (auto simp: handle_inbound_def receipt_spawned_def spawn_def open_payload_def sealed_message_def bnd_Ok Let_def)
qed

lemma sealed_inbound_delivered:
  assumes "opens_as x (cl_curveSecretKey b) im p" and "payload_data (cx_proto x) p = Ok d" and "pl_ReplyToId p = []"
    and "keys_coherent x b" and "events_open b" and "\<not> cl_isClosed b"
  shows "\<exists>b' oe v'. handle_inbound x im (b, v) = (Ok (), (b'\<lparr>cl_OnMessageEvent := oe,
      cl_OnMessage := snd (OnMessage_receive (with_reply (sealed_message im p d)) (cl_OnMessage b))\<rparr>, v')) \<and>
    same_but_keys x (receipt_spawned im b) b' \<and> v' \<in> {v, snd (cx_now x v)}"
proof -
  from opened_inbound [OF assms(1,2,4), of v] assms(3) obtain b' where same: "same_but_keys x (receipt_spawned im b) b'"
    and h: "handle_inbound x im (b, v) = deliver_message x (sealed_message im p d) (b', v)" by auto
  note [simp] = same_but_keys_simps [OF same]
  from deliver_message_ok [of b' x "sealed_message im p d" v] assms(5,6) h same show ?thesis
    by auto
qed

text \<open>
  C7: A message arrives as it was sent: when a client makes the payload for some data and the encrypted
  messages for a list of destinations, the client at a destination that receives its message from that
  source, and is open and ready, appends to the queue of \<^verbatim>\<open>OnMessage\<close>, if there is room, one message with
  the data, the source address, the message id and the encrypted flag, and reports success.
\<close>

theorem send_receive_end_to_end:
  assumes "box_laws (cx_box x)" and "rand_laws (cx_rand x)" and "proto_laws (cx_proto x)"
    and "client_inv upa x a" and "client_inv upb x b" and "\<not> cl_isClosed b"
    and "newMessagePayload (cx_proto x) (cx_rand x) data mid noReply v0 = (Ok p, v1)" and "data = DBytes d \<or> data = DString d"
    and "newPayloads x dests p True (a, w) = (Ok plds, s)" and "i < length dests"
    and "keys_agree x (cl_curveSecretKey a) (cl_address a) (cl_curveSecretKey b) (dests ! i)"
    and "\<not> oe_Callback (cl_OnMessage b)" and "length (ch_buf (oe_C (cl_OnMessage b))) < ch_cap (oe_C (cl_OnMessage b))"
    and "im_Src im = cl_address a" and "im_Payload im = plds ! i"
  shows "\<exists>b' v'. handle_inbound x im (b, v) = (Ok (), (b', v')) \<and>
     ch_buf (oe_C (cl_OnMessage b')) = ch_buf (oe_C (cl_OnMessage b)) @
       [\<lparr>m_Src = cl_address a, m_Data = d, m_Type = pl_Type p, m_Encrypted = True, m_MessageID = pl_MessageId p, m_NoReply = noReply,
         m_reply = (if noReply then IgnoreReply else SendReply (cl_address a) (pl_MessageId p) True)\<rparr>]"
proof -
  have k: "keys_coherent x a" "keys_coherent x b" and o: "events_open b"
    using assms(4-6) by (simp_all add: client_inv_def channels_open_def)
  from newMessagePayload_id [OF assms(2,7)] newMessagePayload_data [OF assms(3,7)] assms(8)
  have p: "pl_ReplyToId p = []" "pl_NoReply p = noReply" "payload_data (cx_proto x) p = Ok d" by auto
  from sealed_inbound_delivered [OF sealed_opens_as [OF assms(1-3) k(1) assms(9-11,14,15)] p(3,1) k(2) o assms(6), of v]
  obtain b' oe v' where "handle_inbound x im (b, v) = (Ok (), (b'\<lparr>cl_OnMessageEvent := oe,
      cl_OnMessage := snd (OnMessage_receive (with_reply (sealed_message im p d)) (cl_OnMessage b))\<rparr>, v'))" by blast
  moreover have "\<not> ch_closed (oe_C (cl_OnMessage b))" using o by (simp add: events_open_def)
  ultimately show ?thesis
    using assms(12-14) p by (auto simp: on_message.receive_room with_reply_def sealed_message_def)
qed

theorem send_receive_end_to_end_witness:
  "\<exists>plds s b'. newPayloads demo_cx [''bob'', ''carol''] demo_payload True (demo_client, ()) = (Ok plds, s) \<and>
     handle_inbound demo_cx \<lparr>im_Src = ''alice'', im_Payload = plds ! 1, im_PrevHash = []\<rparr> (demo_client, ()) = (Ok (), (b', ())) \<and>
     map m_Data (ch_buf (oe_C (cl_OnMessage b'))) = [''hello'']"
proof -
  from demo_encrypts obtain plds c2 where e: "newPayloads demo_cx [''bob'', ''carol''] demo_payload True (demo_client, ()) = (Ok plds, (c2, ()))"
    by (auto simp: newPayloads_def)
  have ag: "keys_agree demo_cx (cl_curveSecretKey demo_client) (cl_address demo_client) (cl_curveSecretKey demo_client) ([''bob'', ''carol''] ! 1)"
    by (simp add: keys_agree_def demo_shared_key)
  have p: "newMessagePayload (cx_proto demo_cx) (cx_rand demo_cx) (DBytes ''hello'') ''id'' False () = (Ok demo_payload, ())"
    by (simp add: newPayload_defs demo_payload_def)
  have room: "\<not> oe_Callback (cl_OnMessage demo_client)" "ch_buf (oe_C (cl_OnMessage demo_client)) = []"
      "length (ch_buf (oe_C (cl_OnMessage demo_client))) < ch_cap (oe_C (cl_OnMessage demo_client))" "\<not> cl_isClosed demo_client"
    by (simp_all add: demo_client_def on_message.new_empty)
  from send_receive_end_to_end [OF demo_client_laws(1-3) demo_client_inv demo_client_inv room(4) p _ e _ ag room(1,3),
    of "''hello''" "\<lparr>im_Src = ''alice'', im_Payload = plds ! 1, im_PrevHash = []\<rparr>" "()"] e room(2)
  show ?thesis by auto
qed

text \<open>
  C21: Replies are routed to the call that waits for them: a message that answers a message id never reaches
  \<^verbatim>\<open>OnMessage\<close>. If the id has a reply channel in the cache, the entry is deleted and the message is put
  into that channel and no other; if it has none, because it expired, was answered or was never sent,
  the message is dropped and nothing but the key cache changes.
\<close>

theorem reply_routing:
  assumes "events_open c" and "im_PrevHash im = []" and "UnmarshalMessage (cx_proto x) (im_Payload im) = Ok wm"
    and "keys_coherent x c" and "open_payload x wm (im_Src im) (c, w) = (Ok raw, (c1, w1))"
    and "UnmarshalPayload (cx_proto x) raw = Ok p" and "payload_data (cx_proto x) p = Ok d" and "pl_ReplyToId p \<noteq> []"
    and "Cache_Get x (pl_ReplyToId p) w1 = (hit, w2)"
    and "\<And>i. hit = Some i \<Longrightarrow> i < length (cl_replyChans c) \<and> \<not> ch_closed (oe_C (cl_replyChans c ! i))"
  shows "\<exists>c' w'. handle_inbound x im (c, w) = (Ok (), (c', w')) \<and> cl_OnMessage c' = cl_OnMessage c \<and>
     (case hit of
        None \<Rightarrow> (c', w') = (c1, w2) \<and> same_but_keys x c c'
      | Some i \<Rightarrow> cl_replyChans c' = (cl_replyChans c)[i := snd (OnMessage_receive (inbound_of im wm p d) (cl_replyChans c ! i))] \<and>
          (\<exists>oe. c' = c1\<lparr>cl_OnMessageEvent := oe, cl_replyChans := cl_replyChans c'\<rparr>) \<and>
          (let w3 = snd (Cache_Delete x (pl_ReplyToId p) w2) in w' \<in> {w3, snd (cx_now x w3)}))"
proof -
  have same: "same_but_keys x c c1" using open_payload_accepted [OF assms(4,5)] by auto
  note [simp] = same_but_keys_simps [OF same]
  let ?m = "inbound_of im wm p d"
  have h: "handle_inbound x im (c, w) = deliver_reply x ?m (pl_ReplyToId p) (c1, w1)"
    using assms by (simp add: handle_inbound_def bnd_Ok inbound_of_def Let_def)
  show ?thesis
  proof (cases hit)
    case None
    with h assms(9) same show ?thesis by (simp add: deliver_reply_def)
  next
    case (Some i)
    let ?w3 = "snd (Cache_Delete x (pl_ReplyToId p) w2)" and ?ev = "receive_event MessageEventTypeReceiveReply (cl_address c1) ?m"
    from emit_event_ok [of c1 x ?ev ?w3] assms(1) obtain oe w' where
      e: "emit_event x ?ev (c1, ?w3) = (Ok (), (c1\<lparr>cl_OnMessageEvent := oe\<rparr>, w'))"
      and w': "w' \<in> {?w3, snd (cx_now x ?w3)}" by auto
    from assms(10) [OF Some] have i: "i < length (cl_replyChans c)" and op: "fst (OnMessage_receive ?m (cl_replyChans c ! i)) = Ok ()"
      by (auto intro: on_message.receive_open_ok)
    let ?c' = "c1\<lparr>cl_OnMessageEvent := oe, cl_replyChans := (cl_replyChans c)[i := snd (OnMessage_receive ?m (cl_replyChans c ! i))]\<rparr>"
    have "deliver_reply x ?m (pl_ReplyToId p) (c1, w1) = (Ok (), (?c', w'))"
      using Some assms(9) i op e by (simp add: deliver_reply_def bnd_Ok)
    with Some h w' show ?thesis by (auto simp: Let_def)
  qed
qed

definition demo_waiting_client :: client where
  "demo_waiting_client = demo_open_client\<lparr>cl_replyChans := [NewOnMessage 1 False]\<rparr>"

definition demo_reply :: payload where "demo_reply = demo_payload\<lparr>pl_ReplyToId := ''id''\<rparr>"

theorem reply_routing_witness:
  "\<exists>raw data c'. handle_inbound demo_cx \<lparr>im_Src = ''bob'', im_Payload = data, im_PrevHash = []\<rparr> (demo_waiting_client, ()) = (Ok (), (c', ())) \<and>
     UnmarshalPayload (cx_proto demo_cx) raw = Ok demo_reply \<and>
     cl_OnMessage c' = cl_OnMessage demo_waiting_client \<and> map (map m_Data \<circ> ch_buf \<circ> oe_C) (cl_replyChans c') = [[''hello'']]"
proof -
  obtain raw where raw: "MarshalPayload (cx_proto demo_cx) demo_reply = Ok raw"
    by (simp add: demo_cx_def dotted_proto_def demo_reply_def demo_payload_def BinaryType_def)
  let ?wm = "\<lparr>wm_Payload = raw, wm_Encrypted = False, wm_Nonce = [], wm_EncryptedKey = []\<rparr>"
  obtain data where data: "MarshalMessage (cx_proto demo_cx) ?wm = Ok data" by (simp add: demo_cx_def dotted_proto_def)
  let ?im = "\<lparr>im_Src = ''bob'', im_Payload = data, im_PrevHash = []\<rparr>"
  have um: "UnmarshalMessage (cx_proto demo_cx) (im_Payload ?im) = Ok ?wm" "UnmarshalPayload (cx_proto demo_cx) raw = Ok demo_reply"
    using raw data demo_client_laws(3) by (simp_all add: proto_laws_def)
  have op: "open_payload demo_cx ?wm (im_Src ?im) (demo_waiting_client, ()) = (Ok raw, (demo_waiting_client, ()))"
    by (simp add: open_payload_def demo_waiting_client_def demo_open_client_def)
  have st: "events_open demo_waiting_client" "keys_coherent demo_cx demo_waiting_client"
    using demo_open_inv(1,3) by (simp_all add: demo_waiting_client_def events_open_def client_inv_def keys_coherent_def)
  have d: "payload_data (cx_proto demo_cx) demo_reply = Ok ''hello''" "pl_ReplyToId demo_reply = ''id''"
    by (simp_all add: payload_data_def demo_reply_def demo_payload_def payload_type_defs)
  have hit: "Cache_Get demo_cx (pl_ReplyToId demo_reply) () = (Some 0, ())" by (simp add: d demo_cx_def)
  have "\<exists>c'. handle_inbound demo_cx ?im (demo_waiting_client, ()) = (Ok (), (c', ())) \<and> cl_OnMessage c' = cl_OnMessage demo_waiting_client \<and>
      cl_replyChans c' = (cl_replyChans demo_waiting_client)[0 := snd (OnMessage_receive (inbound_of ?im ?wm demo_reply ''hello'') (cl_replyChans demo_waiting_client ! 0))]"
    using reply_routing [OF st(1) _ um(1) st(2) op um(2) d(1) _ hit] d(2)
    by (auto simp: demo_waiting_client_def on_message.new_empty)
  then obtain c' where "handle_inbound demo_cx ?im (demo_waiting_client, ()) = (Ok (), (c', ()))"
    "cl_OnMessage c' = cl_OnMessage demo_waiting_client"
    "cl_replyChans c' = [snd (OnMessage_receive (inbound_of ?im ?wm demo_reply ''hello'') (NewOnMessage 1 False))]"
    by (auto simp: demo_waiting_client_def)
  with um(2) show ?thesis
    by (intro exI [of _ raw] exI [of _ data] exI [of _ c'])
      (simp add: on_message.receive_room on_message.new_empty inbound_of_def)
qed

definition nil_field :: "(string \<times> json) list \<Rightarrow> string \<Rightarrow> bool" where
  "nil_field msg key \<longleftrightarrow> map_get msg key \<in> {None, Some JNull}"

lemma raw_get_nil: "nil_field msg k \<Longrightarrow> raw_get msg k d old = Panic NilDereference"
  by (auto simp: raw_get_def nil_field_def)

lemma raw_get_some: "map_get msg k = Some j \<Longrightarrow> j \<noteq> JNull \<Longrightarrow> d old j = (v, True) \<Longrightarrow> raw_get msg k d old = Ok v"
  by (cases j) (auto simp: raw_get_def unmarshal_def)

text \<open>
  A node can crash the client with one text message: if the JSON object it sends lacks the key
  \<^verbatim>\<open>Action\<close>, or has it and lacks the key \<^verbatim>\<open>Error\<close>, or reports another node for the client and lacks the key
  \<^verbatim>\<open>Result\<close>, or has null there, \<^verbatim>\<open>handleMessage\<close> dereferences a nil pointer.
\<close>

theorem handleMessage_missing_key_panics:
  assumes "\<not> cl_isClosed c" and "Json_Parse (cx_net x) data = Some (JObj msg)"
    and "nil_field msg ''Action'' \<or>
      map_get msg ''Action'' = Some (JStr action) \<and> (nil_field msg ''Error'' \<or>
        (\<exists>j e. map_get msg ''Error'' = Some j \<and> j \<noteq> JNull \<and> dec_ErrCode x 0 j = (e, True) \<and> nil_field msg ''Result'' \<and>
           (e \<noteq> ErrCode_SUCCESS x \<and> e = ErrCode_WRONG_NODE x \<or> e = ErrCode_SUCCESS x \<and> action = setClientAction)))"
  shows "handleMessage x TextMessage data (c, w) = (Panic NilDereference, (c, w))"
proof -
  have msg: "raw_message (cx_net x) data = Ok msg" using assms(2) by (simp add: raw_message_def unmarshal_def)
  have act: "raw_get msg ''Action'' dec_string [] = Ok action" if "map_get msg ''Action'' = Some (JStr action)"
    using that by (simp add: raw_get_some)
  show ?thesis
    using assms(1,3) msg act
    by (auto simp: handleMessage_def Client_IsClosed_def handle_text_def handle_error_def handle_setClient_def raw_get_nil raw_get_some)
qed

definition demo_bad_cx :: "unit client_ext" where
  "demo_bad_cx = demo_cx\<lparr>cx_net := demo_net\<lparr>Json_Parse := (\<lambda>b. Some (JObj [(''Action'', JStr ''setClient'')]))\<rparr>\<rparr>"

theorem handleMessage_missing_key_panics_witness:
  "handleMessage demo_bad_cx TextMessage ''{}'' (demo_client, ()) = (Panic NilDereference, (demo_client, ()))"
  by (rule handleMessage_missing_key_panics [where msg = "[(''Action'', JStr ''setClient'')]" and action = "''setClient''"])
    (simp_all add: demo_bad_cx_def nil_field_def map_get_def demo_client_def)

text \<open>
  C40: A peer can crash the client with one message. Take any inbound message that is marked as encrypted and whose source has a
  key. \<^verbatim>\<open>decryptPayload\<close> panics exactly if, without a sealed key, the payload is shorter than the 16 bytes of a tag (a short nonce does
  no harm there), or, with a sealed key, the nonce has fewer than 24 bytes, the sealed key is shorter than a tag, or the
  sealed key opens and the payload is shorter than a tag. And whenever it does, \<^verbatim>\<open>handleMessage\<close> of an open client panics.
\<close>

theorem short_ciphertext_panics:
  assumes "\<not> cl_isClosed c" and "keys_coherent x c"
    and "UnmarshalClientMessage (cx_pb x) data = Ok cm" and "cm_MessageType cm = INBOUND_MESSAGE"
    and "UnmarshalInbound (cx_pb x) (cm_Message cm) = Ok im" and "UnmarshalMessage (cx_proto x) (im_Payload im) = Ok wm"
    and "wm_Encrypted wm" and "dest_pubkey x (im_Src im) = Ok pk" and "shared_key x (cl_curveSecretKey c) pk = Ok k"
  shows "(is_panic (fst (decryptPayload x wm (im_Src im) (c, w))) \<longleftrightarrow> too_short x k wm) \<and>
    (too_short x k wm \<longrightarrow> is_panic (fst (handleMessage x BinaryMessage data (c, w))))"
proof (intro conjI impI)
  show "is_panic (fst (decryptPayload x wm (im_Src im) (c, w))) \<longleftrightarrow> too_short x k wm"
    by (rule decryptPayload_panics_iff [OF assms(8,2,9)])
  assume short: "too_short x k wm"
  have "is_panic (fst (decryptPayload x wm (im_Src im) (receipt_spawned im c, w)))"
    using decryptPayload_panics_iff [OF assms(8), of "receipt_spawned im c" k wm w] assms(2,9) short by simp
  then obtain q s where q: "decryptPayload x wm (im_Src im) (receipt_spawned im c, w) = (Panic q, s)"
    by (cases "decryptPayload x wm (im_Src im) (receipt_spawned im c, w)") (auto simp: is_panic_iff)
  then have "is_panic (fst (handle_inbound x im (c, w)))"
    using assms(6,7) by (simp add: handle_inbound_def receipt_spawned_def spawn_def open_payload_def bnd_Ok split: if_splits) (simp_all add: bnd_def)
  with assms(1,3-5) show "is_panic (fst (handleMessage x BinaryMessage data (c, w)))"
    by (simp add: handleMessage_def handle_binary_def Client_IsClosed_def)
qed

theorem short_ciphertext_panics_witness:
  "\<exists>data. is_panic (fst (handleMessage demo_cx BinaryMessage data (demo_client, ())))"
proof -
  let ?wm = "\<lparr>wm_Payload = ''short'', wm_Encrypted = True, wm_Nonce = [], wm_EncryptedKey = []\<rparr>"
  obtain data where data: "MarshalMessage (cx_proto demo_cx) ?wm = Ok data" by (simp add: demo_cx_def dotted_proto_def)
  have um: "UnmarshalMessage (cx_proto demo_cx) data = Ok ?wm" using data demo_client_laws(3) by (simp add: proto_laws_def)
  have cm: "UnmarshalClientMessage (cx_pb demo_cx) data = Ok \<lparr>cm_MessageType = INBOUND_MESSAGE, cm_Message = data, cm_Zlib = False\<rparr>"
    "UnmarshalInbound (cx_pb demo_cx) data = Ok \<lparr>im_Src = ''alice'', im_Payload = data, im_PrevHash = []\<rparr>"
    by (simp_all add: demo_cx_def demo_pb_def)
  from short_ciphertext_panics [of demo_client, OF _ demo_client_laws(4) cm(1) _ _ _ _ demo_pubkey demo_shared_key,
      of "\<lparr>im_Src = ''alice'', im_Payload = data, im_PrevHash = []\<rparr>" ?wm "()"] um cm(2)
  show ?thesis by (auto simp: demo_client_def too_short_def box_Overhead_def)
qed

end
