(* ===== verification/Nkn_Client_Conn.thy ===== *)
theory Nkn_Client_Conn
  imports Nkn_Client_Msg
begin

text \<open>
  The life of a client's connection (\<^verbatim>\<open>src/client.go\<close>): \<^verbatim>\<open>connectToNode\<close>, the retry loop of
  \<^verbatim>\<open>connect\<close>, the loop of \<^verbatim>\<open>handleReconnect\<close>, the three goroutines of a connection round by round,
  \<^verbatim>\<open>NewClient\<close> and the remaining methods. The retry loop may run forever, so it is a partial function
  whose value is \<open>None\<close> when it does not return.

  The probe of the node's RPC address runs beside the dialling of the connection, and both are awaited
  before the state changes; here it runs first. Read limits, read deadlines and the pong handler of a
  connection belong to the websocket package and are not modelled.
\<close>

section \<open>Connecting to a node\<close>

definition probe_rpc :: "'w client_ext \<Rightarrow> client_config \<Rightarrow> node \<Rightarrow> ('w, err, string) act" where
  "probe_rpc x config node =
     (if length (nd_RPCAddr node) > 0
      then (let addr = url_string ''http'' (nd_RPCAddr node) in
            attempt (GetNodeStateContext (cx_net x) (Some (measure_config (cc_WsHandshakeTimeout config) (cc_HttpDialContext config) addr)))
              (\<lambda>err. ret [])
              (\<lambda>nodeState. if ns_SyncState nodeState \<noteq> PersistFinished x then ret [] else ret addr))
      else ret [])"

definition dial_node :: "'w client_ext \<Rightarrow> client \<Rightarrow> node \<Rightarrow> ('w, err, conn) act" where
  "dial_node x c node =
     (if cc_WebRTC (cl_config c)
      then (case cl_peer c of
              None \<Rightarrow> crash NilDereference
            | Some peer \<Rightarrow> (\<lambda>w.
                case WebRTC_Connected x peer (nd_Sdp node) (cc_WebRTCConnectTimeout (cl_config c)) w of
                  (None, w') \<Rightarrow> (Err ErrConnectFailed, w')
                | (Some conn, w') \<Rightarrow> (Ok conn, w')))
      else Ws_Dial x (url_string ''ws'' (nd_Addr node)) (cc_WsHandshakeTimeout (cl_config c)) (cc_WsDialContext (cl_config c)))"

definition adopt_stats :: "int64 \<Rightarrow> node option \<Rightarrow> node \<Rightarrow> client_stats option \<Rightarrow> client_stats option" where
  "adopt_stats t prevNode node st =
     (let stats = (case st of None \<Rightarrow> zero_stats | Some s \<Rightarrow> s) in
      case prevNode of
        None \<Rightarrow> Some (stats\<lparr>cs_ConnectTime := t\<rparr>)
      | Some prev \<Rightarrow>
          if nd_ID prev \<noteq> nd_ID node \<or> nd_Addr prev \<noteq> nd_Addr node
          then Some (stats\<lparr>cs_ConnectTime := t, cs_ReconnectCount := 0, cs_LastReconnect := t, cs_SendFailureCount := 0\<rparr>)
          else st)"

definition adopt_conn :: "conn \<Rightarrow> node \<Rightarrow> string \<Rightarrow> int64 \<Rightarrow> client \<Rightarrow> client" where
  "adopt_conn conn node rpcAddr t c =
     c\<lparr>cl_conn := Some conn, cl_node := Some node, cl_State := ConnConnecting,
       cl_Stats := adopt_stats t (cl_node c) node (cl_Stats c),
       cl_wallet := (cl_wallet c)\<lparr>wa_config := (wa_config (cl_wallet c))\<lparr>wc_SeedRPCServerAddr :=
         (if length rpcAddr > 0 then [rpcAddr] else [])\<rparr>\<rparr>\<rparr>"

text \<open>The old connection is closed and the goroutines of the new one are started.\<close>

definition start_conn :: "'w client_ext \<Rightarrow> conn option \<Rightarrow> conn \<Rightarrow> ('w, unit) client_act" where
  "start_conn x prevConn conn =
     bnd (case prevConn of
            None \<Rightarrow> ret ()
          | Some prevConn \<Rightarrow> attempt (env (Conn_Close x prevConn)) (\<lambda>_. ret ()) (\<lambda>_. ret ())) (\<lambda>_.
     bnd (spawn (TPing conn)) (\<lambda>_.
     bnd (spawn (TSetClient conn)) (\<lambda>_.
     spawn (TRead conn))))"

definition connectToNode :: "'w client_ext \<Rightarrow> node \<Rightarrow> ('w, unit) client_act" where
  "connectToNode x node =
     bnd (obj (\<lambda>c. c)) (\<lambda>c.
     bnd (env (probe_rpc x (cl_config c) node)) (\<lambda>rpcAddr.
     bnd (env (dial_node x c node)) (\<lambda>conn.
     bnd (env_val (cx_now x)) (\<lambda>t.
     bnd (upd (adopt_conn conn node rpcAddr t)) (\<lambda>_.
     start_conn x (cl_conn c) conn)))))"

section \<open>The retry loop\<close>

text \<open>
  One pass of the loop after the pause: find a node unless there is one already, and connect to it. It
  returns the node to use in the next pass and whether the connection stands.
\<close>

definition find_node :: "'w client_ext \<Rightarrow> ('w, node) client_act" where
  "find_node x =
     bnd (obj (\<lambda>c. c)) (\<lambda>c.
       if cc_WebRTC (cl_config c)
       then bnd (env_val (WebRTC_NewPeer x (cc_StunServerAddr (cl_config c)))) (\<lambda>peer.
            bnd (upd (\<lambda>c. c\<lparr>cl_peer := peer\<rparr>)) (\<lambda>_.
              case peer of
                None \<Rightarrow> throw (ExternalError ''failed to create peer'')
              | Some p \<Rightarrow>
                  bnd (env (WebRTC_Offer x p (cl_address c))) (\<lambda>_.
                  bnd (env_val (WebRTC_Sdp x p (cc_WebRTCConnectTimeout (cl_config c)))) (\<lambda>sdp.
                    case sdp of
                      None \<Rightarrow> throw (ExternalError ''WebRTC get offer timeout'')
                    | Some offer \<Rightarrow> env (GetPeerAddrContext (cx_net x) (cl_address c) offer (Some (ClientConfig_RPC (cl_config c))))))))
       else env (GetWsAddrContext (cx_net x) (cl_address c) (Some (ClientConfig_RPC (cl_config c)))))"

definition connect_attempt :: "'w client_ext \<Rightarrow> node option \<Rightarrow> ('w, node option \<times> bool) client_act" where
  "connect_attempt x node =
     attempt (case node of None \<Rightarrow> find_node x | Some n \<Rightarrow> ret n)
       (\<lambda>err. ret (None, False))
       (\<lambda>n. attempt (connectToNode x n) (\<lambda>err. ret (Some n, False)) (\<lambda>_. ret (Some n, True)))"

definition next_interval :: "int32 \<Rightarrow> int32 \<Rightarrow> int32" where
  "next_interval maxInterval retryInterval =
     (let doubled = retryInterval * 2 in if maxInterval <s doubled then maxInterval else doubled)"

text \<open>The pause before every pass but the first; it returns the next interval.\<close>

definition retry_pause :: "'w client_ext \<Rightarrow> bool \<Rightarrow> int32 \<Rightarrow> ('w, int32) client_act" where
  "retry_pause x again retryInterval =
     (if again
      then bnd (env_val (cx_Sleep x retryInterval)) (\<lambda>_.
           bnd (obj cl_config) (\<lambda>config.
           ret (next_interval (cc_MaxReconnectInterval config) retryInterval)))
      else ret retryInterval)"

definition connect_pass :: "'w client_ext \<Rightarrow> bool \<Rightarrow> int32 \<Rightarrow> node option \<Rightarrow> ('w, int32 \<times> node option \<times> bool) client_act" where
  "connect_pass x again retryInterval node =
     bnd (retry_pause x again retryInterval) (\<lambda>interval.
     bnd (connect_attempt x node) (\<lambda>(node', connected).
     ret (interval, node', connected)))"

partial_function (option) connect_loop ::
  "'w client_ext \<Rightarrow> int \<Rightarrow> int \<Rightarrow> int32 \<Rightarrow> node option \<Rightarrow> client \<times> 'w \<Rightarrow> (unit result \<times> (client \<times> 'w)) option" where
  "connect_loop x maxRetries retry retryInterval node s =
     (if maxRetries < 0 \<or> retry \<le> maxRetries
      then (case connect_pass x (retry > 1) retryInterval node s of
              (Ok (interval, node', connected), s') \<Rightarrow>
                if connected then Some (Ok (), s') else connect_loop x maxRetries (retry + 1) interval node' s'
            | (Err e, s') \<Rightarrow> Some (Err e, s')
            | (Panic p, s') \<Rightarrow> Some (Panic p, s'))
      else Some (Err ErrConnectFailed, s))"

definition connect :: "'w client_ext \<Rightarrow> int \<Rightarrow> node option \<Rightarrow> client \<times> 'w \<Rightarrow> (unit result \<times> (client \<times> 'w)) option" where
  "connect x maxRetries node s = connect_loop x maxRetries 1 (cc_MinReconnectInterval (cl_config (fst s))) node s"

section \<open>The goroutines\<close>

text \<open>
  One round of \<^verbatim>\<open>handleReconnect\<close>. At the head of the loop it waits for a request (\<open>rq_Waiting\<close>); a request
  that \<^verbatim>\<open>Reconnect\<close> has handed over starts the round. It reports whether the loop goes on.
\<close>

definition handleReconnect_round :: "'w client_ext \<Rightarrow> node option \<Rightarrow> client \<times> 'w \<Rightarrow> (bool result \<times> (client \<times> 'w)) option" where
  "handleReconnect_round x node s =
     (if Client_IsClosed (fst s) then Some (Ok False, s)
      else (case env_val (cx_Sleep x (cc_MinReconnectInterval (cl_config (fst s)))) s of (_ :: unit result, s1) \<Rightarrow>
            (case connect x (- 1) node s1 of
               None \<Rightarrow> None
             | Some (Ok _, s2) \<Rightarrow> Some (Ok True, s2)
             | Some (Panic p, s2) \<Rightarrow> Some (Panic p, s2)
             | Some (Err e, s2) \<Rightarrow>
                 Some (attempt (Client_Close x) (\<lambda>_. ret False) (\<lambda>_. ret False) s2))))"

text \<open>One tick of the ping loop, the goroutine that announces the client, one round of the read loop.\<close>

definition ping_round :: "'w client_ext \<Rightarrow> conn \<Rightarrow> ('w, bool) client_act" where
  "ping_round x conn =
     attempt (env (Conn_Ping x conn)) (\<lambda>err. bnd (Client_Reconnect None) (\<lambda>_. ret False)) (\<lambda>_. ret True)"

definition setClient_request :: "client \<Rightarrow> salt_and_signature option \<Rightarrow> json" where
  "setClient_request c saltAndSig =
     JObj ([(''Action'', JStr ''setClient''), (''Addr'', JStr (cl_address c))] @
       (case saltAndSig of
          None \<Rightarrow> []
        | Some s \<Rightarrow> [(''ClientSalt'', JStr (hex_encode (ss_ClientSalt s))), (''Signature'', JStr (hex_encode (ss_Signature s)))]))"

text \<open>A challenge that has arrived before the timer is taken; a closed channel and the timer give none.\<close>

definition take_challenge :: "('w, salt_and_signature option) client_act" where
  "take_challenge =
     bnd (obj (\<lambda>c. chan_recv (cl_chChallengeSignature c))) (\<lambda>(r, ch).
     bnd (upd (\<lambda>c. c\<lparr>cl_chChallengeSignature := ch\<rparr>)) (\<lambda>_.
     ret (case r of Received v \<Rightarrow> Some v | ReceivedNil \<Rightarrow> None | Blocks \<Rightarrow> None)))"

definition setClient_task :: "'w client_ext \<Rightarrow> conn \<Rightarrow> ('w, unit) client_act" where
  "setClient_task x conn =
     bnd take_challenge (\<lambda>saltAndSig.
     bnd (obj (\<lambda>c. c)) (\<lambda>c.
     attempt (env (Conn_WriteJSON x conn (setClient_request c saltAndSig)))
       (\<lambda>err. Client_Reconnect None)
       (\<lambda>_. ret ())))"

text \<open>\<open>received\<close> is what \<^verbatim>\<open>ReadMessage\<close> returned.\<close>

definition read_round :: "'w client_ext \<Rightarrow> (ws_type \<times> bytes) result \<Rightarrow> ('w, bool) client_act" where
  "read_round x received =
     bnd (obj (\<lambda>c. c)) (\<lambda>c.
       if Client_IsClosed c then ret False
       else (case received of
               Err e \<Rightarrow> bnd (Client_Reconnect None) (\<lambda>_. ret False)
             | Panic p \<Rightarrow> crash p
             | Ok (msgType, data) \<Rightarrow> attempt (handleMessage x msgType data) (\<lambda>_. ret True) (\<lambda>_. ret True)))"

section \<open>NewClient and the remaining methods\<close>

text \<open>
  The loop over the configured resolvers runs up to the length of the slice it fills, which is zero, so
  it never runs. The queue of \<^verbatim>\<open>OnMessage\<close> has the configured length; making a channel with a negative
  length panics.
\<close>

fun resolver_loop :: "nat \<Rightarrow> nat list \<Rightarrow> gomobile_resolver list \<Rightarrow> nat list result" where
  "resolver_loop i resolvers [] = (if i < length resolvers then Panic IndexOutOfRange else Ok resolvers)"
| "resolver_loop i resolvers (g # gs) =
     (if i < length resolvers
      then (case g of
              Implements_Resolver r \<Rightarrow> resolver_loop (Suc i) (resolvers @ [r]) gs
            | No_Resolver \<Rightarrow> Err ErrInvalidResolver)
      else Ok resolvers)"

definition wallet_of_seeds :: "string list \<Rightarrow> wallet_config" where
  "wallet_of_seeds seeds =
     \<lparr>wc_SeedRPCServerAddr = seeds, wc_RPCTimeout = 0, wc_RPCConcurrency = 0, wc_Password = [], wc_IV = [], wc_MasterKey = [],
      wc_ScryptConfig = \<lparr>sc_Salt = [], sc_N = 0, sc_R = 0, sc_P = 0\<rparr>, wc_HttpDialContext = None\<rparr>"

definition new_client :: "'w client_ext \<Rightarrow> account \<Rightarrow> string \<Rightarrow> client_config \<Rightarrow> wallet \<Rightarrow> nat list \<Rightarrow> client" where
  "new_client x account ident config wallet resolvers =
     (let addr = MakeAddressString x (Account_PubKey account) ident in
      \<lparr>cl_OnConnect = NewOnConnect 1 False, cl_OnMessage = NewOnMessage (nat (sint (cc_MsgChanLen config))) False,
       cl_OnMessageEvent = Some (NewOnMessageEvent 100 False), cl_config = config, cl_account = account,
       cl_publicKey = Account_PubKey account,
       cl_curveSecretKey = PrivateKeyToCurve25519PrivateKey x (copy_array 64 (ac_PrivateKey account)),
       cl_address = addr, cl_addressID = addressToID (Sha256 x) addr, cl_sigChainBlockHash = [],
       cl_reconnectChan = \<lparr>rq_Waiting = True, rq_Handed = None, rq_Closed = False\<rparr>, cl_resolvers = resolvers,
       cl_isClosed = False, cl_conn = None, cl_node = None, cl_sharedKeys = Map.empty, cl_wallet = wallet,
       cl_chChallengeSignature = make_chan 1, cl_peer = None, cl_State = ConnConnecting, cl_Stats = None,
       cl_replyChans = [], cl_tasks = []\<rparr>)"

definition make_client :: "'w client_ext \<Rightarrow> account \<Rightarrow> string \<Rightarrow> client_config option \<Rightarrow> ('w, err, client) act" where
  "make_client x account ident conf =
     bnd (of_res (MergeClientConfig (copy_client_config x) conf)) (\<lambda>config.
     bnd (NewWallet (cx_vault x) account (Some (wallet_of_seeds (cc_SeedRPCServerAddr config)))) (\<lambda>wallet.
     bnd (of_res (resolver_loop 0 [] (cc_Resolvers config))) (\<lambda>resolvers.
       if cc_MsgChanLen config <s 0 then crash NegativeLength
       else ret (new_client x account ident config wallet resolvers))))"

definition NewClient :: "'w client_ext \<Rightarrow> account \<Rightarrow> string \<Rightarrow> client_config option \<Rightarrow> 'w \<Rightarrow> (client result \<times> 'w) option" where
  "NewClient x account ident conf w =
     (case make_client x account ident conf w of
        (Err e, w1) \<Rightarrow> Some (Err e, w1)
      | (Panic p, w1) \<Rightarrow> Some (Panic p, w1)
      | (Ok c, w1) \<Rightarrow>
          (case connect x (sint (cc_ConnectRetries (cl_config c))) None (c, w1) of
             None \<Rightarrow> None
           | Some (r, (c', w2)) \<Rightarrow> Some (and_then r (\<lambda>_. Ok c'), w2)))"

definition Client_Account :: "client \<Rightarrow> account" where "Client_Account c = cl_account c"

definition Client_Seed :: "'w client_ext \<Rightarrow> client \<Rightarrow> bytes" where "Client_Seed x c = Account_Seed (cx_vault x) (cl_account c)"

definition Client_Address :: "client \<Rightarrow> string" where "Client_Address c = cl_address c"

definition Client_GetNode :: "client \<Rightarrow> node option" where "Client_GetNode c = cl_node c"

definition Client_GetConn :: "client \<Rightarrow> conn option" where "Client_GetConn c = cl_conn c"

definition Client_getConfig :: "client \<Rightarrow> client_config" where "Client_getConfig c = cl_config c"

definition Client_SetWriteDeadline :: "'w client_ext \<Rightarrow> int64 \<Rightarrow> ('w, unit) client_act" where
  "Client_SetWriteDeadline x deadline =
     bnd (obj cl_conn) (\<lambda>conn.
       case conn of None \<Rightarrow> throw ErrNilWebsocketConn | Some conn \<Rightarrow> env (Conn_SetWriteDeadline x conn deadline))"

section \<open>The retry loop with a bound\<close>

text \<open>
  The reference for the retry loop: at most \<open>n\<close> passes. Whatever the loop returns, it returns after
  finitely many passes, and with a bound on the retries it always returns.
\<close>

fun connect_n :: "'w client_ext \<Rightarrow> nat \<Rightarrow> bool \<Rightarrow> int32 \<Rightarrow> node option \<Rightarrow> ('w, unit) client_act" where
  "connect_n x 0 again retryInterval node = throw ErrConnectFailed"
| "connect_n x (Suc n) again retryInterval node =
     bnd (connect_pass x again retryInterval node) (\<lambda>(interval, node', connected).
       if connected then ret () else connect_n x n True interval node')"

lemma connect_loop_bounded:
  "0 \<le> maxRetries \<Longrightarrow> 1 \<le> retry \<Longrightarrow> n = nat (maxRetries - retry + 1) \<Longrightarrow>
     connect_loop x maxRetries retry interval node s = Some (connect_n x n (retry > 1) interval node s)"
proof (induction n arbitrary: retry interval node s)
  case 0
  then show ?case by (subst connect_loop.simps) simp
next
  case (Suc n)
  have "retry \<le> maxRetries" and n: "n = nat (maxRetries - (retry + 1) + 1)" using Suc.prems by auto
  then show ?case
    using Suc.IH [OF Suc.prems(1) _ n] Suc.prems(2)
    by (subst connect_loop.simps) (auto simp: bnd_def split: prod.splits res.splits)
qed

text \<open>A pass handles every error itself.\<close>

definition never_errs :: "('s, 'e, 'a) act \<Rightarrow> bool" where
  "never_errs m \<longleftrightarrow> (\<forall>s e s'. m s \<noteq> (Err e, s'))"

lemma never_errs_ret: "never_errs (ret a)"
  and never_errs_obj: "never_errs (obj f)"
  and never_errs_env_val: "never_errs (env_val g)"
  by (auto simp: never_errs_def)

lemma never_errs_bnd: "never_errs m \<Longrightarrow> (\<And>a. never_errs (f a)) \<Longrightarrow> never_errs (bnd m f)"
  and never_errs_attempt: "(\<And>e. never_errs (h e)) \<Longrightarrow> (\<And>a. never_errs (g a)) \<Longrightarrow> never_errs (attempt m' h g)"
  by (auto simp: never_errs_def bnd_def attempt_def split: prod.splits res.splits)

lemmas never_errs_intros = never_errs_ret never_errs_obj never_errs_env_val never_errs_bnd never_errs_attempt

lemma connect_pass_never_errs: "never_errs (connect_pass x again interval node)"
  unfolding connect_pass_def retry_pause_def connect_attempt_def
  by (intro never_errs_intros) (auto intro!: never_errs_intros split: prod.splits)

lemma connect_n_result:
  assumes "connect_n x n again interval node s = (Err e, s')"
  shows "e = ErrConnectFailed"
  using assms
proof (induction n arbitrary: again interval node s)
  case (Suc n)
  obtain r s1 where p: "connect_pass x again interval node s = (r, s1)" by (cases "connect_pass x again interval node s")
  then have ne: "\<not> (\<exists>e'. r = Err e')" using connect_pass_never_errs unfolding never_errs_def by metis
  with p Suc show ?case by (cases r) (auto simp: bnd_def split: prod.splits if_splits)
qed simp

lemma connect_loop_finds:
  "maxRetries < 0 \<Longrightarrow> 1 \<le> retry \<Longrightarrow> connect_n x n (retry > 1) interval node s = (Ok (), s') \<Longrightarrow>
     connect_loop x maxRetries retry interval node s = Some (Ok (), s')"
proof (induction n arbitrary: retry interval node s)
  case (Suc n)
  from Suc.prems(3) obtain interval' node' connected s1 where
    p: "connect_pass x (retry > 1) interval node s = (Ok (interval', node', connected), s1)"
    and r: "(if connected then ret () else connect_n x n True interval' node') s1 = (Ok (), s')"
    by (auto elim!: bnd_OkE)
  show ?case
  proof (cases connected)
    case False
    with r Suc.prems(2) have "connect_n x n (retry + 1 > 1) interval' node' s1 = (Ok (), s')" by simp
    from Suc.IH [OF Suc.prems(1) _ this] Suc.prems(1,2) p False show ?thesis by (subst connect_loop.simps) simp
  qed (use p r Suc.prems(1) in \<open>subst connect_loop.simps, simp\<close>)
qed simp

definition loop_explained ::
    "'w client_ext \<Rightarrow> int \<Rightarrow> int \<Rightarrow> int32 \<Rightarrow> node option \<Rightarrow> client \<times> 'w \<Rightarrow> unit result \<times> (client \<times> 'w) \<Rightarrow> bool" where
  "loop_explained x maxRetries retry interval node s y \<longleftrightarrow> (maxRetries < 0 \<longrightarrow> 1 \<le> retry \<longrightarrow>
     (\<exists>n. connect_n x n (retry > 1) interval node s = y) \<and> \<not> (\<exists>e. fst y = Err e))"

lemma loop_explained_step:
  assumes IH: "\<And>x maxRetries retry interval node s y. loop x maxRetries retry interval node s = Some y \<Longrightarrow>
      loop_explained x maxRetries retry interval node s y"
    and body: "(if maxRetries < 0 \<or> retry \<le> maxRetries
       then case connect_pass x (1 < retry) interval node s of
            (Ok (interval, node', connected), s') \<Rightarrow> if connected then Some (Ok (), s') else loop x maxRetries (retry + 1) interval node' s'
          | (Err e, s') \<Rightarrow> Some (Err e, s') | (Panic p, s') \<Rightarrow> Some (Panic p, s')
       else Some (Err ErrConnectFailed, s)) = Some y"
  shows "loop_explained x maxRetries retry interval node s y"
  unfolding loop_explained_def
proof (intro impI)
  assume neg: "maxRetries < 0" and retry: "1 \<le> retry"
  obtain r s1 where p: "connect_pass x (1 < retry) interval node s = (r, s1)" by (cases "connect_pass x (1 < retry) interval node s")
  show "(\<exists>n. connect_n x n (retry > 1) interval node s = y) \<and> \<not> (\<exists>e. fst y = Err e)"
  proof (cases r)
    case (Ok v)
    obtain i n' b where v: "v = (i, n', b)" by (cases v)
    show ?thesis
    proof (cases b)
      case True
      with body p Ok v neg have "connect_n x (Suc 0) (retry > 1) interval node s = y \<and> fst y = Ok ()" by (auto simp: bnd_Ok)
      then show ?thesis by fastforce
    next
      case False
      with body p Ok v neg have "loop x maxRetries (retry + 1) i n' s1 = Some y" by simp
      from IH [OF this] neg retry obtain m where "connect_n x m True i n' s1 = y" and e: "\<not> (\<exists>e. fst y = Err e)"
        by (auto simp: loop_explained_def)
      with p Ok v False have "connect_n x (Suc m) (retry > 1) interval node s = y" by (simp add: bnd_Ok)
      with e show ?thesis by blast
    qed
  next
    case (Panic q)
    with body p neg have "connect_n x (Suc 0) (retry > 1) interval node s = y \<and> fst y = Panic q" by (auto simp: bnd_Panic)
    then show ?thesis by fastforce
  next
    case (Err e)
    with p show ?thesis using connect_pass_never_errs unfolding never_errs_def by metis
  qed
qed

lemma connect_loop_returns:
  assumes "connect_loop x maxRetries retry interval node s = Some y"
  shows "loop_explained x maxRetries retry interval node s y"
proof -
  note induct = connect_loop.raw_induct [where P = loop_explained and xa = "(((((x, maxRetries), retry), interval), node), s)" and y = y,
      unfolded prod.case]
  show ?thesis by (rule induct, rule loop_explained_step, assumption, assumption, rule assms)
qed

section \<open>The pauses\<close>

lemma next_interval_sint:
  assumes "0 \<le> sint i" and "sint i \<le> sint hi" and "sint hi < 2 ^ 30"
  shows "sint (next_interval hi i) = min (sint i * 2) (sint hi)"
proof -
  have "sint (i * 2) = sint i * 2"
    using assms by (simp add: sint_word_ariths signed_take_bit_int_eq_self)
  then show ?thesis by (auto simp: next_interval_def Let_def sless_sint)
qed

lemma backoff:
  assumes "0 \<le> sint lo" and "sint lo \<le> sint hi" and "sint hi < 2 ^ 30"
  shows "sint ((next_interval hi ^^ k) lo) = min (sint lo * 2 ^ k) (sint hi)"
proof (induction k)
  case 0
  with assms show ?case by simp
next
  case (Suc k)
  from Suc assms have b: "0 \<le> sint ((next_interval hi ^^ k) lo)" "sint ((next_interval hi ^^ k) lo) \<le> sint hi" by simp_all
  have "sint ((next_interval hi ^^ Suc k) lo) = min (sint ((next_interval hi ^^ k) lo) * 2) (sint hi)"
    using next_interval_sint [OF b assms(3)] by simp
  also have "\<dots> = min (min (sint lo * 2 ^ k * 2) (sint hi * 2)) (sint hi)" using Suc by (simp add: min_mult_distrib_right)
  also have "\<dots> = min (sint lo * 2 ^ Suc k) (sint hi)" using assms by (auto simp: min_def)
  finally show ?case .
qed

section \<open>What connecting keeps\<close>

lemma adopt_conn_inv: "client_inv up x c \<Longrightarrow> client_inv True x (adopt_conn conn node rpcAddr t c)"
  by (simp add: client_inv_defs adopt_conn_def)

lemma client_inv_weaken: "client_inv True x c \<Longrightarrow> client_inv up x c"
  by (simp add: client_inv_def)

lemma keeps_start_conn [keeps_intros]: "keeps_client up x (start_conn x prevConn conn)"
  unfolding start_conn_def by (intro keeps_intros) simp_all

lemma keeps_connectToNode [keeps_intros]: "keeps_client up x (connectToNode x node)"
proof -
  have "client_inv up x (adopt_conn conn node rpcAddr t c)" if "client_inv up x c" for conn node rpcAddr t c
    using adopt_conn_inv [OF that] by (rule client_inv_weaken)
  then show ?thesis unfolding connectToNode_def by (intro keeps_intros) simp_all
qed

text \<open>A connection that stands makes the client a connected one.\<close>

lemma connectToNode_up:
  assumes "client_inv up x (fst s)" and "connectToNode x node s = (Ok (), s')"
  shows "client_inv True x (fst s')"
proof -
  obtain c w where s: "s = (c, w)" by fastforce
  from assms(2) s obtain conn rpcAddr t w1 where
    "start_conn x (cl_conn c) conn (adopt_conn conn node rpcAddr t c, w1) = (Ok (), s')"
    unfolding connectToNode_def by (auto elim!: bnd_OkE env_OkE)
  from keepsD_eq [OF keeps_start_conn [of True] _ this] adopt_conn_inv [of up x c] assms(1) s show ?thesis by simp
qed

lemma keeps_find_node [keeps_intros]: "keeps_client up x (find_node x)"
  unfolding find_node_def by (intro keeps_intros) (simp_all add: client_inv_defs)

lemma keeps_connect_pass [keeps_intros]: "keeps_client up x (connect_pass x again interval node)"
  unfolding connect_pass_def retry_pause_def connect_attempt_def by (intro keeps_intros) simp_all

lemma keeps_connect_n [keeps_intros]: "keeps_client up x (connect_n x n again interval node)"
  by (induction n arbitrary: again interval node) (auto intro!: keeps_intros)

lemma connect_pass_up:
  assumes "client_inv up x (fst s)" and "connect_pass x again interval node s = (Ok (i, n, True), s')"
  shows "client_inv True x (fst s')"
proof -
  let ?find = "case node of None \<Rightarrow> find_node x | Some n \<Rightarrow> ret n"
  from assms(2) obtain j s1 where j: "retry_pause x again interval s = (Ok j, s1)" and p: "connect_attempt x node s1 = (Ok (n, True), s')"
    unfolding connect_pass_def by (auto elim!: bnd_OkE)
  have "keeps_client up x (retry_pause x again interval)" unfolding retry_pause_def by (intro keeps_intros) simp
  from keepsD_eq [OF this assms(1) j] have s1: "client_inv up x (fst s1)" .
  obtain r s2 where f: "?find s1 = (r, s2)" by (cases "?find s1")
  have "keeps_client up x (case node of None \<Rightarrow> find_node x | Some n \<Rightarrow> ret n)" by (intro keeps_intros)
  from keepsD_eq [OF this s1 f] have s2: "client_inv up x (fst s2)" .
  from p f obtain m where r: "r = Ok m" and c: "attempt (connectToNode x m) (\<lambda>err. ret (Some m, False)) (\<lambda>_. ret (Some m, True)) s2 = (Ok (n, True), s')"
    by (cases r) (auto simp: connect_attempt_def attempt_def)
  then have "connectToNode x m s2 = (Ok (), s')" by (auto simp: attempt_def split: prod.splits res.splits)
  from connectToNode_up [OF s2 this] show ?thesis .
qed

lemma connect_n_up:
  "client_inv up x (fst s) \<Longrightarrow> connect_n x n again interval node s = (Ok (), s') \<Longrightarrow> client_inv True x (fst s')"
proof (induction n arbitrary: again interval node s)
  case (Suc n)
  from Suc.prems(2) obtain i m b s1 where p: "connect_pass x again interval node s = (Ok (i, m, b), s1)"
    and r: "(if b then ret () else connect_n x n True i m) s1 = (Ok (), s')" by (auto elim!: bnd_OkE)
  show ?case
  proof (cases b)
    case True
    with p r connect_pass_up [OF Suc.prems(1)] show ?thesis by auto
  next
    case False
    with r Suc.IH keepsD_eq [OF keeps_connect_pass Suc.prems(1) p] show ?thesis by simp
  qed
qed simp

lemma connect_explained:
  assumes "connect x maxRetries node s = Some (r, s')"
  obtains n where "connect_n x n False (cc_MinReconnectInterval (cl_config (fst s))) node s = (r, s')"
proof (cases "maxRetries < 0")
  case True
  with connect_loop_returns [OF assms [unfolded connect_def]] that show ?thesis by (auto simp: loop_explained_def)
next
  case False
  with connect_loop_bounded [of maxRetries 1 _ x "cc_MinReconnectInterval (cl_config (fst s))" node s] assms that
  show ?thesis by (auto simp: connect_def)
qed

lemma connect_inv:
  assumes "connect x maxRetries node s = Some (r, s')" and "client_inv up x (fst s)"
  shows "client_inv up x (fst s') \<and> (r = Ok () \<longrightarrow> client_inv True x (fst s'))"
proof -
  from connect_explained [OF assms(1)] obtain n where
    n: "connect_n x n False (cc_MinReconnectInterval (cl_config (fst s))) node s = (r, s')" .
  from keepsD_eq [OF keeps_connect_n assms(2) n] connect_n_up [OF assms(2)] n show ?thesis by blast
qed

lemma make_client_inv: "make_client x account ident conf w = (Ok c, w') \<Longrightarrow> client_inv False x c"
  unfolding make_client_def
  by (auto elim!: bnd_OkE split: if_splits)
    (simp add: new_client_def Let_def client_inv_defs OnConnect_defs OnMessage_defs OnMessageEvent_defs on_event_defs)

lemma NewClient_inv:
  assumes "NewClient x account ident conf w = Some (Ok c, w')"
  shows "client_inv True x c"
proof -
  from assms obtain c0 w0 where m: "make_client x account ident conf w = (Ok c0, w0)"
    by (auto simp: NewClient_def split: prod.splits res.splits)
  with assms obtain w2 where "connect x (sint (cc_ConnectRetries (cl_config c0))) None (c0, w0) = Some (Ok (), (c, w2))"
    by (auto simp: NewClient_def split: option.splits prod.splits)
  from connect_inv [OF this] make_client_inv [OF m] show ?thesis by auto
qed

section \<open>The running client\<close>

text \<open>
  What can happen to a client between two moments at which no operation holds it: an operation of its
  user, a round of one of its goroutines, a value taken from one of its queues, or a change of the
  environment alone. A goroutine leaves the tasks when it ends.
\<close>

definition drop_task :: "task \<Rightarrow> client \<Rightarrow> client" where
  "drop_task t c = c\<lparr>cl_tasks := remove1 t (cl_tasks c)\<rparr>"

definition take_request :: "client \<Rightarrow> client" where
  "take_request c = c\<lparr>cl_reconnectChan := (cl_reconnectChan c)\<lparr>rq_Handed := None\<rparr>\<rparr>"

definition await_request :: "client \<Rightarrow> client" where
  "await_request c = c\<lparr>cl_reconnectChan := (cl_reconnectChan c)\<lparr>rq_Waiting := True\<rparr>\<rparr>"

inductive client_step :: "'w client_ext \<Rightarrow> client \<times> 'w \<Rightarrow> client \<times> 'w \<Rightarrow> bool" for x where
  send: "Client_Send x dests data conf s = (r, t) \<Longrightarrow> client_step x s t"
| publish: "Client_Publish x topic data conf s = Some (r, t) \<Longrightarrow> client_step x s t"
| reply: "Client_Message_Reply x msg data s = (r, t) \<Longrightarrow> client_step x s t"
| close: "Client_Close x s = (r, t) \<Longrightarrow> client_step x s t"
| reconnect: "Client_Reconnect node s = (r, t) \<Longrightarrow> client_step x s t"
| set_deadline: "Client_SetWriteDeadline x deadline s = (r, t) \<Longrightarrow> client_step x s t"
| reconnect_task: "TReconnect node \<in> set (cl_tasks c) \<Longrightarrow> Client_Reconnect node (drop_task (TReconnect node) c, w) = (r, t) \<Longrightarrow>
    client_step x (c, w) t"
| receipt_task: "TSendReceipt h \<in> set (cl_tasks c) \<Longrightarrow> sendReceipt x h (drop_task (TSendReceipt h) c, w) = (r, t) \<Longrightarrow>
    client_step x (c, w) t"
| setClient: "TSetClient conn \<in> set (cl_tasks c) \<Longrightarrow> setClient_task x conn (drop_task (TSetClient conn) c, w) = (r, t) \<Longrightarrow>
    client_step x (c, w) t"
| ping: "TPing conn \<in> set (cl_tasks c) \<Longrightarrow> ping_round x conn (c, w) = (r, (c', w')) \<Longrightarrow>
    client_step x (c, w) (if r = Ok True then c' else drop_task (TPing conn) c', w')"
| ping_done: "TRead conn \<notin> set (cl_tasks c) \<Longrightarrow> client_step x (c, w) (drop_task (TPing conn) c, w)"
| read: "TRead conn \<in> set (cl_tasks c) \<Longrightarrow> read_round x received (c, w) = (r, (c', w')) \<Longrightarrow>
    client_step x (c, w) (if r = Ok True then c' else drop_task (TRead conn) c', w')"
| handle_reconnect: "rq_Handed (cl_reconnectChan c) = Some node \<Longrightarrow>
    handleReconnect_round x node (take_request c, w) = Some (r, (c', w')) \<Longrightarrow>
    client_step x (c, w) (if r = Ok True then await_request c' else c', w')"
| take_message: "OnMessage_Next (cl_OnMessage c) = (v, ev) \<Longrightarrow> client_step x (c, w) (c\<lparr>cl_OnMessage := ev\<rparr>, w)"
| take_connect: "OnConnect_Next (cl_OnConnect c) = (n, ev) \<Longrightarrow> client_step x (c, w) (c\<lparr>cl_OnConnect := ev\<rparr>, w)"
| take_event: "cl_OnMessageEvent c = Some oe \<Longrightarrow> OnMessageEvent_Next oe = (v, ev) \<Longrightarrow>
    client_step x (c, w) (c\<lparr>cl_OnMessageEvent := Some ev\<rparr>, w)"
| environment: "client_step x (c, w) (c, w')"

lemma keeps_Message_Reply [keeps_intros]: "keeps_client up x (Client_Message_Reply x msg data)"
proof -
  have "keeps_client up x (NewReplyPayload (cx_proto x) (\<lambda>n. env (cx_rand x n)) data mid)" for mid
    by (cases data; auto simp: newPayload_defs intro!: keeps_intros)
  then show ?thesis unfolding Client_Message_Reply_def
    by (cases "m_reply msg"; auto intro!: keeps_intros)
qed

lemma keeps_ping_round [keeps_intros]: "keeps_client up x (ping_round x conn)"
  unfolding ping_round_def by (intro keeps_intros) simp

lemma keeps_setClient_task [keeps_intros]: "keeps_client up x (setClient_task x conn)"
proof -
  have "keeps_client up x take_challenge"
    by (auto simp: keeps_def take_challenge_def client_inv_defs chan_recv_def split: list.splits)
  then show ?thesis unfolding setClient_task_def by (intro keeps_intros) simp_all
qed

lemma keeps_read_round [keeps_intros]: "keeps_client up x (read_round x received)"
  unfolding read_round_def by (intro keeps_intros) (cases received; auto intro!: keeps_intros)

lemma keeps_SetWriteDeadline [keeps_intros]: "keeps_client up x (Client_SetWriteDeadline x t)"
  unfolding Client_SetWriteDeadline_def by (intro keeps_intros) simp

lemma publish_loop_keeps:
  assumes "publish_loop query n limit offset dests s = Some (r, t)" and "\<And>offset. keeps P (query offset)" and "P s"
  shows "P t"
proof -
  let ?P = "\<lambda>q (n :: int) (l :: int) (off :: int) (ds :: string list) s y. (\<forall>offset. keeps P (q offset)) \<longrightarrow> P s \<longrightarrow> P (snd y)"
  have "(\<forall>offset. keeps P (query offset)) \<longrightarrow> P s \<longrightarrow> P (snd (r, t))"
  proof (rule publish_loop.raw_induct [where P = ?P, OF _ assms(1)], intro impI)
    fix loop q and n l off :: int and ds s y
    assume IH: "\<And>q n l off ds s y. loop q n l off ds s = Some y \<Longrightarrow> (\<forall>offset. keeps P (q offset)) \<longrightarrow> P s \<longrightarrow> P (snd y)"
      and body: "(if l \<le> n then case q (off + l) s of
          (Ok res, s') \<Rightarrow> loop q n l (off + l) (ds @ map fst (sb_Subscribers res)) s'
        | (Err e, s') \<Rightarrow> Some (Err e, s') | (Panic p, s') \<Rightarrow> Some (Panic p, s') else Some (Ok ds, s)) = Some y"
      and k: "\<forall>offset. keeps P (q offset)" and s: "P s"
    obtain r' s' where q: "q (off + l) s = (r', s')" by fastforce
    with k s have "P s'" by (metis keepsD_eq)
    with body q IH k s show "P (snd y)" by (cases r') (auto split: if_splits)
  qed
  with assms(2,3) show ?thesis by simp
qed

lemma publish_keeps:
  assumes "publish copy newPayload pc topic conf s = Some (r, t)" and "P s"
    and "\<And>mid nr. keeps P (newPayload mid nr)" and "\<And>tp off l m tx h. keeps P (pc_GetSubscribers pc tp off l m tx h)"
    and "\<And>ds p e mh. keeps P (pc_send pc ds p e mh)"
  shows "P t"
proof (cases "MergeMessageConfig copy (pc_MessageConfig pc) conf")
  case (Ok cfg)
  obtain r1 s1 where n: "newPayload (mc_MessageID cfg) True s = (r1, s1)" by fastforce
  with assms(2,3) have s1: "P s1" by (metis keepsD_eq)
  have dests: "P s2" if "publish_dests pc topic cfg s1 = Some (r2, s2)" for r2 s2
  proof -
    obtain r0 s0 where g: "pc_GetSubscribers pc topic (sint (mc_Offset cfg)) (sint (mc_Limit cfg)) False (mc_TxPool cfg) [] s1 = (r0, s0)"
      by fastforce
    with assms(4) s1 have "P s0" by (metis keepsD_eq)
    with that g assms(4) show ?thesis
      by (cases r0) (auto simp: publish_dests_def split: option.splits intro: publish_loop_keeps)
  qed
  show ?thesis
  proof (cases r1)
    case (Ok payload)
    with assms(1) n \<open>MergeMessageConfig copy (pc_MessageConfig pc) conf = Ok cfg\<close> obtain r2 s2 where
      d: "publish_dests pc topic cfg s1 = Some (r2, s2)" by (cases "publish_dests pc topic cfg s1") (auto simp: publish_def)
    have "P s2" using dests [OF d] .
    with assms(1,5) n Ok d \<open>MergeMessageConfig copy (pc_MessageConfig pc) conf = Ok cfg\<close> show ?thesis
      by (cases r2) (auto simp: publish_def intro: keepsD_eq [OF assms(5)])
  qed (use assms(1) n s1 \<open>MergeMessageConfig copy (pc_MessageConfig pc) conf = Ok cfg\<close> in \<open>auto simp: publish_def\<close>)
qed (use assms(1,2) in \<open>auto simp: publish_def\<close>)

lemma Publish_inv:
  assumes "Client_Publish x topic data conf s = Some (r, t)" and "client_inv up x (fst s)"
  shows "client_inv up x (fst t)"
proof (rule publish_keeps [where P = "\<lambda>s. client_inv up x (fst s)", OF assms(1) [unfolded Client_Publish_def] assms(2)])
  show "keeps_client up x (env (newMessagePayload (cx_proto x) (cx_rand x) data mid nr))" for mid nr
    by (rule keeps_env) simp
qed (auto simp: client_publisher_def intro!: keeps_intros)

lemma handleReconnect_inv:
  assumes "handleReconnect_round x node s = Some (r, t)" and "client_inv up x (fst s)"
  shows "client_inv up x (fst t)"
proof -
  obtain c w where s: "s = (c, w)" by fastforce
  show ?thesis
  proof (cases "Client_IsClosed c")
    case False
    let ?w1 = "snd (cx_Sleep x (cc_MinReconnectInterval (cl_config c)) w)"
    from False assms(1) s obtain r1 s2 where c: "connect x (- 1) node (c, ?w1) = Some (r1, s2)"
      by (cases "connect x (- 1) node (c, ?w1)") (auto simp: handleReconnect_round_def)
    from connect_inv [OF c, of up] assms(2) s have s2: "client_inv up x (fst s2)" by simp
    have "keeps_client up x (attempt (Client_Close x) (\<lambda>_. ret False) (\<lambda>_. ret False))" by (intro keeps_intros)
    from keepsD [OF this s2] False assms(1) s c s2 show ?thesis
      by (cases r1) (auto simp: handleReconnect_round_def)
  qed (use assms s in \<open>auto simp: handleReconnect_round_def\<close>)
qed

lemma client_inv_bookkeeping:
  assumes "client_inv up x c"
  shows "client_inv up x (drop_task t c)" "client_inv up x (take_request c)" "client_inv up x (await_request c)"
  using assms by (simp_all add: client_inv_defs drop_task_def take_request_def await_request_def)

lemma on_next_closed: "on_next ev = (v, ev') \<Longrightarrow> ch_closed (oe_C ev') = ch_closed (oe_C ev)"
  by (auto simp: on_next_def chan_recv_def split: list.splits)

lemma client_step_inv:
  assumes "client_step x s t" and "client_inv up x (fst s)"
  shows "client_inv up x (fst t)"
  using assms
proof (induction rule: client_step.induct)
  case (publish topic data conf s r t)
  then show ?case by (blast intro: Publish_inv)
next
  case (handle_reconnect c node w r c' w')
  with handleReconnect_inv [of x node "(take_request c, w)" r "(c', w')" up] show ?case by (simp add: client_inv_bookkeeping)
next
  case (take_message c v ev w)
  then show ?case by (auto simp: client_inv_defs OnMessage_Next_def dest: on_next_closed)
next
  case (take_connect c n ev w)
  then show ?case by (auto simp: client_inv_defs OnConnect_Next_def dest: on_next_closed)
next
  case (take_event c oe v ev w)
  then show ?case by (auto simp: client_inv_defs OnMessageEvent_Next_def dest: on_next_closed)
next
  case (ping conn c w r c' w')
  with keepsD_eq [OF keeps_ping_round [of up], of x "(c, w)" conn r "(c', w')"] show ?case by (simp add: client_inv_bookkeeping)
next
  case (read conn c received w r c' w')
  with keepsD_eq [OF keeps_read_round [of up], of x "(c, w)" received r "(c', w')"] show ?case by (simp add: client_inv_bookkeeping)
next
  case (reconnect_task node c w r t)
  with keepsD_eq [OF keeps_Reconnect [of up x] _ reconnect_task(2)] show ?case by (simp add: client_inv_bookkeeping)
next
  case (receipt_task h c w r t)
  with keepsD_eq [OF keeps_sendReceipt [of up x] _ receipt_task(2)] show ?case by (simp add: client_inv_bookkeeping)
next
  case (setClient conn c w r t)
  with keepsD_eq [OF keeps_setClient_task [of up x] _ setClient(2)] show ?case by (simp add: client_inv_bookkeeping)
qed (auto intro: keepsD_eq [OF keeps_Send] keepsD_eq [OF keeps_Message_Reply] keepsD_eq [OF keeps_Close] keepsD_eq [OF keeps_Reconnect]
    keepsD_eq [OF keeps_SetWriteDeadline] simp: client_inv_bookkeeping)

interpretation running_client: invariant_system
  "\<lambda>(c, w). \<exists>account ident conf v. NewClient x account ident conf v = Some (Ok c, w)" "client_step x" "\<lambda>s. client_inv True x (fst s)" for x
  by unfold_locales (auto intro: NewClient_inv client_step_inv)

definition all_closed :: "client \<Rightarrow> bool" where
  "all_closed c \<longleftrightarrow> cl_isClosed c \<and> cl_State c = ConnDisconnected \<and> ch_closed (oe_C (cl_OnConnect c)) \<and> ch_closed (oe_C (cl_OnMessage c)) \<and>
     (case cl_OnMessageEvent c of None \<Rightarrow> True | Some oe \<Rightarrow> ch_closed (oe_C oe)) \<and>
     rq_Closed (cl_reconnectChan c) \<and> ch_closed (cl_chChallengeSignature c)"

section \<open>Witness instances\<close>

text \<open>An environment in which the seed servers name a node and the node accepts the connection.\<close>

definition demo_conn_cx :: "unit client_ext" where
  "demo_conn_cx = demo_cx\<lparr>cx_net := demo_net\<lparr>Json_Parse := (\<lambda>b. Some (JObj [(''result'', JObj [])]))\<rparr>\<rparr>"

lemma demo_GetWsAddr:
  "GetWsAddrContext (cx_net demo_conn_cx) addr (Some (ClientConfig_RPC GetDefaultClientConfig)) () = (Ok zero_node, ())"
  by (simp add: GetWsAddrContext_def RPCCall_def demo_conn_cx_def demo_net_def ClientConfig_RPC_def GetDefaultClientConfig_def
      DefaultSeedRPCServerAddr_def httpPost_def bnd_def attempt_def handle_body_def dec_rpcResp_def at_field_def key_eq_def
      lower_char_def rpc_outcome_def dec_node_def)

definition demo_connected :: "client \<Rightarrow> client" where
  "demo_connected c = (adopt_conn 1 zero_node [] 1000 c)\<lparr>cl_tasks := cl_tasks c @ [TPing 1, TSetClient 1, TRead 1]\<rparr>"

lemma demo_connect_pass:
  assumes "cl_config c = GetDefaultClientConfig" and "cl_conn c = None"
  shows "connect_pass demo_conn_cx False i None (c, ()) = (Ok (i, Some zero_node, True), (demo_connected c, ()))"
proof -
  have w: "\<not> cc_WebRTC (cl_config c)" using assms(1) by (simp add: GetDefaultClientConfig_def)
  have f: "find_node demo_conn_cx (c, ()) = (Ok zero_node, (c, ()))"
    using w demo_GetWsAddr by (simp add: find_node_def assms(1))
  have "connectToNode demo_conn_cx zero_node (c, ()) = (Ok (), (demo_connected c, ()))"
    using w assms(2)
    by (simp add: connectToNode_def probe_rpc_def zero_node_def dial_node_def start_conn_def spawn_def demo_connected_def bnd_def)
      (simp add: demo_conn_cx_def demo_cx_def adopt_conn_def zero_node_def)
  with f show ?thesis by (simp add: connect_pass_def retry_pause_def connect_attempt_def attempt_def bnd_def)
qed

lemma demo_defaults:
  "cc_SeedRPCServerAddr GetDefaultClientConfig = DefaultSeedRPCServerAddr" "DefaultSeedRPCServerAddr \<noteq> []"
  "\<not> cc_MsgChanLen GetDefaultClientConfig <s 0" "cc_Resolvers GetDefaultClientConfig = []"
  by (simp_all add: GetDefaultClientConfig_def DefaultSeedRPCServerAddr_def word_sless_alt)

lemma demo_NewClient_any:
  assumes "MergeClientConfig (copy_client_config demo_conn_cx) conf = Ok GetDefaultClientConfig"
  shows "\<exists>c. NewClient demo_conn_cx demo_account ident conf () = Some (Ok (demo_connected c), ()) \<and> \<not> cl_isClosed c"
proof -
  obtain wallet where "NewWallet (cx_vault demo_conn_cx) demo_account (Some (wallet_of_seeds DefaultSeedRPCServerAddr)) () = (Ok wallet, ())"
    by (simp add: NewWallet_def demo_conn_cx_def demo_cx_def demo_vault_def MergeWalletConfig_def wallet_of_seeds_def bnd_def
        overlay_def GetDefaultWalletConfig_def)
  then have m: "make_client demo_conn_cx demo_account ident conf () =
      (Ok (new_client demo_conn_cx demo_account ident GetDefaultClientConfig wallet []), ())" (is "_ = (Ok ?c, ())")
    using demo_defaults by (simp add: make_client_def assms bnd_Ok)
  have c: "cl_config ?c = GetDefaultClientConfig" "cl_conn ?c = None" "\<not> cl_isClosed ?c" by (simp_all add: new_client_def Let_def)
  have "connect demo_conn_cx 3 None (?c, ()) = Some (Ok (), (demo_connected ?c, ()))"
    unfolding connect_def by (subst connect_loop.simps) (simp add: demo_connect_pass [OF c(1,2)])
  with m c show ?thesis by (auto simp: NewClient_def GetDefaultClientConfig_def)
qed

lemma demo_NewClient:
  "\<exists>c. NewClient demo_conn_cx demo_account ''alice'' None () = Some (Ok (demo_connected c), ()) \<and> \<not> cl_isClosed c"
  by (rule demo_NewClient_any) (use demo_defaults in \<open>simp add: MergeClientConfig_def\<close>)

section \<open>Properties\<close>

text \<open>
  C13: A client is closed at most once and completely: in every state that a client returned by
  \<^verbatim>\<open>NewClient\<close> reaches through its operations, its goroutines and its users' reads, \<^verbatim>\<open>Close\<close> does not panic
  on a closed channel, a missing connection or anything else as long as closing the connection does not;
  on an open client it returns the error of closing the connection and leaves every channel closed, and
  on a closed client it changes nothing and reports success.
\<close>

theorem client_close_safe:
  assumes "NewClient x account ident conf v = Some (Ok c0, w0)" and "(client_step x)\<^sup>*\<^sup>* (c0, w0) (c, w)"
    and "\<And>k u. \<not> is_panic (fst (Conn_Close x k u))"
  shows "client_inv True x c \<and>
    (if cl_isClosed c then Client_Close x (c, w) = (Ok (), (c, w))
     else (\<exists>k c' w'. cl_conn c = Some k \<and> Client_Close x (c, w) = (fst (Conn_Close x k w), (c', w')) \<and> all_closed c'))"
proof -
  have inv: "client_inv True x c"
    using running_client.reachable_inv [of x "(c0, w0)" "(c, w)"] assms(1,2) by auto
  show ?thesis
  proof (cases "cl_isClosed c")
    case True
    with inv Client_Close_closed show ?thesis by auto
  next
    case False
    with inv obtain k where k: "cl_conn c = Some k" and op: "channels_open c" by (auto simp: client_inv_def)
    obtain r w' where r: "Conn_Close x k w = (r, w')" by fastforce
    with assms(3) [of k w] have "\<not> is_panic r" by simp
    from Client_Close_open [OF False op k r this] False inv k r show ?thesis by (auto simp: all_closed_def split: option.splits)
  qed
qed

theorem client_close_safe_witness:
  "\<exists>c0 c'. NewClient demo_conn_cx demo_account ''alice'' None () = Some (Ok c0, ()) \<and>
     Client_Close demo_conn_cx (c0, ()) = (Ok (), (c', ())) \<and> all_closed c'"
proof -
  from demo_NewClient obtain c where n: "NewClient demo_conn_cx demo_account ''alice'' None () = Some (Ok (demo_connected c), ())"
    and o: "\<not> cl_isClosed (demo_connected c)" by (auto simp: demo_connected_def adopt_conn_def)
  have "Conn_Close demo_conn_cx k u = (Ok (), u)" for k u by (simp add: demo_conn_cx_def demo_cx_def)
  with client_close_safe [OF n, of "demo_connected c" "()"] o n show ?thesis by auto
qed

text \<open>
  C28: With a bound on the retries \<^verbatim>\<open>connect\<close> always returns, after at most that many attempts: it is the loop
  with a counter, and if it fails, its error is \<^verbatim>\<open>ErrConnectFailed\<close>.
\<close>

theorem connect_bounded_terminates:
  assumes "0 \<le> maxRetries"
  shows "\<exists>r s'. connect x maxRetries node s = Some (r, s') \<and>
     connect_n x (nat maxRetries) False (cc_MinReconnectInterval (cl_config (fst s))) node s = (r, s') \<and>
     (\<forall>e. r = Err e \<longrightarrow> e = ErrConnectFailed)"
proof -
  let ?i = "cc_MinReconnectInterval (cl_config (fst s))"
  obtain r s' where n: "connect_n x (nat maxRetries) False ?i node s = (r, s')" by (cases "connect_n x (nat maxRetries) False ?i node s")
  have "connect x maxRetries node s = Some (connect_n x (nat maxRetries) False ?i node s)"
    using connect_loop_bounded [of maxRetries 1 "nat maxRetries" x ?i node s] assms by (simp add: connect_def)
  with n connect_n_result show ?thesis by fastforce
qed

theorem connect_bounded_terminates_witness:
  "\<exists>r s'. connect demo_cx 2 None (demo_client, ()) = Some (r, s') \<and> (\<forall>e. r = Err e \<longrightarrow> e = ErrConnectFailed)"
  using connect_bounded_terminates [of 2 demo_cx None "(demo_client, ())"] by auto

text \<open>
  C29: Without a bound, as after a lost connection, \<^verbatim>\<open>connect\<close> never gives up: it returns success if and only if
  some number of attempts is enough to succeed, and it never returns an error, so that the loop of
  \<^verbatim>\<open>handleReconnect\<close> never closes the client because of one.
\<close>

theorem connect_unbounded_live:
  assumes "maxRetries < 0"
  shows "(connect x maxRetries node s = Some (Ok (), s') \<longleftrightarrow>
      (\<exists>n. connect_n x n False (cc_MinReconnectInterval (cl_config (fst s))) node s = (Ok (), s'))) \<and>
     connect x maxRetries node s \<noteq> Some (Err e, t)"
proof -
  let ?i = "cc_MinReconnectInterval (cl_config (fst s))"
  have "connect x maxRetries node s = Some (Ok (), s')" if "connect_n x n False ?i node s = (Ok (), s')" for n
    using connect_loop_finds [OF assms, of 1 x n ?i node s s'] that by (simp add: connect_def)
  moreover have "loop_explained x maxRetries 1 ?i node s y" if "connect x maxRetries node s = Some y" for y
    using connect_loop_returns that unfolding connect_def by blast
  ultimately show ?thesis using assms by (fastforce simp: loop_explained_def)
qed

theorem connect_unbounded_live_witness:
  "connect demo_conn_cx (- 1) None (demo_client\<lparr>cl_conn := None\<rparr>, ()) = Some (Ok (), (demo_connected (demo_client\<lparr>cl_conn := None\<rparr>), ()))"
proof -
  let ?c = "demo_client\<lparr>cl_conn := None\<rparr>"
  have c: "cl_config ?c = GetDefaultClientConfig" by (simp add: demo_client_def)
  have "connect_n demo_conn_cx 1 False i None (?c, ()) = (Ok (), (demo_connected ?c, ()))" for i
    using demo_connect_pass [OF c] by (simp add: bnd_Ok)
  then have "\<exists>n. connect_n demo_conn_cx n False (cc_MinReconnectInterval (cl_config (fst (?c, ())))) None (?c, ()) = (Ok (), (demo_connected ?c, ()))"
    by (rule exI)
  then show ?thesis by (rule connect_unbounded_live [THEN conjunct1, THEN iffD2, rotated]) simp
qed

text \<open>
  The pause between two attempts doubles from \<^verbatim>\<open>MinReconnectInterval\<close> up to \<^verbatim>\<open>MaxReconnectInterval\<close> and then
  stays there: after \<open>k\<close> pauses it is the smaller of the first interval times two to the \<open>k\<close> and the
  largest interval, as long as the intervals are not negative, in order, and below 2 to the 30
  milliseconds, beyond which doubling would overflow the 32-bit interval.
\<close>

theorem retry_interval_backoff:
  assumes "0 \<le> sint lo" and "sint lo \<le> sint hi" and "sint hi < 2 ^ 30"
  shows "sint ((next_interval hi ^^ k) lo) = min (sint lo * 2 ^ k) (sint hi) \<and> (next_interval hi ^^ k) lo \<le>s hi"
  using backoff [OF assms, of k] by (simp add: sle_sint)

theorem retry_interval_backoff_witness:
  "sint ((next_interval 64000 ^^ 6) (1000 :: int32)) = 64000"
  using retry_interval_backoff [of 1000 64000 6] by simp

end
