(* ===== verification/Nkn_MultiClient.thy ===== *)
theory Nkn_MultiClient
  imports Nkn_Client_Conn "HOL-Library.AList" "HOL-Library.Multiset" Complex_Main
begin

text \<open>
  The state of a multiclient (\<^verbatim>\<open>MultiClient\<close> of \<^verbatim>\<open>src/multiclient.go\<close>), its choice of sub-clients and its
  sending.

  The map of sub-clients is an association list from ids to clients with distinct ids; its order stands
  for the order in which Go's \<^verbatim>\<open>range\<close> visits the map, which the language leaves open, and the results
  hold for every order. Every sub-client has its own cache of reply channels, hence its own parameters
  \<open>mx_client\<close>; the parameters that belong to the multiclient itself are in \<open>mx_cx\<close>. A session of the
  \<^verbatim>\<open>ncp\<close> package is identified by a number. \<^verbatim>\<open>Send\<close> hands its raw reply channel to the caches of all
  clients it sends with; here each of these clients gets a channel of its own, and since one message is
  read from the raw channel in all, no more than the first reply counts in both. The goroutine that \<^verbatim>\<open>Send\<close>
  starts reports to its caller through channels; here it runs to its end before the caller goes on.
  Stability scores are rational numbers; the code computes them in floating point.
\<close>

section \<open>State and parameters\<close>

record multi_client =
  mu_OnConnect :: "node option on_event"
  mu_OnMessage :: "message on_event"
  mu_OnMessageEvent :: "message_event on_event option"
  mu_config :: client_config
  mu_offset :: int
  mu_addr :: client_addr
  mu_acceptSession :: "nat chan"
  mu_onClose :: bool
  mu_resolvers :: "nat list"
  mu_clients :: "(int \<times> client) list"
  mu_clientErrors :: "(int \<times> err) list"
  mu_defaultClient :: "int option"
  mu_acceptAddrs :: "string list"
  mu_isClosed :: bool
  mu_createDone :: bool
  mu_numSubClients :: int
  mu_originalClient :: bool
  mu_sessions :: "(string \<times> nat) list"
  mu_defaultClientIdx :: int
  mu_creating :: "int list"
  mu_lingering :: bool
  mu_replyChans :: "message on_event list"

record 'w multi_ext =
  mx_cx :: "'w client_ext"
  mx_client :: "int \<Rightarrow> 'w client_ext"
  MsgCache_Get :: "bytes \<Rightarrow> 'w \<Rightarrow> bool \<times> 'w"
  MsgCache_Set :: "bytes \<Rightarrow> 'w \<Rightarrow> unit \<times> 'w"
  copy_dial_config :: "dial_config copier"
  NewSession :: "string \<Rightarrow> string \<Rightarrow> string list \<Rightarrow> ncp_config \<Rightarrow> ('w, err, nat) act"
  Session_ReceiveWith :: "nat \<Rightarrow> string \<Rightarrow> string \<Rightarrow> bytes \<Rightarrow> ('w, err, unit) act"
  Session_Dial :: "nat \<Rightarrow> int32 option \<Rightarrow> ('w, err, unit) act"
  Session_Accept :: "nat \<Rightarrow> ('w, err, unit) act"
  Session_Close :: "nat \<Rightarrow> ('w, err, unit) act"
  regexp_Compile :: "string \<Rightarrow> unit result"
  regexp_MatchString :: "string \<Rightarrow> string \<Rightarrow> bool"

type_synonym ('w, 'a) multi_act = "(multi_client \<times> 'w, err, 'a) act"

text \<open>An operation of sub-client \<open>i\<close>; there must be one.\<close>

definition on_client :: "int \<Rightarrow> ('w, 'a) client_act \<Rightarrow> ('w, 'a) multi_act" where
  "on_client i op = (\<lambda>(m, w).
     case map_of (mu_clients m) i of
       None \<Rightarrow> (Panic NilDereference, (m, w))
     | Some c \<Rightarrow> (case op (c, w) of (r, (c', w')) \<Rightarrow> (r, (m\<lparr>mu_clients := AList.update i c' (mu_clients m)\<rparr>, w'))))"

section \<open>Accessors\<close>

definition GetClients :: "multi_client \<Rightarrow> (int \<times> client) list" where "GetClients m = mu_clients m"

definition GetClient :: "multi_client \<Rightarrow> int \<Rightarrow> client option" where "GetClient m i = map_of (mu_clients m) i"

definition GetDefaultClient :: "multi_client \<Rightarrow> client option" where
  "GetDefaultClient m = (case mu_defaultClient m of None \<Rightarrow> None | Some i \<Rightarrow> map_of (mu_clients m) i)"

text \<open>A method of the default client, called through its pointer.\<close>

definition default_client :: "multi_client \<Rightarrow> client result" where
  "default_client m = (case GetDefaultClient m of None \<Rightarrow> Panic NilDereference | Some c \<Rightarrow> Ok c)"

definition MultiClient_Account :: "multi_client \<Rightarrow> account result" where
  "MultiClient_Account m = and_then (default_client m) (\<lambda>c. Ok (cl_account c))"

definition MultiClient_Seed :: "'w multi_ext \<Rightarrow> multi_client \<Rightarrow> bytes result" where
  "MultiClient_Seed x m = and_then (default_client m) (\<lambda>c. Ok (Client_Seed (mx_cx x) c))"

definition MultiClient_PubKey :: "multi_client \<Rightarrow> bytes result" where
  "MultiClient_PubKey m = and_then (default_client m) (\<lambda>c. Ok (Client_PubKey c))"

definition MultiClient_Address :: "multi_client \<Rightarrow> string" where "MultiClient_Address m = ClientAddr_String (mu_addr m)"

definition MultiClient_Addr :: "multi_client \<Rightarrow> client_addr" where "MultiClient_Addr m = mu_addr m"

definition MultiClient_IsClosed :: "multi_client \<Rightarrow> bool" where "MultiClient_IsClosed m = mu_isClosed m"

definition MultiClient_getConfig :: "multi_client \<Rightarrow> client_config" where "MultiClient_getConfig m = mu_config m"

definition GetClientStats :: "multi_client \<Rightarrow> int \<Rightarrow> client_stats option" where
  "GetClientStats m clientID = (case GetClient m clientID of None \<Rightarrow> None | Some c \<Rightarrow> cl_Stats c)"

text \<open>The ids of all clients that were to be created, in the order in which \<^verbatim>\<open>sendWithClient\<close> lists them.\<close>

definition expected_ids :: "multi_client \<Rightarrow> int list" where
  "expected_ids m = [- (if mu_originalClient m then 1 else 0) .. mu_numSubClients m - 1]"

record sub_client_conn_event =
  se_BaseAddress :: string
  se_SubAddress :: string
  se_Index :: int
  se_State :: int32
  se_Err :: "err option"
  se_NodeAddr :: string
  se_NodeID :: string

definition sub_conn_state :: "multi_client \<Rightarrow> int \<Rightarrow> sub_client_conn_event" where
  "sub_conn_state m index =
     (let baseAddr = ClientAddr_String (mu_addr m) in
      case map_of (mu_clients m) index of
        None \<Rightarrow>
          \<lparr>se_BaseAddress = baseAddr, se_SubAddress = addIdentifier baseAddr index, se_Index = index, se_State = 0,
           se_Err = Some (case map_of (mu_clientErrors m) index of None \<Rightarrow> ErrCreateClientFailed | Some e \<Rightarrow> e),
           se_NodeAddr = [], se_NodeID = []\<rparr>
      | Some c \<Rightarrow>
          (let state = (if cl_isClosed c then ConnDisconnected else cl_State c);
               node = (if \<not> cl_isClosed c \<and> cl_State c = ConnConnected then cl_node c else None)
           in \<lparr>se_BaseAddress = baseAddr, se_SubAddress = Client_Address c, se_Index = index, se_State = state, se_Err = None,
               se_NodeAddr = (case node of None \<Rightarrow> [] | Some n \<Rightarrow> nd_Addr n),
               se_NodeID = (case node of None \<Rightarrow> [] | Some n \<Rightarrow> nd_ID n)\<rparr>))"

text \<open>
  \<^verbatim>\<open>GetAllSubConnStates\<close> puts the same ids into a map and ranges over it. In which order \<^verbatim>\<open>range\<close> visits the keys is not
  determined and may change from call to call: \<open>visit\<close> stands for it, and all that is known of it is \<open>any_order\<close>.
\<close>

definition any_order :: "('a list \<Rightarrow> 'a list) \<Rightarrow> bool" where
  "any_order visit \<longleftrightarrow> (\<forall>xs. mset (visit xs) = mset xs)"

definition expectedIndices :: "(int list \<Rightarrow> int list) \<Rightarrow> multi_client \<Rightarrow> int list" where
  "expectedIndices visit m = visit (expected_ids m)"

definition GetAllSubConnStates :: "(int list \<Rightarrow> int list) \<Rightarrow> multi_client \<Rightarrow> sub_client_conn_event list" where
  "GetAllSubConnStates visit m = map (sub_conn_state m) (expectedIndices visit m)"

lemma mset_expectedIndices: "any_order visit \<Longrightarrow> mset (expectedIndices visit m) = mset (expected_ids m)"
  by (simp add: expectedIndices_def any_order_def)

lemma set_expectedIndices: "any_order visit \<Longrightarrow> set (expectedIndices visit m) = set (expected_ids m)"
  by (metis mset_expectedIndices set_mset_mset)

section \<open>Choosing sub-clients\<close>

text \<open>The ids of a list without repetition, in the order of their first occurrence.\<close>

definition unique_ids :: "int list \<Rightarrow> int list" where
  "unique_ids ids = rev (remdups (rev ids))"

definition getAllClientIDs :: "(int \<times> client) list \<Rightarrow> int list" where
  "getAllClientIDs allClients = unique_ids (map fst allClients)"

text \<open>One hour in nanoseconds.\<close>

definition hour_ns :: int where "hour_ns = 3600000000000"

definition clamp_score :: "rat \<Rightarrow> rat" where
  "clamp_score score = (let s = (if score < 0 then 0 else score) in if s > 1 then 1 else s)"

definition duration_score :: "int64 \<Rightarrow> int64 \<Rightarrow> rat" where
  "duration_score t connectTime =
     (let connectionDuration = (t - connectTime) * 1000000 in
      if 0 <s connectionDuration
      then (let durationScore = of_int (sint connectionDuration) / of_int hour_ns
            in (if durationScore > 1 then 1 else durationScore) * (4 / 10))
      else 0)"

definition penalty :: "rat \<Rightarrow> int \<Rightarrow> rat" where
  "penalty weight n = (let p = of_int n * weight in if p > 1 / 10 then 1 / 10 else p)"

definition CalculateClientScore :: "client \<Rightarrow> int64 \<Rightarrow> rat" where
  "CalculateClientScore c t =
     clamp_score (1 / 2 +
       (case cl_Stats c of
          None \<Rightarrow> 0
        | Some stats \<Rightarrow>
            if 0 <s cs_ConnectTime stats
            then duration_score t (cs_ConnectTime stats) - penalty (2 / 100) (cs_ReconnectCount stats)
              - penalty (1 / 100) (cs_SendFailureCount stats)
            else 0))"

definition line_up :: "client \<Rightarrow> bool" where
  "line_up c \<longleftrightarrow> \<not> Client_IsClosed c \<and> cl_State c = ConnConnected"

text \<open>The search for the best client: the best id so far starts at -1 and the best score at -1.\<close>

fun best_client :: "int64 \<Rightarrow> int \<times> rat \<Rightarrow> (int \<times> client) list \<Rightarrow> int" where
  "best_client t (bestID, bestScore) [] = bestID"
| "best_client t (bestID, bestScore) ((i, c) # cs) =
     (if line_up c \<and> CalculateClientScore c t > bestScore
      then best_client t (i, CalculateClientScore c t) cs
      else best_client t (bestID, bestScore) cs)"

definition getClientsByPolicy :: "multi_client \<Rightarrow> int64 \<Rightarrow> int list" where
  "getClientsByPolicy m t =
     (let allClients = mu_clients m; policy = cc_CrossSendPolicy (mu_config m) in
      if length allClients = 0 then []
      else if policy = CrossSendPolicyNone then getAllClientIDs allClients
      else if policy = CrossSendPolicyAnyConnected
      then (case find (\<lambda>(i, c). line_up c) allClients of
              Some (i, c) \<Rightarrow> [i]
            | None \<Rightarrow> getAllClientIDs allClients)
      else if policy = CrossSendPolicyAllConnected
      then (let clientIDs = map fst (filter (\<lambda>(i, c). line_up c) allClients)
            in if length clientIDs = 0 then getAllClientIDs allClients else clientIDs)
      else if policy = CrossSendPolicyPreferStable
      then (let bestClientID = best_client t (- 1, - 1) allClients
            in if bestClientID \<ge> 0 then [bestClientID] else getAllClientIDs allClients)
      else getAllClientIDs allClients)"

text \<open>The time is read only to score the clients.\<close>

definition policy_now :: "'w multi_ext \<Rightarrow> ('w, int64) multi_act" where
  "policy_now x =
     bnd (obj (\<lambda>m. m)) (\<lambda>m.
       if length (mu_clients m) > 0 \<and> cc_CrossSendPolicy (mu_config m) = CrossSendPolicyPreferStable
       then env_val (cx_now (mx_cx x)) else ret 0)"

section \<open>Sending\<close>

definition multi_emit :: "'w multi_ext \<Rightarrow> (int64 \<Rightarrow> message_event) \<Rightarrow> ('w, unit) multi_act" where
  "multi_emit x ev =
     bnd (obj mu_OnMessageEvent) (\<lambda>oe.
       case oe of
         None \<Rightarrow> ret ()
       | Some oe \<Rightarrow> bnd (env_val (cx_now (mx_cx x))) (\<lambda>t.
           focus (\<lambda>m. oe) (\<lambda>oe' m. m\<lparr>mu_OnMessageEvent := Some oe'\<rparr>) (OnMessageEvent_receive (ev t))))"

definition MultiClient_ResolveDestContext :: "'w multi_ext \<Rightarrow> multi_client \<Rightarrow> string \<Rightarrow> ('w, err, string) act" where
  "MultiClient_ResolveDestContext x m dest =
     ResolveDestN (map (cx_resolver (mx_cx x)) (mu_resolvers m)) (cc_ResolverDepth (mu_config m)) dest"

definition MultiClient_ResolveDestsContext :: "'w multi_ext \<Rightarrow> multi_client \<Rightarrow> string list \<Rightarrow> ('w, err, string list) act" where
  "MultiClient_ResolveDestsContext x m dests =
     ResolveDests (map (cx_resolver (mx_cx x)) (mu_resolvers m)) (cc_ResolverDepth (mu_config m)) dests"

definition sendWithClient :: "'w multi_ext \<Rightarrow> int \<Rightarrow> string list \<Rightarrow> payload \<Rightarrow> bool \<Rightarrow> int32 \<Rightarrow> ('w, unit) multi_act" where
  "sendWithClient x clientID dests payload encrypted maxHoldingSeconds =
     bnd (obj (\<lambda>m. m)) (\<lambda>m.
       if GetClient m clientID = None then throw ErrNilClient
       else
         let finalDests = (if cc_CrossSendPolicy (mu_config m) \<noteq> CrossSendPolicyNone
                           then addMultiClientPrefixForAllSubClients dests (expected_ids m)
                           else addMultiClientPrefix dests clientID)
         in on_client clientID (client_send (mx_client x clientID) finalDests payload encrypted maxHoldingSeconds))"

text \<open>A reply channel for one client, and its entry in the client's cache.\<close>

definition await_reply :: "'w multi_ext \<Rightarrow> int \<Rightarrow> bytes \<Rightarrow> ('w, nat) multi_act" where
  "await_reply x clientID messageID =
     on_client clientID (bnd new_reply_chan (\<lambda>i. bnd (env_val (Cache_Add (mx_client x clientID) messageID i)) (\<lambda>_. ret i)))"

definition SendWithClient :: "'w multi_ext \<Rightarrow> int \<Rightarrow> string list \<Rightarrow> idata \<Rightarrow> message_config option \<Rightarrow> ('w, int \<times> nat) multi_act" where
  "SendWithClient x clientID dests data conf =
     bnd (obj (\<lambda>m. m)) (\<lambda>m.
       if GetClient m clientID = None then throw ErrNilClient
       else
     bnd (of_res (MergeMessageConfig (copy_message_config (mx_cx x)) (cc_MessageConfig (mu_config m)) conf)) (\<lambda>config.
     bnd (env (MultiClient_ResolveDestsContext x m dests)) (\<lambda>destArr.
     bnd (env (newMessagePayload (cx_proto (mx_cx x)) (cx_rand (mx_cx x)) data (mc_MessageID config) (mc_NoReply config))) (\<lambda>payload.
     let event = (\<lambda>ty err. send_event ty (MultiClient_Address m) (word_of_int clientID) destArr payload config err) in
     bnd (multi_emit x (event MessageEventTypeSend None)) (\<lambda>_.
     bnd (attempt (sendWithClient x clientID destArr payload (\<not> mc_Unencrypted config) (mc_MaxHoldingSeconds config))
            (\<lambda>err. bnd (multi_emit x (event MessageEventTypeSendFailed (Some err))) (\<lambda>_. throw err))
            (\<lambda>_. ret ())) (\<lambda>_.
     bnd (multi_emit x (event MessageEventTypeSendSuccess None)) (\<lambda>_.
     bnd (if \<not> mc_NoReply config then await_reply x clientID (pl_MessageId payload) else on_client clientID new_reply_chan) (\<lambda>i.
     ret (clientID, i)))))))))"

text \<open>The loop of \<^verbatim>\<open>Send\<close> over the clients: how many have sent, and the errors of the others.\<close>

fun send_each :: "'w multi_ext \<Rightarrow> string list \<Rightarrow> payload \<Rightarrow> message_config \<Rightarrow>
    (message_event_type \<Rightarrow> int \<Rightarrow> err option \<Rightarrow> int64 \<Rightarrow> message_event) \<Rightarrow> int list \<Rightarrow> ('w, nat \<times> err list) multi_act" where
  "send_each x destArr payload config event [] = ret (0, [])"
| "send_each x destArr payload config event (clientID # clientIDs) =
     bnd (obj (\<lambda>m. m)) (\<lambda>m.
       if GetClient m clientID = None then send_each x destArr payload config event clientIDs
       else
     bnd (if \<not> mc_NoReply config then await_reply x clientID (pl_MessageId payload) else ret 0) (\<lambda>_.
     attempt (sendWithClient x clientID destArr payload (\<not> mc_Unencrypted config) (mc_MaxHoldingSeconds config))
       (\<lambda>err. bnd (multi_emit x (event MessageEventTypeSendFailed clientID (Some err))) (\<lambda>_.
              bnd (send_each x destArr payload config event clientIDs) (\<lambda>(sent, errs). ret (sent, err # errs))))
       (\<lambda>_. bnd (multi_emit x (event MessageEventTypeSendSuccess clientID None)) (\<lambda>_.
             bnd (send_each x destArr payload config event clientIDs) (\<lambda>(sent, errs). ret (Suc sent, errs))))))"

text \<open>
  What the caller gets: its reply channel as soon as one client has sent, otherwise the collected errors;
  with no error collected the error is nil and so is the channel.
\<close>

definition sent_result :: "nat \<times> err list \<Rightarrow> 'a \<Rightarrow> 'a option result" where
  "sent_result res a =
     (case res of (sent, errs) \<Rightarrow> if sent > 0 then Ok (Some a) else if errs = [] then Ok None else Err (MultiError errs))"

definition MultiClient_Send :: "'w multi_ext \<Rightarrow> string list \<Rightarrow> idata \<Rightarrow> message_config option \<Rightarrow> ('w, nat option) multi_act" where
  "MultiClient_Send x dests data conf =
     bnd (obj (\<lambda>m. m)) (\<lambda>m.
     bnd (of_res (MergeMessageConfig (copy_message_config (mx_cx x)) (cc_MessageConfig (mu_config m)) conf)) (\<lambda>config.
     bnd (env (MultiClient_ResolveDestsContext x m dests)) (\<lambda>destArr.
     bnd (env (payload_of (mx_cx x) data config)) (\<lambda>payload.
     bnd (upd (\<lambda>m. m\<lparr>mu_replyChans := mu_replyChans m @ [NewOnMessage 1 False]\<rparr>)) (\<lambda>_.
     bnd (policy_now x) (\<lambda>t.
     bnd (obj (\<lambda>m. unique_ids (getClientsByPolicy m t))) (\<lambda>uniqueClientIDs.
     let event = (\<lambda>ty i err. send_event ty (MultiClient_Address m) (word_of_int i) destArr payload config err) in
     bnd (multi_emit x (event MessageEventTypeSend (- 1) None)) (\<lambda>_.
     bnd (send_each x destArr payload config event uniqueClientIDs) (\<lambda>res.
     of_res (sent_result res (length (mu_replyChans m))))))))))))"

text \<open>
  The end of that goroutine: a reply that has arrived on the raw channel is passed on with the
  sub-client's identifier removed from its source.
\<close>

definition pass_reply :: "'w multi_ext \<Rightarrow> payload \<Rightarrow> nat \<Rightarrow> message \<Rightarrow> ('w, unit) multi_act" where
  "pass_reply x payload onReply raw =
     (let msg = raw\<lparr>m_Src := fst (removeIdentifier (m_Src raw))\<rparr> in
      bnd (obj (\<lambda>m. m)) (\<lambda>m.
      bnd (multi_emit x (\<lambda>t. (receive_event MessageEventTypeReceiveReply (MultiClient_Address m) msg t)\<lparr>me_MessageID := pl_MessageId payload\<rparr>)) (\<lambda>_.
        if onReply < length (mu_replyChans m)
        then focus (\<lambda>m. mu_replyChans m ! onReply) (\<lambda>ev m. m\<lparr>mu_replyChans := (mu_replyChans m)[onReply := ev]\<rparr>) (OnMessage_receive msg)
        else ret ())))"

text \<open>\<^verbatim>\<open>send\<close>, which replies and \<^verbatim>\<open>publish\<close> use.\<close>

fun send_plain :: "'w multi_ext \<Rightarrow> string list \<Rightarrow> payload \<Rightarrow> bool \<Rightarrow> int32 \<Rightarrow> int list \<Rightarrow> ('w, nat \<times> err list) multi_act" where
  "send_plain x dests payload encrypted maxHoldingSeconds [] = ret (0, [])"
| "send_plain x dests payload encrypted maxHoldingSeconds (clientID # clientIDs) =
     attempt (sendWithClient x clientID dests payload encrypted maxHoldingSeconds)
       (\<lambda>err. bnd (send_plain x dests payload encrypted maxHoldingSeconds clientIDs) (\<lambda>(sent, errs). ret (sent, err # errs)))
       (\<lambda>_. bnd (send_plain x dests payload encrypted maxHoldingSeconds clientIDs) (\<lambda>(sent, errs). ret (Suc sent, errs)))"

definition multi_send :: "'w multi_ext \<Rightarrow> string list \<Rightarrow> payload \<Rightarrow> bool \<Rightarrow> int32 \<Rightarrow> ('w, unit) multi_act" where
  "multi_send x dests payload encrypted maxHoldingSeconds =
     bnd (policy_now x) (\<lambda>t.
     bnd (obj (\<lambda>m. getClientsByPolicy m t)) (\<lambda>clientIDs.
     bnd (send_plain x dests payload encrypted maxHoldingSeconds clientIDs) (\<lambda>res.
     bnd (of_res (sent_result res ())) (\<lambda>_. ret ()))))"

definition MultiClient_SendBinary :: "'w multi_ext \<Rightarrow> string list \<Rightarrow> bytes \<Rightarrow> message_config option \<Rightarrow> ('w, nat option) multi_act" where
  "MultiClient_SendBinary x dests data = MultiClient_Send x dests (DBytes data)"

definition MultiClient_SendText :: "'w multi_ext \<Rightarrow> string list \<Rightarrow> string \<Rightarrow> message_config option \<Rightarrow> ('w, nat option) multi_act" where
  "MultiClient_SendText x dests data = MultiClient_Send x dests (DString data)"

definition MultiClient_SendPayload :: "'w multi_ext \<Rightarrow> string list \<Rightarrow> payload \<Rightarrow> message_config option \<Rightarrow> ('w, nat option) multi_act" where
  "MultiClient_SendPayload x dests payload = MultiClient_Send x dests (DPayload payload)"

definition SendBinaryWithClient :: "'w multi_ext \<Rightarrow> int \<Rightarrow> string list \<Rightarrow> bytes \<Rightarrow> message_config option \<Rightarrow> ('w, int \<times> nat) multi_act" where
  "SendBinaryWithClient x clientID dests data = SendWithClient x clientID dests (DBytes data)"

definition SendTextWithClient :: "'w multi_ext \<Rightarrow> int \<Rightarrow> string list \<Rightarrow> string \<Rightarrow> message_config option \<Rightarrow> ('w, int \<times> nat) multi_act" where
  "SendTextWithClient x clientID dests data = SendWithClient x clientID dests (DString data)"

section \<open>Lemmas on the choice of sub-clients\<close>

lemma unique_ids_set [simp]: "set (unique_ids ids) = set ids"
  and unique_ids_distinct [simp]: "distinct (unique_ids ids)"
  and unique_ids_id: "distinct ids \<Longrightarrow> unique_ids ids = ids"
  by (simp_all add: unique_ids_def distinct_remdups_id)

lemma clamp_score_bounds: "0 \<le> clamp_score s" "clamp_score s \<le> 1"
  by (simp_all add: clamp_score_def Let_def)

lemma clamp_score_id: "0 \<le> s \<Longrightarrow> s \<le> 1 \<Longrightarrow> clamp_score s = s"
  by (simp add: clamp_score_def Let_def)

lemma score_nonneg: "0 \<le> CalculateClientScore c t"
  by (simp add: CalculateClientScore_def clamp_score_bounds)

lemma duration_score_bounds: "0 \<le> duration_score t ct" "duration_score t ct \<le> 4 / 10"
proof -
  define d where "d = sint ((t - ct) * 1000000)"
  have e: "duration_score t ct = (if 0 < d then (let q = of_int d / of_int hour_ns in (if q > 1 then 1 else q) * (4 / 10)) else 0)"
    by (simp add: duration_score_def d_def Let_def sless_sint del: of_int_sint)
  show "0 \<le> duration_score t ct" "duration_score t ct \<le> 4 / 10"
    unfolding e by (simp_all add: Let_def hour_ns_def)
qed

lemma penalty_bounds: "0 \<le> n \<Longrightarrow> 0 \<le> weight \<Longrightarrow> 0 \<le> penalty weight n" "penalty weight n \<le> 1 / 10"
  by (auto simp: penalty_def Let_def)

lemma penalty_mono:
  assumes "n \<le> k" and "0 \<le> weight"
  shows "penalty weight n \<le> penalty weight k"
proof -
  have "(of_int n :: rat) * weight \<le> of_int k * weight" using assms by (intro mult_right_mono) simp_all
  then show ?thesis by (simp add: penalty_def Let_def)
qed

definition counts_ok :: "client \<Rightarrow> bool" where
  "counts_ok c \<longleftrightarrow> (\<forall>st. cl_Stats c = Some st \<longrightarrow> 0 \<le> cs_ReconnectCount st \<and> 0 \<le> cs_SendFailureCount st)"

text \<open>Without the clamps: the score of a client whose counts are not negative is within them anyway.\<close>

lemma score_raw:
  assumes "counts_ok c"
  shows "CalculateClientScore c t = 1 / 2 + (case cl_Stats c of None \<Rightarrow> 0
     | Some st \<Rightarrow> if 0 <s cs_ConnectTime st then duration_score t (cs_ConnectTime st) - penalty (2 / 100) (cs_ReconnectCount st)
         - penalty (1 / 100) (cs_SendFailureCount st) else 0)"
    (is "_ = ?s")
    and "3 / 10 \<le> CalculateClientScore c t \<and> CalculateClientScore c t \<le> 9 / 10"
proof -
  have b: "3 / 10 \<le> ?s \<and> ?s \<le> 9 / 10"
  proof (cases "cl_Stats c")
    case (Some st)
    with assms have "0 \<le> cs_ReconnectCount st" "0 \<le> cs_SendFailureCount st" by (auto simp: counts_ok_def)
    then have "0 \<le> penalty (2 / 100) (cs_ReconnectCount st)" "0 \<le> penalty (1 / 100) (cs_SendFailureCount st)"
      by (simp_all add: penalty_bounds)
    with Some duration_score_bounds [of t "cs_ConnectTime st"] penalty_bounds(2) [of "2 / 100" "cs_ReconnectCount st"]
      penalty_bounds(2) [of "1 / 100" "cs_SendFailureCount st"] show ?thesis by (auto split: if_splits)
  qed simp
  show eq: "CalculateClientScore c t = ?s" unfolding CalculateClientScore_def using b by (intro clamp_score_id) auto
  with b show "3 / 10 \<le> CalculateClientScore c t \<and> CalculateClientScore c t \<le> 9 / 10" by simp
qed

definition beats :: "int64 \<Rightarrow> rat \<Rightarrow> (int \<times> client) list \<Rightarrow> bool" where
  "beats t sc cs \<longleftrightarrow> (\<exists>(i, c) \<in> set cs. line_up c \<and> sc < CalculateClientScore c t)"

lemma beats_simps [simp]:
  "\<not> beats t sc []" "beats t sc ((i, c) # cs) \<longleftrightarrow> line_up c \<and> sc < CalculateClientScore c t \<or> beats t sc cs"
  by (auto simp: beats_def)

lemma best_client_none: "\<not> beats t sc cs \<Longrightarrow> best_client t (b, sc) cs = b"
  by (induction cs) auto

lemma best_client_some:
  "beats t sc cs \<Longrightarrow> \<exists>c. (best_client t (b, sc) cs, c) \<in> set cs \<and> line_up c \<and> sc < CalculateClientScore c t \<and>
     (\<forall>(j, d) \<in> set cs. line_up d \<longrightarrow> CalculateClientScore d t \<le> CalculateClientScore c t)"
proof (induction cs arbitrary: b sc)
  case (Cons p cs)
  obtain i c where p: "p = (i, c)" by fastforce
  show ?case
  proof (cases "line_up c \<and> sc < CalculateClientScore c t")
    case up: True
    show ?thesis
    proof (cases "beats t (CalculateClientScore c t) cs")
      case True
      from Cons.IH [OF True, of i] up p show ?thesis by fastforce
    next
      case False
      then have "\<forall>(j, d) \<in> set cs. line_up d \<longrightarrow> CalculateClientScore d t \<le> CalculateClientScore c t"
        by (auto simp: beats_def not_less)
      with best_client_none [OF False] up p show ?thesis by auto
    qed
  next
    case False
    with Cons.prems p have "beats t sc cs" by auto
    from Cons.IH [OF this, of b] False p show ?thesis by (fastforce simp: not_less)
  qed
qed simp

lemma beats_up: "beats t (- 1) cs \<longleftrightarrow> (\<exists>(i, c) \<in> set cs. line_up c)"
proof -
  have "- 1 < CalculateClientScore c t" for c using score_nonneg [of c t] by linarith
  then show ?thesis by (auto simp: beats_def)
qed

section \<open>Lemmas on sending\<close>

text \<open>The results of trying the given clients one after the other.\<close>

fun tries :: "(int \<Rightarrow> ('s, err, unit) act) \<Rightarrow> int list \<Rightarrow> 's \<Rightarrow> unit result list \<times> 's" where
  "tries sendf [] s = ([], s)"
| "tries sendf (i # is) s =
     (case sendf i s of (r, s1) \<Rightarrow> (case tries sendf is s1 of (rs, s2) \<Rightarrow> (r # rs, s2)))"

fun errs_of :: "unit result list \<Rightarrow> err list" where
  "errs_of [] = []"
| "errs_of (Err e # rs) = e # errs_of rs"
| "errs_of (_ # rs) = errs_of rs"

lemma errs_of_Nil: "errs_of rs = [] \<longleftrightarrow> (\<forall>r \<in> set rs. \<not> (\<exists>e. r = Err e))"
  by (induction rs rule: errs_of.induct) auto

lemma send_plain_tries:
  "tries (\<lambda>i. sendWithClient x i dests p enc mh) ids s = (rs, s') \<Longrightarrow> \<forall>r \<in> set rs. \<not> is_panic r \<Longrightarrow>
     send_plain x dests p enc mh ids s = (Ok (length (filter is_ok rs), errs_of rs), s')"
proof (induction ids arbitrary: s rs)
  case (Cons i ids)
  obtain r s1 where r: "sendWithClient x i dests p enc mh s = (r, s1)" by (cases "sendWithClient x i dests p enc mh s")
  obtain rs1 s2 where t: "tries (\<lambda>i. sendWithClient x i dests p enc mh) ids s1 = (rs1, s2)"
    by (cases "tries (\<lambda>i. sendWithClient x i dests p enc mh) ids s1")
  from Cons.prems r t have e: "rs = r # rs1" "s' = s2" by simp_all
  from Cons.IH t Cons.prems(2) e have "send_plain x dests p enc mh ids s1 = (Ok (length (filter is_ok rs1), errs_of rs1), s2)" by simp
  with r e Cons.prems(2) show ?case by (cases r) (simp_all add: attempt_def bnd_Ok)
qed simp

section \<open>Witness instances\<close>

text \<open>Three connected clients, the original one among them, of which one has failed to send and one is new.\<close>

definition demo_line :: "client_stats option \<Rightarrow> client" where
  "demo_line st = demo_client\<lparr>cl_Stats := st\<rparr>"

definition demo_multi :: "int32 \<Rightarrow> multi_client" where
  "demo_multi policy =
    \<lparr>mu_OnConnect = NewOnConnect 1 False, mu_OnMessage = NewOnMessage 16 False, mu_OnMessageEvent = Some (NewOnMessageEvent 100 False),
     mu_config = GetDefaultClientConfig\<lparr>cc_CrossSendPolicy := policy\<rparr>, mu_offset = 1, mu_addr = NewClientAddr ''alice'',
     mu_acceptSession = make_chan 128, mu_onClose = False, mu_resolvers = [],
     mu_clients = [(0, demo_line (Some \<lparr>cs_ConnectTime = 1, cs_ReconnectCount = 0, cs_LastReconnect = 0, cs_SendFailureCount = 3\<rparr>)),
                   (- 1, demo_line (Some \<lparr>cs_ConnectTime = 1, cs_ReconnectCount = 0, cs_LastReconnect = 0, cs_SendFailureCount = 0\<rparr>)),
                   (1, demo_line None)],
     mu_clientErrors = [], mu_defaultClient = Some (- 1), mu_acceptAddrs = [], mu_isClosed = False, mu_createDone = True,
     mu_numSubClients = 2, mu_originalClient = True, mu_sessions = [], mu_defaultClientIdx = - 1, mu_creating = [],
     mu_lingering = False, mu_replyChans = []\<rparr>"

definition demo_mx :: "unit multi_ext" where
  "demo_mx =
    \<lparr>mx_cx = demo_cx, mx_client = (\<lambda>i. demo_cx), MsgCache_Get = (\<lambda>k w. (False, w)), MsgCache_Set = (\<lambda>k w. ((), w)),
     copy_dial_config = (\<lambda>base c. Ok c), NewSession = (\<lambda>l r ids c. ret 7), Session_ReceiveWith = (\<lambda>n l r d. ret ()),
     Session_Dial = (\<lambda>n t. ret ()), Session_Accept = (\<lambda>n. ret ()), Session_Close = (\<lambda>n. ret ()),
     regexp_Compile = (\<lambda>s. Ok ()), regexp_MatchString = (\<lambda>re s. re = ''.*'' \<or> re = s)\<rparr>"

lemma demo_multi_clients:
  "distinct (map fst (mu_clients (demo_multi policy)))" "mu_clients (demo_multi policy) \<noteq> []"
  "map fst (mu_clients (demo_multi policy)) = [0, - 1, 1]" "cc_CrossSendPolicy (mu_config (demo_multi policy)) = policy"
  by (simp_all add: demo_multi_def)

lemma demo_line_up: "line_up (demo_line st)"
  by (simp add: line_up_def Client_IsClosed_def demo_line_def demo_client_def)

lemma demo_ups: "filter (\<lambda>(i, c). line_up c) (mu_clients (demo_multi policy)) = mu_clients (demo_multi policy)"
  by (simp add: demo_multi_def demo_line_up)

section \<open>Properties\<close>

text \<open>
  C18: The clients a message is sent with: for a multiclient with at least one sub-client, the choice is never
  empty, has no id twice and names existing clients only. Without a policy, and whenever no client is
  connected, all clients are tried. With "any connected" one connected client is chosen, with "all
  connected" exactly the connected ones, and with "prefer stable" a connected client that no other
  connected client beats by its score, or all clients if that one is the original one (its id is the -1 of "none found").
\<close>

theorem getClientsByPolicy_choice:
  assumes "distinct (map fst (mu_clients m))" and "mu_clients m \<noteq> []"
  shows "let ids = getClientsByPolicy m t; policy = cc_CrossSendPolicy (mu_config m); cs = mu_clients m;
       ups = map fst (filter (\<lambda>(i, c). line_up c) cs) in
     ids \<noteq> [] \<and> distinct ids \<and> set ids \<subseteq> set (map fst cs) \<and>
     (policy = CrossSendPolicyNone \<or> ups = [] \<longrightarrow> ids = map fst cs) \<and>
     (policy = CrossSendPolicyAnyConnected \<and> ups \<noteq> [] \<longrightarrow> (\<exists>i \<in> set ups. ids = [i])) \<and>
     (policy = CrossSendPolicyAllConnected \<and> ups \<noteq> [] \<longrightarrow> ids = ups) \<and>
     (policy = CrossSendPolicyPreferStable \<and> ups \<noteq> [] \<longrightarrow>
        (\<exists>i c. (i, c) \<in> set cs \<and> line_up c \<and> (\<forall>(j, d) \<in> set cs. line_up d \<longrightarrow> CalculateClientScore d t \<le> CalculateClientScore c t) \<and>
           ids = (if i \<ge> 0 then [i] else map fst cs)))"
proof -
  let ?cs = "mu_clients m" and ?p = "cc_CrossSendPolicy (mu_config m)"
  let ?ups = "map fst (filter (\<lambda>(i, c). line_up c) ?cs)"
  have all: "getAllClientIDs ?cs = map fst ?cs" using assms(1) by (simp add: getAllClientIDs_def unique_ids_id)
  have ups: "?ups = [] \<longleftrightarrow> \<not> beats t (- 1) ?cs" by (auto simp: beats_up filter_empty_conv)
  have dist: "distinct ?ups" by (rule distinct_map_filter [OF assms(1)])
  show ?thesis
  proof (cases "?ups = []")
    case True
    then have nu: "filter (\<lambda>(i, c). line_up c) ?cs = []" by simp
    then have "find (\<lambda>(i, c). line_up c) ?cs = None" by (auto simp: find_None_iff filter_empty_conv)
    moreover have "best_client t (- 1, - 1) ?cs = - 1" using True ups by (simp add: best_client_none)
    ultimately have "getClientsByPolicy m t = map fst ?cs" using assms(2) nu all by (simp add: getClientsByPolicy_def Let_def)
    with True assms show ?thesis by (simp add: Let_def)
  next
    case False
    from False ups best_client_some [of t "- 1" ?cs "- 1"] obtain c where
      best: "(best_client t (- 1, - 1) ?cs, c) \<in> set ?cs" "line_up c"
        "\<forall>(j, d) \<in> set ?cs. line_up d \<longrightarrow> CalculateClientScore d t \<le> CalculateClientScore c t" by auto
    from False obtain i0 c0 where "find (\<lambda>(i, c). line_up c) ?cs = Some (i0, c0)"
      by (metis (mono_tags, lifting) filter_empty_conv find_None_iff list.simps(8) not_Some_eq surj_pair)
    then have f: "find (\<lambda>(i, c). line_up c) ?cs = Some (i0, c0)" "i0 \<in> set ?ups"
      by (auto simp: find_Some_iff image_iff) (metis nth_mem)
    have "i0 \<in> set (map fst ?cs)" using f(2) by auto
    then show ?thesis using best f False assms all dist
      by (auto simp: getClientsByPolicy_def Let_def CrossSendPolicy_defs image_iff) (blast | force)+
  qed
qed

theorem getClientsByPolicy_choice_witness:
  "getClientsByPolicy (demo_multi CrossSendPolicyAllConnected) 5 = [0, - 1, 1]"
  using getClientsByPolicy_choice [OF demo_multi_clients(1,2), of CrossSendPolicyAllConnected 5] demo_ups [of CrossSendPolicyAllConnected]
    demo_multi_clients(2,3) [of CrossSendPolicyAllConnected]
  by (auto simp: Let_def demo_multi_clients(4))

text \<open>
  "Prefer stable" does not prefer the original client: if the original client, whose id is -1, is connected
  and strictly the most stable one, the message is sent with all clients instead of with it, because its
  id is what the search uses for "none found".
\<close>

theorem prefer_stable_original_ignored:
  assumes "distinct (map fst (mu_clients m))" and "cc_CrossSendPolicy (mu_config m) = CrossSendPolicyPreferStable"
    and "(- 1, c) \<in> set (mu_clients m)" and "line_up c"
    and "\<And>j d. (j, d) \<in> set (mu_clients m) \<Longrightarrow> line_up d \<Longrightarrow> j \<noteq> - 1 \<Longrightarrow> CalculateClientScore d t < CalculateClientScore c t"
  shows "getClientsByPolicy m t = map fst (mu_clients m)"
proof -
  let ?cs = "mu_clients m"
  have "beats t (- 1) ?cs" using assms(3,4) by (auto simp: beats_up)
  from best_client_some [OF this, of "- 1"] obtain b where
    b: "(best_client t (- 1, - 1) ?cs, b) \<in> set ?cs" "line_up b"
      "\<forall>(j, d) \<in> set ?cs. line_up d \<longrightarrow> CalculateClientScore d t \<le> CalculateClientScore b t" by auto
  then have "CalculateClientScore c t \<le> CalculateClientScore b t" using assms(3,4) by blast
  then have "best_client t (- 1, - 1) ?cs = - 1" using assms(5) [OF b(1,2)] by (auto simp: not_less [symmetric])
  moreover have "getAllClientIDs ?cs = map fst ?cs" using assms(1) by (simp add: getAllClientIDs_def unique_ids_id)
  ultimately show ?thesis using assms(2,3) by (auto simp: getClientsByPolicy_def Let_def CrossSendPolicy_defs)
qed

theorem prefer_stable_original_ignored_witness:
  "getClientsByPolicy (demo_multi CrossSendPolicyPreferStable) 3600001 = [0, - 1, 1]"
proof -
  have "getClientsByPolicy (demo_multi CrossSendPolicyPreferStable) 3600001 = map fst (mu_clients (demo_multi CrossSendPolicyPreferStable))"
  proof (rule prefer_stable_original_ignored)
    show "(- 1, demo_line (Some \<lparr>cs_ConnectTime = 1, cs_ReconnectCount = 0, cs_LastReconnect = 0, cs_SendFailureCount = 0\<rparr>))
        \<in> set (mu_clients (demo_multi CrossSendPolicyPreferStable))" by (simp add: demo_multi_def)
  qed (auto simp: demo_multi_clients demo_line_up demo_multi_def demo_line_def demo_client_def CalculateClientScore_def duration_score_def
      penalty_def clamp_score_def hour_ns_def sless_sint Let_def line_up_def Client_IsClosed_def)
  then show ?thesis by (simp add: demo_multi_clients)
qed

text \<open>
  Stability scores are bounded and ordered as documented: for clients whose counts are not negative the score
  lies between 0.3 and 0.9, so that the final clamps to 0 and 1 never act; and of two clients that have been
  connected, the one with at least the score for the connection's duration and at most the reconnects and
  send failures of the other has at least its score.
\<close>

theorem client_score_bounds_monotone:
  assumes "counts_ok c" and "counts_ok d" and "cl_Stats c = Some a" and "cl_Stats d = Some b"
    and "0 <s cs_ConnectTime a" and "0 <s cs_ConnectTime b"
    and "duration_score t (cs_ConnectTime a) \<ge> duration_score t (cs_ConnectTime b)"
    and "cs_ReconnectCount a \<le> cs_ReconnectCount b" and "cs_SendFailureCount a \<le> cs_SendFailureCount b"
  shows "3 / 10 \<le> CalculateClientScore d t \<and> CalculateClientScore d t \<le> CalculateClientScore c t \<and> CalculateClientScore c t \<le> 9 / 10"
proof -
  have "penalty (2 / 100) (cs_ReconnectCount a) \<le> penalty (2 / 100) (cs_ReconnectCount b)"
    "penalty (1 / 100) (cs_SendFailureCount a) \<le> penalty (1 / 100) (cs_SendFailureCount b)"
    using assms(8,9) by (simp_all add: penalty_mono)
  with score_raw [OF assms(1), of t] score_raw [OF assms(2), of t] assms(3-7) show ?thesis by simp
qed

theorem client_score_bounds_monotone_witness:
  "CalculateClientScore (demo_line (Some \<lparr>cs_ConnectTime = 1, cs_ReconnectCount = 0, cs_LastReconnect = 0, cs_SendFailureCount = 3\<rparr>)) 5
   \<le> CalculateClientScore (demo_line (Some \<lparr>cs_ConnectTime = 1, cs_ReconnectCount = 0, cs_LastReconnect = 0, cs_SendFailureCount = 0\<rparr>)) 5"
  using client_score_bounds_monotone
    [of "demo_line (Some \<lparr>cs_ConnectTime = 1, cs_ReconnectCount = 0, cs_LastReconnect = 0, cs_SendFailureCount = 0\<rparr>)"
        "demo_line (Some \<lparr>cs_ConnectTime = 1, cs_ReconnectCount = 0, cs_LastReconnect = 0, cs_SendFailureCount = 3\<rparr>)" _ _ 5]
  by (simp add: counts_ok_def demo_line_def sless_sint)

text \<open>
  C30: A multiclient reports a failed send only if every client failed: when no attempt crashes, \<^verbatim>\<open>send\<close> tries
  each chosen client once, in order, and returns success if one of them has sent or there was no client to try, and otherwise the errors
  of all of them in that order.
\<close>

theorem multi_send_any_success:
  assumes "policy_now x (m, w) = (Ok t, (m, w1))"
    and "tries (\<lambda>i. sendWithClient x i dests p enc mh) (getClientsByPolicy m t) (m, w1) = (rs, s)"
    and "\<forall>r \<in> set rs. \<not> is_panic r"
  shows "multi_send x dests p enc mh (m, w) =
     (if Ok () \<in> set rs \<or> rs = [] then Ok () else Err (MultiError (errs_of rs)), s)"
proof -
  have "sent_result (length (filter is_ok rs), errs_of rs) () =
      (if Ok () \<in> set rs then Ok (Some ()) else if rs = [] then Ok None else Err (MultiError (errs_of rs)))"
  proof (cases "Ok () \<in> set rs")
    case True
    then show ?thesis by (auto simp: sent_result_def filter_empty_conv is_ok_iff)
  next
    case False
    then have "filter is_ok rs = []" by (auto simp: filter_empty_conv is_ok_iff)
    moreover have "errs_of rs = [] \<longleftrightarrow> rs = []"
    proof
      assume "errs_of rs = []"
      then have "\<forall>r \<in> set rs. False" using False assms(3) unfolding errs_of_Nil by (metis is_panic.simps(3) old.unit.exhaust res.exhaust)
      then show "rs = []" by (cases rs) auto
    qed simp
    ultimately show ?thesis using False by (simp add: sent_result_def)
  qed
  with send_plain_tries [OF assms(2,3)] assms(1) show ?thesis by (auto simp: multi_send_def bnd_Ok)
qed

definition demo_single :: multi_client where
  "demo_single = (demo_multi CrossSendPolicyNone)\<lparr>mu_clients := [(- 1, demo_client)]\<rparr>"

theorem multi_send_any_success_witness:
  "\<exists>s. multi_send demo_mx [demo_dest] demo_payload False 0 (demo_single, ()) = (Ok (), s)"
proof -
  have n: "policy_now demo_mx (demo_single, ()) = (Ok 0, (demo_single, ()))"
    by (simp add: policy_now_def demo_single_def demo_multi_def CrossSendPolicy_defs)
  have p: "getClientsByPolicy demo_single 0 = [- 1]"
    by (simp add: getClientsByPolicy_def demo_single_def demo_multi_def getAllClientIDs_def unique_ids_def)
  from demo_sendTimeout obtain s where "client_send demo_cx [demo_dest] demo_payload False 0 (demo_client, ()) = (Ok (), s)"
    by (auto simp: client_send_def)
  then obtain s' where "sendWithClient demo_mx (- 1) [demo_dest] demo_payload False 0 (demo_single, ()) = (Ok (), s')"
    by (cases s) (auto simp: sendWithClient_def on_client_def GetClient_def demo_single_def demo_multi_def addMultiClientPrefix_def
        addIdentifier_def demo_mx_def Let_def)
  then have "tries (\<lambda>i. sendWithClient demo_mx i [demo_dest] demo_payload False 0) (getClientsByPolicy demo_single 0) (demo_single, ()) = ([Ok ()], s')"
    by (simp add: p)
  from multi_send_any_success [OF n this] have "multi_send demo_mx [demo_dest] demo_payload False 0 (demo_single, ()) = (Ok (), s')" by simp
  then show ?thesis by blast
qed

end
