(* ===== verification/Nkn_MultiClient_Recv.thy ===== *)
theory Nkn_MultiClient_Recv
  imports Nkn_MultiClient
begin

text \<open>
  What a multiclient receives (\<^verbatim>\<open>src/multiclient.go\<close>): the loop that collects the messages of the
  sub-clients and drops those it has seen, sessions, closing, and the creation of the sub-clients. A
  goroutine per sub-client runs the loop; here one round of it is an operation that takes the message the
  sub-client has delivered.
\<close>

section \<open>Sessions\<close>

definition SessionIDSize :: nat where "SessionIDSize = MessageIDSize"
definition acceptSessionBufSize :: nat where "acceptSessionBufSize = 128"
definition DefaultSessionAllowAddr :: string where "DefaultSessionAllowAddr = ''.*''"

text \<open>\<^verbatim>\<open>sort.Strings\<close> on the ids, which are compared by their bytes.\<close>

fun string_le :: "string \<Rightarrow> string \<Rightarrow> bool" where
  "string_le [] ys = True"
| "string_le (x # xs) [] = False"
| "string_le (x # xs) (y # ys) = (if x = y then string_le xs ys else (of_char x :: nat) < of_char y)"

fun insert_string :: "string \<Rightarrow> string list \<Rightarrow> string list" where
  "insert_string x [] = [x]"
| "insert_string x (y # ys) = (if string_le x y then x # y # ys else y # insert_string x ys)"

definition sort_strings :: "string list \<Rightarrow> string list" where
  "sort_strings xs = foldr insert_string xs []"

definition session_clients :: "multi_client \<Rightarrow> (string \<times> int) list" where
  "session_clients m = map (\<lambda>(i, c). (addIdentifier [] i, i)) (GetClients m)"

definition newSession :: "'w multi_ext \<Rightarrow> string \<Rightarrow> ncp_config \<Rightarrow> ('w, nat) multi_act" where
  "newSession x remoteAddr config =
     bnd (obj (\<lambda>m. m)) (\<lambda>m.
     env (NewSession x (ClientAddr_String (mu_addr m)) (ClientAddr_String (NewClientAddr remoteAddr))
       (sort_strings (map fst (session_clients m))) config))"

text \<open>The function that a session calls to send a segment; an unknown local id is a nil client.\<close>

definition session_send ::
  "'w multi_ext \<Rightarrow> string \<Rightarrow> bytes \<Rightarrow> (string \<times> int) list \<Rightarrow> string \<Rightarrow> string \<Rightarrow> bytes \<Rightarrow> duration \<Rightarrow> ('w, unit) multi_act" where
  "session_send x remoteAddr sessionID clients localClientID remoteClientID buf writeTimeout =
     (case map_of (rev clients) localClientID of
        None \<Rightarrow> crash NilDereference
      | Some i \<Rightarrow>
          on_client i (sendTimeout (mx_client x i) [addIdentifierPrefix remoteAddr remoteClientID]
            \<lparr>pl_Type = SessionType, pl_MessageId = sessionID, pl_Data = buf, pl_ReplyToId = [], pl_NoReply = False\<rparr> True 0 writeTimeout))"

definition shouldAcceptAddr :: "'w multi_ext \<Rightarrow> multi_client \<Rightarrow> string \<Rightarrow> bool" where
  "shouldAcceptAddr x m addr \<longleftrightarrow> list_ex (\<lambda>allowAddr. regexp_MatchString x allowAddr addr) (mu_acceptAddrs m)"

definition handleSessionMsg :: "'w multi_ext \<Rightarrow> string \<Rightarrow> string \<Rightarrow> bytes \<Rightarrow> bytes \<Rightarrow> ('w, unit) multi_act" where
  "handleSessionMsg x localClientID src sessionID data =
     (case removeIdentifier src of (remoteAddr, remoteClientID) \<Rightarrow>
      let key = sessionKey remoteAddr sessionID in
      bnd (obj (\<lambda>m. m)) (\<lambda>m.
      bnd (case map_of (mu_sessions m) key of
             Some session \<Rightarrow> ret session
           | None \<Rightarrow>
               if \<not> shouldAcceptAddr x m remoteAddr then throw ErrAddrNotAllowed
               else bnd (newSession x remoteAddr (cc_SessionConfig (mu_config m))) (\<lambda>session.
                    bnd (upd (\<lambda>m. m\<lparr>mu_sessions := AList.update key session (mu_sessions m)\<rparr>)) (\<lambda>_.
                    ret session))) (\<lambda>session.
      bnd (env (Session_ReceiveWith x session localClientID remoteClientID data)) (\<lambda>_.
        if map_of (mu_sessions m) key = None
        then focus mu_acceptSession (\<lambda>ch m. m\<lparr>mu_acceptSession := ch\<rparr>) (chan_try_send session)
        else ret ()))))"

fun compile_all :: "'w multi_ext \<Rightarrow> string list \<Rightarrow> unit result" where
  "compile_all x [] = Ok ()"
| "compile_all x (a # as) = and_then (regexp_Compile x a) (\<lambda>_. compile_all x as)"

definition Listen :: "'w multi_ext \<Rightarrow> string list option \<Rightarrow> ('w, unit) multi_act" where
  "Listen x addrsRe =
     (let addrs = (case addrsRe of None \<Rightarrow> [DefaultSessionAllowAddr] | Some as \<Rightarrow> as) in
      bnd (of_res (compile_all x addrs)) (\<lambda>_.
      upd (\<lambda>m. m\<lparr>mu_acceptAddrs := addrs\<rparr>)))"

definition DialWithConfig :: "'w multi_ext \<Rightarrow> string \<Rightarrow> dial_config option \<Rightarrow> ('w, nat) multi_act" where
  "DialWithConfig x remoteAddr conf =
     bnd (obj (\<lambda>m. m)) (\<lambda>m.
     bnd (of_res (MergeDialConfig (copy_dial_config x) (cc_SessionConfig (mu_config m)) conf)) (\<lambda>config.
     bnd (env (RandomBytes (cx_rand (mx_cx x)) SessionIDSize)) (\<lambda>sessionID.
     bnd (newSession x remoteAddr (dc_SessionConfig config)) (\<lambda>session.
     bnd (upd (\<lambda>m. m\<lparr>mu_sessions := AList.update (sessionKey remoteAddr sessionID) session (mu_sessions m)\<rparr>)) (\<lambda>_.
     bnd (env (Session_Dial x session (if 0 <s dc_DialTimeout config then Some (dc_DialTimeout config) else None))) (\<lambda>_.
     ret session))))))"

definition DialSession :: "'w multi_ext \<Rightarrow> string \<Rightarrow> ('w, nat) multi_act" where
  "DialSession x remoteAddr = DialWithConfig x remoteAddr None"

definition MultiClient_Dial :: "'w multi_ext \<Rightarrow> string \<Rightarrow> ('w, nat) multi_act" where
  "MultiClient_Dial x remoteAddr = DialSession x remoteAddr"

text \<open>
  \<^verbatim>\<open>AcceptSession\<close>: the sessions that wait are tried in order until one is accepted; with none left it
  returns \<^verbatim>\<open>ErrClosed\<close> if the multiclient is closed, and otherwise it waits (\<open>None\<close>). When a session waits and
  the multiclient is closed Go may choose either; here the session comes first.
\<close>

fun accept_waiting :: "'w multi_ext \<Rightarrow> nat list \<Rightarrow> ('w, nat option) multi_act" where
  "accept_waiting x [] = bnd (obj mu_onClose) (\<lambda>closed. if closed then throw ErrClosed else ret None)"
| "accept_waiting x (session # sessions) =
     bnd (upd (\<lambda>m. m\<lparr>mu_acceptSession := (mu_acceptSession m)\<lparr>ch_buf := sessions\<rparr>\<rparr>)) (\<lambda>_.
     attempt (env (Session_Accept x session)) (\<lambda>err. accept_waiting x sessions) (\<lambda>_. ret (Some session)))"

definition AcceptSession :: "'w multi_ext \<Rightarrow> ('w, nat option) multi_act" where
  "AcceptSession x = bnd (obj (\<lambda>m. ch_buf (mu_acceptSession m))) (accept_waiting x)"

definition MultiClient_Accept :: "'w multi_ext \<Rightarrow> ('w, nat option) multi_act" where
  "MultiClient_Accept x = AcceptSession x"

section \<open>Received messages\<close>

definition forward_connect :: "node option \<Rightarrow> ('w, bool) multi_act" where
  "forward_connect node =
     bnd (obj mu_isClosed) (\<lambda>closed.
       if closed then ret False
       else bnd (focus mu_OnConnect (\<lambda>ev m. m\<lparr>mu_OnConnect := ev\<rparr>) (OnConnect_receive node)) (\<lambda>_. ret True))"

text \<open>
  A message that is no session segment: its event, the look into the cache of message ids, the new entry in
  the cache, and the delivery under the lock. Each of these four is atomic; the loop of another sub-client
  may run between them. The result says whether the loop goes on.
\<close>

definition strip_source :: "message \<Rightarrow> message" where
  "strip_source msg = msg\<lparr>m_Src := fst (removeIdentifier (m_Src msg))\<rparr>"

definition notify_received :: "'w multi_ext \<Rightarrow> int \<Rightarrow> message \<Rightarrow> ('w, unit) multi_act" where
  "notify_received x i msg =
     bnd (obj (\<lambda>m. m)) (\<lambda>m.
     multi_emit x (\<lambda>t. (receive_event MessageEventTypeReceive (MultiClient_Address m) msg t)\<lparr>me_SubClientID := word_of_int i\<rparr>))"

definition seen_before :: "'w multi_ext \<Rightarrow> message \<Rightarrow> ('w, bool) multi_act" where
  "seen_before x msg = env_val (MsgCache_Get x (m_MessageID msg))"

definition mark_seen :: "'w multi_ext \<Rightarrow> message \<Rightarrow> ('w, unit) multi_act" where
  "mark_seen x msg = env_val (MsgCache_Set x (m_MessageID msg))"

definition hand_over :: "message \<Rightarrow> ('w, bool) multi_act" where
  "hand_over msg =
     bnd (obj mu_isClosed) (\<lambda>closed.
       if closed then ret False
       else bnd (focus mu_OnMessage (\<lambda>ev m. m\<lparr>mu_OnMessage := ev\<rparr>) (OnMessage_receive (with_reply msg))) (\<lambda>_. ret True))"

definition receive_plain :: "'w multi_ext \<Rightarrow> int \<Rightarrow> message \<Rightarrow> ('w, bool) multi_act" where
  "receive_plain x i raw =
     (let msg = strip_source raw in
      bnd (notify_received x i msg) (\<lambda>_.
      bnd (seen_before x msg) (\<lambda>seen.
        if seen then ret True
        else
      bnd (mark_seen x msg) (\<lambda>_.
      hand_over msg))))"

lemmas receive_defs = receive_plain_def strip_source_def notify_received_def seen_before_def mark_seen_def hand_over_def

definition receive_round :: "'w multi_ext \<Rightarrow> int \<Rightarrow> message \<Rightarrow> ('w, bool) multi_act" where
  "receive_round x i msg =
     (if m_Type msg = SessionType
      then if \<not> m_Encrypted msg then ret True
           else bnd (obj mu_offset) (\<lambda>offset.
                attempt (handleSessionMsg x (addIdentifier [] (i - offset)) (m_Src msg) (m_MessageID msg) (m_Data msg))
                  (\<lambda>err. ret True) (\<lambda>_. ret True))
      else receive_plain x i msg)"

definition MultiClient_Message_Reply :: "'w multi_ext \<Rightarrow> message \<Rightarrow> idata \<Rightarrow> ('w, unit) multi_act" where
  "MultiClient_Message_Reply x msg data =
     Message_Reply (cx_proto (mx_cx x)) (\<lambda>n. env (cx_rand (mx_cx x) n)) (multi_send x) msg data"

section \<open>Closing and reconnecting\<close>

fun close_sessions :: "'w multi_ext \<Rightarrow> nat list \<Rightarrow> ('w, unit) multi_act" where
  "close_sessions x [] = ret ()"
| "close_sessions x (s # ss) = attempt (env (Session_Close x s)) (\<lambda>err. close_sessions x ss) (\<lambda>_. close_sessions x ss)"

definition multi_close_events :: "('w, unit) multi_act" where
  "multi_close_events =
     bnd (focus mu_OnConnect (\<lambda>ev m. m\<lparr>mu_OnConnect := ev\<rparr>) OnConnect_close) (\<lambda>_.
     bnd (focus mu_OnMessage (\<lambda>ev m. m\<lparr>mu_OnMessage := ev\<rparr>) OnMessage_close) (\<lambda>_.
     bnd (obj mu_OnMessageEvent) (\<lambda>oe.
       case oe of
         None \<Rightarrow> ret ()
       | Some oe \<Rightarrow> focus (\<lambda>m. oe) (\<lambda>ev m. m\<lparr>mu_OnMessageEvent := Some ev\<rparr>) OnMessageEvent_close)))"

definition MultiClient_Close :: "'w multi_ext \<Rightarrow> ('w, unit) multi_act" where
  "MultiClient_Close x =
     bnd (obj (\<lambda>m. m)) (\<lambda>m.
       if mu_isClosed m then ret ()
       else
     bnd (close_sessions x (map snd (mu_sessions m))) (\<lambda>_.
     bnd (upd (\<lambda>m. m\<lparr>mu_lingering := True, mu_isClosed := True\<rparr>)) (\<lambda>_.
     bnd multi_close_events (\<lambda>_.
       if mu_onClose m then crash CloseOfClosedChannel else upd (\<lambda>m. m\<lparr>mu_onClose := True\<rparr>)))))"

text \<open>What the timer that \<^verbatim>\<open>Close\<close> sets does after the linger time.\<close>

fun close_clients :: "'w multi_ext \<Rightarrow> int list \<Rightarrow> ('w, unit) multi_act" where
  "close_clients x [] = ret ()"
| "close_clients x (i # is) =
     attempt (on_client i (Client_Close (mx_client x i))) (\<lambda>err. close_clients x is) (\<lambda>_. close_clients x is)"

definition linger_done :: "'w multi_ext \<Rightarrow> ('w, unit) multi_act" where
  "linger_done x = bnd (obj (\<lambda>m. map fst (GetClients m))) (close_clients x)"

fun reconnect_clients :: "int list \<Rightarrow> ('w, unit) multi_act" where
  "reconnect_clients [] = ret ()"
| "reconnect_clients (i # is) = bnd (on_client i (Client_Reconnect None)) (\<lambda>_. reconnect_clients is)"

definition MultiClient_Reconnect :: "('w, unit) multi_act" where
  "MultiClient_Reconnect =
     bnd (obj (\<lambda>m. m)) (\<lambda>m. if mu_isClosed m then ret () else reconnect_clients (map fst (mu_clients m)))"

section \<open>Creation\<close>

text \<open>
  The goroutine that creates client \<open>i\<close>, up to the point where it is counted as done; it reports whether
  the client was created. It does not return if connecting does not.
\<close>

definition create_client :: "'w multi_ext \<Rightarrow> account \<Rightarrow> string \<Rightarrow> int \<Rightarrow> multi_client \<times> 'w \<Rightarrow> (bool result \<times> (multi_client \<times> 'w)) option" where
  "create_client x account baseIdentifier i = (\<lambda>(m0, w).
     let m = m0\<lparr>mu_creating := remove1 i (mu_creating m0)\<rparr> in
     case NewClient (mx_client x i) account (addIdentifier baseIdentifier i) (Some (mu_config m)) w of
       None \<Rightarrow> None
     | Some (Panic p, w1) \<Rightarrow> Some (Panic p, (m, w1))
     | Some (Err e, w1) \<Rightarrow> Some (Ok False, (m\<lparr>mu_clientErrors := AList.update i e (mu_clientErrors m)\<rparr>, w1))
     | Some (Ok client, w1) \<Rightarrow>
         if mu_isClosed m
         then (case Client_Close (mx_client x i) (client, w1) of
                 (Panic p, (_, w2)) \<Rightarrow> Some (Panic p, (m, w2))
               | (_, (_, w2)) \<Rightarrow> Some (Ok False, (m, w2)))
         else (let m1 = m\<lparr>mu_clients := AList.update i client (mu_clients m)\<rparr> in
               Some (Ok True, (if i < mu_defaultClientIdx m1
                               then m1\<lparr>mu_defaultClient := Some i, mu_defaultClientIdx := i\<rparr> else m1, w1))))"

definition new_multi :: "'w multi_ext \<Rightarrow> account \<Rightarrow> string \<Rightarrow> int \<Rightarrow> bool \<Rightarrow> client_config \<Rightarrow> nat list \<Rightarrow> multi_client" where
  "new_multi x account baseIdentifier numSubClients originalClient config resolvers =
     (let offset = (if originalClient then 1 else 0) in
      \<lparr>mu_OnConnect = NewOnConnect 1 False, mu_OnMessage = NewOnMessage (nat (sint (cc_MsgChanLen config))) False,
       mu_OnMessageEvent = Some (NewOnMessageEvent 100 False), mu_config = config, mu_offset = offset,
       mu_addr = NewClientAddr (MakeAddressString (mx_cx x) (ac_PublicKey account) baseIdentifier),
       mu_acceptSession = make_chan acceptSessionBufSize, mu_onClose = False, mu_resolvers = resolvers, mu_clients = [],
       mu_clientErrors = [], mu_defaultClient = None, mu_acceptAddrs = [], mu_isClosed = False, mu_createDone = False,
       mu_numSubClients = numSubClients, mu_originalClient = originalClient, mu_sessions = [],
       mu_defaultClientIdx = numSubClients, mu_creating = [- offset .. numSubClients - 1], mu_lingering = False, mu_replyChans = []\<rparr>)"

definition make_multi :: "'w multi_ext \<Rightarrow> account \<Rightarrow> string \<Rightarrow> int \<Rightarrow> bool \<Rightarrow> client_config option \<Rightarrow> multi_client result" where
  "make_multi x account baseIdentifier numSubClients originalClient conf =
     and_then (MergeClientConfig (copy_client_config (mx_cx x)) conf) (\<lambda>config.
     and_then (resolver_loop 0 [] (cc_Resolvers config)) (\<lambda>resolvers.
       if cc_MsgChanLen config <s 0 then Panic NegativeLength
       else Ok (new_multi x account baseIdentifier numSubClients originalClient config resolvers)))"

text \<open>
  The caller waits for the first client that is created, or for the end of all goroutines. \<open>order\<close> is the
  order in which the goroutines come to their end; those that do not are passed over. The goroutines that
  are left when the caller returns go on creating clients.
\<close>

fun await_created :: "'w multi_ext \<Rightarrow> account \<Rightarrow> string \<Rightarrow> int list \<Rightarrow> multi_client \<times> 'w \<Rightarrow> (unit result \<times> (multi_client \<times> 'w)) option" where
  "await_created x account baseIdentifier [] s =
     (if mu_creating (fst s) = [] then Some (Err ErrCreateClientFailed, s) else None)"
| "await_created x account baseIdentifier (i # order) s =
     (case create_client x account baseIdentifier i s of
        None \<Rightarrow> await_created x account baseIdentifier order s
      | Some (Ok True, s1) \<Rightarrow> Some (Ok (), s1)
      | Some (Panic p, s1) \<Rightarrow> Some (Panic p, s1)
      | Some (_, s1) \<Rightarrow> await_created x account baseIdentifier order s1)"

definition NewMultiClient :: "'w multi_ext \<Rightarrow> int list \<Rightarrow> account \<Rightarrow> string \<Rightarrow> int \<Rightarrow> bool \<Rightarrow> client_config option \<Rightarrow> 'w \<Rightarrow>
    (multi_client result \<times> 'w) option" where
  "NewMultiClient x order account baseIdentifier numSubClients originalClient conf w =
     (case make_multi x account baseIdentifier numSubClients originalClient conf of
        Err e \<Rightarrow> Some (Err e, w)
      | Panic p \<Rightarrow> Some (Panic p, w)
      | Ok m \<Rightarrow>
          (case await_created x account baseIdentifier order (m, w) of
             None \<Rightarrow> None
           | Some (r, (m', w')) \<Rightarrow> Some (and_then r (\<lambda>_. Ok m'), w')))"

definition NewMultiClientV2 :: "'w multi_ext \<Rightarrow> int list \<Rightarrow> account \<Rightarrow> string \<Rightarrow> client_config option \<Rightarrow> 'w \<Rightarrow>
    (multi_client result \<times> 'w) option" where
  "NewMultiClientV2 x order account ident conf w =
     (case MergeClientConfig (copy_client_config (mx_cx x)) conf of
        Err e \<Rightarrow> Some (Err e, w)
      | Panic p \<Rightarrow> Some (Panic p, w)
      | Ok config \<Rightarrow> NewMultiClient x order account ident (cc_MultiClientNumClients config) (cc_MultiClientOriginalClient config) (Some config) w)"

text \<open>The goroutine that waits for all others.\<close>

definition creation_done :: "multi_client \<Rightarrow> multi_client" where
  "creation_done m = (if mu_creating m = [] then m\<lparr>mu_createDone := True\<rparr> else m)"

section \<open>Publishing\<close>

text \<open>The queries of \<^verbatim>\<open>publish\<close> go through the multiclient's own \<^verbatim>\<open>GetSubscribers\<close>, given as \<open>query\<close>.\<close>

definition multi_publisher :: "'w multi_ext \<Rightarrow> (multi_client \<Rightarrow> string \<Rightarrow> int \<Rightarrow> int \<Rightarrow> bool \<Rightarrow> bool \<Rightarrow> bytes \<Rightarrow> ('w, err, subscribers) act) \<Rightarrow>
    multi_client \<Rightarrow> (multi_client \<times> 'w) publisher" where
  "multi_publisher x query m =
     \<lparr>pc_MessageConfig = cc_MessageConfig (mu_config m),
      pc_GetSubscribers = (\<lambda>topic offset limit meta txPool hashPrefix.
        bnd (obj (\<lambda>m. m)) (\<lambda>m. env (query m topic offset limit meta txPool hashPrefix))),
      pc_send = multi_send x\<rparr>"

end
