(* ===== verification/Nkn_MultiClient_RPC.thy ===== *)
theory Nkn_MultiClient_RPC
  imports Nkn_MultiClient_Recv
begin

text \<open>
  The RPC methods, the transactions and the publishing of \<^verbatim>\<open>MultiClient\<close> (\<^verbatim>\<open>src/multiclient.go\<close>). A query asks
  the nodes of the sub-clients one after the other, in the order in which the map is visited, and the
  configured seed servers last. What needs a key pair or an address uses the default client; a multiclient
  that \<^verbatim>\<open>NewMultiClient\<close> has returned has one, without it these methods panic. A method and its variant
  without a context are one definition.
\<close>

section \<open>Queries\<close>

definition multi_nodes :: "multi_client \<Rightarrow> rpc_config list" where
  "multi_nodes m = map (\<lambda>(i, c). WalletConfig_RPC (wa_config (cl_wallet c))) (GetClients m)"

definition multi_query :: "multi_client \<Rightarrow> (rpc_config option \<Rightarrow> ('w, err, 'a) act) \<Rightarrow> ('w, err, 'a) act" where
  "multi_query m query = tiered (multi_nodes m) (ClientConfig_RPC (mu_config m)) query"

definition MultiClient_GetNonceByAddressContext :: "'w net_ext \<Rightarrow> multi_client \<Rightarrow> string \<Rightarrow> bool \<Rightarrow> ('w, err, int64) act" where
  "MultiClient_GetNonceByAddressContext net m address txPool = multi_query m (GetNonceContext net address txPool)"

definition MultiClient_GetHeightContext :: "'w net_ext \<Rightarrow> multi_client \<Rightarrow> ('w, err, int32) act" where
  "MultiClient_GetHeightContext net m = multi_query m (GetHeightContext net)"

definition MultiClient_BalanceByAddressContext :: "'w net_ext \<Rightarrow> multi_client \<Rightarrow> string \<Rightarrow> ('w, err, fixed64) act" where
  "MultiClient_BalanceByAddressContext net m address = multi_query m (GetBalanceContext net address)"

definition MultiClient_GetSubscribersContext :: "'w net_ext \<Rightarrow> multi_client \<Rightarrow> string \<Rightarrow> int \<Rightarrow> int \<Rightarrow> bool \<Rightarrow> bool \<Rightarrow> bytes \<Rightarrow> ('w, err, subscribers) act" where
  "MultiClient_GetSubscribersContext net m topic offset limit meta txPool subscriberHashPrefix = multi_query m (GetSubscribersContext net topic offset limit meta txPool subscriberHashPrefix)"

definition MultiClient_GetSubscriptionContext :: "'w net_ext \<Rightarrow> multi_client \<Rightarrow> string \<Rightarrow> string \<Rightarrow> ('w, err, subscription) act" where
  "MultiClient_GetSubscriptionContext net m topic subscriber = multi_query m (GetSubscriptionContext net topic subscriber)"

definition MultiClient_GetSubscribersCountContext :: "'w net_ext \<Rightarrow> multi_client \<Rightarrow> string \<Rightarrow> bytes \<Rightarrow> ('w, err, int) act" where
  "MultiClient_GetSubscribersCountContext net m topic subscriberHashPrefix = multi_query m (GetSubscribersCountContext net topic subscriberHashPrefix)"

definition MultiClient_GetRegistrantContext :: "'w net_ext \<Rightarrow> multi_client \<Rightarrow> string \<Rightarrow> ('w, err, registrant) act" where
  "MultiClient_GetRegistrantContext net m name = multi_query m (GetRegistrantContext net name)"

definition MultiClient_SendRawTransactionContext :: "'w net_ext \<Rightarrow> multi_client \<Rightarrow> transaction \<Rightarrow> ('w, err, string) act" where
  "MultiClient_SendRawTransactionContext net m txn = multi_query m (SendRawTransactionContext net txn)"

definition MultiClient_GetNonceContext :: "'w net_ext \<Rightarrow> multi_client \<Rightarrow> bool \<Rightarrow> ('w, err, int64) act" where
  "MultiClient_GetNonceContext net m txPool = bnd (of_res (default_client m)) (\<lambda>c. MultiClient_GetNonceByAddressContext net m (Wallet_Address (cl_wallet c)) txPool)"

definition MultiClient_BalanceContext :: "'w net_ext \<Rightarrow> multi_client \<Rightarrow> ('w, err, fixed64) act" where
  "MultiClient_BalanceContext net m = bnd (of_res (default_client m)) (\<lambda>c. MultiClient_BalanceByAddressContext net m (Wallet_Address (cl_wallet c)))"

definition multi_rpc_client :: "'w net_ext \<Rightarrow> multi_client \<Rightarrow> 'w rpc_client" where
  "multi_rpc_client net m =
     \<lparr>rpcGetNonce = MultiClient_GetNonceContext net m,
      rpcGetNonceByAddress = MultiClient_GetNonceByAddressContext net m,
      rpcBalance = MultiClient_BalanceContext net m,
      rpcBalanceByAddress = MultiClient_BalanceByAddressContext net m,
      rpcGetHeight = MultiClient_GetHeightContext net m,
      rpcGetSubscribers = MultiClient_GetSubscribersContext net m,
      rpcGetSubscription = MultiClient_GetSubscriptionContext net m,
      rpcGetSubscribersCount = MultiClient_GetSubscribersCountContext net m,
      rpcGetRegistrant = MultiClient_GetRegistrantContext net m,
      rpcSendRawTransaction = MultiClient_SendRawTransactionContext net m\<rparr>"

section \<open>Transactions and nano payments\<close>

definition MultiClient_SignTransaction :: "'w vault_ext \<Rightarrow> multi_client \<Rightarrow> transaction \<Rightarrow> transaction result" where
  "MultiClient_SignTransaction x m tx = and_then (default_client m) (\<lambda>c. Client_SignTransaction x c tx)"

definition MultiClient_NewNanoPay :: "'w nano_ext \<Rightarrow> multi_client \<Rightarrow> string \<Rightarrow> string \<Rightarrow> int \<Rightarrow> ('w, err, nano_pay) act" where
  "MultiClient_NewNanoPay nx m recipientAddress fee duration =
     bnd (of_res (default_client m)) (\<lambda>c.
     NewNanoPay nx (Wallet_ProgramHash (cl_wallet c)) recipientAddress fee duration)"

definition MultiClient_NewNanoPayClaimer :: "'w nano_ext \<Rightarrow> multi_client \<Rightarrow> string \<Rightarrow> string \<Rightarrow> ('w, err, claimer) act" where
  "MultiClient_NewNanoPayClaimer nx m recipientAddress minFlushAmount =
     (if length recipientAddress = 0
      then bnd (of_res (default_client m)) (\<lambda>c. NewNanoPayClaimer nx (Wallet_Address (cl_wallet c)) minFlushAmount)
      else NewNanoPayClaimer nx recipientAddress minFlushAmount)"

definition multi_signer :: "'w vault_ext \<Rightarrow> 'w net_ext \<Rightarrow> multi_client \<Rightarrow> client \<Rightarrow> 'w signer_rpc" where
  "multi_signer x net m c =
     \<lparr>sr_PubKey = Client_PubKey c, sr_SignTransaction = MultiClient_SignTransaction x m,
      sr_GetNonce = MultiClient_GetNonceContext net m, sr_SendRawTransaction = MultiClient_SendRawTransactionContext net m\<rparr>"

definition MultiClient_TransferContext ::
  "'w vault_ext \<Rightarrow> tx_ext \<Rightarrow> 'w net_ext \<Rightarrow> multi_client \<Rightarrow> string \<Rightarrow> string \<Rightarrow> transaction_config option \<Rightarrow> ('w, err, string) act" where
  "MultiClient_TransferContext x t net m address amount config = bnd (of_res (default_client m)) (\<lambda>c. TransferContext t (multi_signer x net m c) address amount config)"

definition MultiClient_RegisterNameContext ::
  "'w vault_ext \<Rightarrow> tx_ext \<Rightarrow> 'w net_ext \<Rightarrow> multi_client \<Rightarrow> string \<Rightarrow> transaction_config option \<Rightarrow> ('w, err, string) act" where
  "MultiClient_RegisterNameContext x t net m name config = bnd (of_res (default_client m)) (\<lambda>c. RegisterNameContext t (multi_signer x net m c) name config)"

definition MultiClient_TransferNameContext ::
  "'w vault_ext \<Rightarrow> tx_ext \<Rightarrow> 'w net_ext \<Rightarrow> multi_client \<Rightarrow> string \<Rightarrow> bytes \<Rightarrow> transaction_config option \<Rightarrow> ('w, err, string) act" where
  "MultiClient_TransferNameContext x t net m name recipientPubKey config = bnd (of_res (default_client m)) (\<lambda>c. TransferNameContext t (multi_signer x net m c) name recipientPubKey config)"

definition MultiClient_DeleteNameContext ::
  "'w vault_ext \<Rightarrow> tx_ext \<Rightarrow> 'w net_ext \<Rightarrow> multi_client \<Rightarrow> string \<Rightarrow> transaction_config option \<Rightarrow> ('w, err, string) act" where
  "MultiClient_DeleteNameContext x t net m name config = bnd (of_res (default_client m)) (\<lambda>c. DeleteNameContext t (multi_signer x net m c) name config)"

definition MultiClient_SubscribeContext ::
  "'w vault_ext \<Rightarrow> tx_ext \<Rightarrow> 'w net_ext \<Rightarrow> multi_client \<Rightarrow> string \<Rightarrow> string \<Rightarrow> int \<Rightarrow> string \<Rightarrow> transaction_config option \<Rightarrow> ('w, err, string) act" where
  "MultiClient_SubscribeContext x t net m ident topic duration meta config = bnd (of_res (default_client m)) (\<lambda>c. SubscribeContext t (multi_signer x net m c) ident topic duration meta config)"

definition MultiClient_UnsubscribeContext ::
  "'w vault_ext \<Rightarrow> tx_ext \<Rightarrow> 'w net_ext \<Rightarrow> multi_client \<Rightarrow> string \<Rightarrow> string \<Rightarrow> transaction_config option \<Rightarrow> ('w, err, string) act" where
  "MultiClient_UnsubscribeContext x t net m ident topic config = bnd (of_res (default_client m)) (\<lambda>c. UnsubscribeContext t (multi_signer x net m c) ident topic config)"

interpretation multi_signs: tx_signer "MultiClient_SignTransaction x m" for x m
  by unfold_locales (auto simp: MultiClient_SignTransaction_def dest: client_signs.sign_keeps client_signs.sign_programs)

section \<open>Publishing\<close>

text \<open>\<^verbatim>\<open>publish\<close> is shared with the client; it reads the subscribers through the multiclient's own queries.\<close>

definition MultiClient_Publish ::
  "'w multi_ext \<Rightarrow> string \<Rightarrow> idata \<Rightarrow> message_config option \<Rightarrow> multi_client \<times> 'w \<Rightarrow> (unit result \<times> (multi_client \<times> 'w)) option" where
  "MultiClient_Publish x topic data conf s =
     publish (copy_message_config (mx_cx x))
       (\<lambda>messageID noReply. env (newMessagePayload (cx_proto (mx_cx x)) (cx_rand (mx_cx x)) data messageID noReply))
       (multi_publisher x (MultiClient_GetSubscribersContext (cx_net (mx_cx x))) (fst s)) topic conf s"

definition MultiClient_PublishBinary ::
  "'w multi_ext \<Rightarrow> string \<Rightarrow> bytes \<Rightarrow> message_config option \<Rightarrow> multi_client \<times> 'w \<Rightarrow> (unit result \<times> (multi_client \<times> 'w)) option" where
  "MultiClient_PublishBinary x topic data conf s = MultiClient_Publish x topic (DBytes data) conf s"

definition MultiClient_PublishText ::
  "'w multi_ext \<Rightarrow> string \<Rightarrow> string \<Rightarrow> message_config option \<Rightarrow> multi_client \<times> 'w \<Rightarrow> (unit result \<times> (multi_client \<times> 'w)) option" where
  "MultiClient_PublishText x topic data conf s = MultiClient_Publish x topic (DString data) conf s"

section \<open>The order of the servers\<close>

text \<open>Servers that all answer with an error, and the environment after the last of them.\<close>

fun fails_through :: "(rpc_config option \<Rightarrow> ('w, err, 'a) act) \<Rightarrow> rpc_config list \<Rightarrow> 'w \<Rightarrow> 'w option" where
  "fails_through query [] w = Some w"
| "fails_through query (cfg # cfgs) w =
     (case query (Some cfg) w of (Err e, w') \<Rightarrow> fails_through query cfgs w' | (_, w') \<Rightarrow> None)"

definition servers :: "rpc_config list \<Rightarrow> rpc_config \<Rightarrow> rpc_config list" where
  "servers nodes seeds = filter (\<lambda>n. rc_SeedRPCServerAddr n \<noteq> []) nodes @ [seeds]"

lemma servers_Cons:
  "servers (n # nodes) seeds = (if rc_SeedRPCServerAddr n = [] then servers nodes seeds else n # servers nodes seeds)"
  by (simp add: servers_def)

lemma tiered_first_answer:
  "\<exists>pre cfg post v. servers nodes seeds = pre @ cfg # post \<and> fails_through query pre w = Some v \<and>
     query (Some cfg) v = tiered nodes seeds query w \<and>
     (post = [] \<or> is_ok (fst (tiered nodes seeds query w)) \<or> is_panic (fst (tiered nodes seeds query w)))"
proof (induction nodes arbitrary: w)
  case Nil
  show ?case by (intro exI [of _ "[]"] exI [of _ seeds] exI [of _ w]) (simp add: servers_def)
next
  case (Cons n nodes)
  show ?case
  proof (cases "rc_SeedRPCServerAddr n = []")
    case True
    with Cons.IH [of w] show ?thesis by (simp add: servers_Cons)
  next
    case False
    obtain r v where q: "query (Some n) w = (r, v)" by (cases "query (Some n) w")
    show ?thesis
    proof (cases "\<exists>e. r = Err e")
      case True
      with q False have t: "tiered (n # nodes) seeds query w = tiered nodes seeds query v" by (auto simp: attempt_def)
      from Cons.IH [of v] obtain pre cfg post u where
        i: "servers nodes seeds = pre @ cfg # post" "fails_through query pre v = Some u"
          "query (Some cfg) u = tiered nodes seeds query v"
          "post = [] \<or> is_ok (fst (tiered nodes seeds query v)) \<or> is_panic (fst (tiered nodes seeds query v))" by blast
      with t q False True show ?thesis
        by (intro exI [of _ "n # pre"] exI [of _ cfg] exI [of _ post] exI [of _ u]) (auto simp: servers_Cons)
    next
      case ok: False
      then have r: "is_ok r \<or> is_panic r" by (cases r) auto
      from ok q False have "tiered (n # nodes) seeds query w = (r, v)" by (cases r) (auto simp: attempt_def)
      with r q False show ?thesis
        by (intro exI [of _ "[]"] exI [of _ n] exI [of _ "servers nodes seeds"] exI [of _ w]) (simp add: servers_Cons)
    qed
  qed
qed

section \<open>Transfers\<close>

text \<open>
  A transfer through a multiclient sends exactly the transfer that was asked for: if it succeeds, the
  multiclient has a default client, and what was submitted carries a signature and is, apart from it, the
  transfer of the given amount from the default client's own address to the given recipient, with the
  nonce and the fee the configuration says and the configured attributes.
\<close>

lemma multi_transfer_sends:
  assumes "MultiClient_TransferContext x t net m address amount conf w = (Ok h, w')"
  shows "\<exists>c config sender amt recipient fee nonce w1 tx sent.
     GetDefaultClient m = Some c \<and> MergeTransactionConfig (copy_transaction_config t) conf = Ok config \<and>
     tx_CreateProgramHash t (Client_PubKey c) = Ok sender \<and> tx_StringToFixed64 t amount = Ok amt \<and>
     tx_ToScriptHash t address = Ok recipient \<and> tx_StringToFixed64 t (tc_Fee config) = Ok fee \<and>
     pick_nonce (multi_signer x net m c) config w = (Ok nonce, w1) \<and>
     NewTransferAssetTransaction t sender recipient nonce amt fee = Ok tx \<and>
     MultiClient_SendRawTransactionContext net m sent w1 = (Ok h, w') \<and> tx_Programs sent \<noteq> [] \<and>
     unsigned sent = unsigned (set_attributes config tx)"
proof -
  from assms obtain c where c: "GetDefaultClient m = Some c"
    and tr: "TransferContext t (multi_signer x net m c) address amount conf w = (Ok h, w')"
    by (auto simp: MultiClient_TransferContext_def default_client_def split: option.splits)
  from tr obtain config sender amt recipient where
    p: "MergeTransactionConfig (copy_transaction_config t) conf = Ok config" "tx_CreateProgramHash t (Client_PubKey c) = Ok sender"
      "tx_StringToFixed64 t amount = Ok amt" "tx_ToScriptHash t address = Ok recipient"
    and s: "send_tx t (multi_signer x net m c) config (\<lambda>nonce fee. NewTransferAssetTransaction t sender recipient nonce amt fee) w = (Ok h, w')"
    by (auto simp: TransferContext_def multi_signer_def)
  from s show ?thesis
  proof (rule send_tx_OkE)
    fix fee nonce tx w1
    assume q: "tx_StringToFixed64 t (tc_Fee config) = Ok fee" "pick_nonce (multi_signer x net m c) config w = (Ok nonce, w1)"
      "NewTransferAssetTransaction t sender recipient nonce amt fee = Ok tx"
      and ss: "sign_and_send (multi_signer x net m c) config tx w1 = (Ok h, w')"
    from multi_signs.sign_and_send_sent [OF ss] obtain sent where "MultiClient_SendRawTransactionContext net m sent w1 = (Ok h, w')"
      "tx_Programs sent \<noteq> []" "unsigned sent = unsigned (set_attributes config tx)"
      by (auto simp: multi_signer_def)
    with c p q show ?thesis by blast
  qed
qed

section \<open>Properties\<close>

text \<open>
  C31: A query of a multiclient asks, one after the other, the nodes of its sub-clients that have an RPC address
  and then its seed servers, and stops at the first that does not answer with an error: all servers before
  it have failed, its answer is the result, and the result is an error only if it was the last one, the
  seed servers.
\<close>

theorem multi_query_first_answer:
  "\<exists>pre cfg post v. servers (multi_nodes m) (ClientConfig_RPC (mu_config m)) = pre @ cfg # post \<and>
     fails_through query pre w = Some v \<and> query (Some cfg) v = multi_query m query w \<and>
     (post = [] \<or> is_ok (fst (multi_query m query w)) \<or> is_panic (fst (multi_query m query w)))"
  unfolding multi_query_def by (rule tiered_first_answer)

end
