(* ===== verification/Nkn_MultiClient_Inv.thy ===== *)
theory Nkn_MultiClient_Inv
  imports Nkn_MultiClient_RPC
begin

text \<open>
  The invariant of a multiclient (\<^verbatim>\<open>src/multiclient.go\<close>) and what follows from it: its operations, the
  rounds of its goroutines and the steps of its sub-clients (\<open>client_step\<close>) make up a state machine that
  starts with the multiclient that \<^verbatim>\<open>NewMultiClient\<close> returns.
\<close>

section \<open>The invariant\<close>

definition multi_open :: "multi_client \<Rightarrow> bool" where
  "multi_open m \<longleftrightarrow> \<not> ch_closed (oe_C (mu_OnConnect m)) \<and> \<not> ch_closed (oe_C (mu_OnMessage m)) \<and>
     (case mu_OnMessageEvent m of None \<Rightarrow> True | Some oe \<Rightarrow> \<not> ch_closed (oe_C oe)) \<and> \<not> mu_onClose m"

text \<open>The default client is the one with the smallest id; there is none as long as there is no client.\<close>

definition default_smallest :: "multi_client \<Rightarrow> bool" where
  "default_smallest m \<longleftrightarrow>
     (if mu_clients m = [] then mu_defaultClient m = None \<and> mu_defaultClientIdx m = mu_numSubClients m
      else mu_defaultClient m = Some (mu_defaultClientIdx m) \<and> mu_defaultClientIdx m \<in> set (map fst (mu_clients m)) \<and>
        (\<forall>i \<in> set (map fst (mu_clients m)). mu_defaultClientIdx m \<le> i))"

definition ids_expected :: "multi_client \<Rightarrow> bool" where
  "ids_expected m \<longleftrightarrow> distinct (map fst (mu_clients m)) \<and>
     set (map fst (mu_clients m)) \<union> set (mu_creating m) \<subseteq> set (expected_ids m)"

definition clients_ok :: "'w multi_ext \<Rightarrow> multi_client \<Rightarrow> bool" where
  "clients_ok x m \<longleftrightarrow> (\<forall>(i, c) \<in> set (mu_clients m). client_inv True (mx_client x i) c)"

definition multi_inv :: "bool \<Rightarrow> 'w multi_ext \<Rightarrow> multi_client \<Rightarrow> bool" where
  "multi_inv up x m \<longleftrightarrow> (mu_isClosed m \<or> multi_open m) \<and> default_smallest m \<and> ids_expected m \<and> clients_ok x m \<and>
     \<not> ch_closed (mu_acceptSession m) \<and> (up \<longrightarrow> mu_clients m \<noteq> [])"

abbreviation keeps_multi :: "bool \<Rightarrow> 'w multi_ext \<Rightarrow> ('w, 'a) multi_act \<Rightarrow> bool" where
  "keeps_multi up x a \<equiv> keeps (\<lambda>s. multi_inv up x (fst s)) a"

lemmas multi_inv_defs = multi_inv_def multi_open_def default_smallest_def ids_expected_def clients_ok_def expected_ids_def

section \<open>Operations that keep it\<close>

lemma AList_update_member: "(j, d) \<in> set (AList.update i c xs) \<Longrightarrow> (j, d) = (i, c) \<or> (j, d) \<in> set xs"
  by (induction xs) (auto split: if_splits)

lemma update_client_inv:
  assumes "multi_inv up x m" and "i \<in> set (map fst (mu_clients m))" and "client_inv True (mx_client x i) c"
  shows "multi_inv up x (m\<lparr>mu_clients := AList.update i c (mu_clients m)\<rparr>)"
proof -
  let ?m = "m\<lparr>mu_clients := AList.update i c (mu_clients m)\<rparr>"
  have k: "map fst (AList.update i c (mu_clients m)) = map fst (mu_clients m)" using assms(2) by (simp add: update_keys)
  then have "(AList.update i c (mu_clients m) = []) = (mu_clients m = [])" by (metis map_is_Nil_conv)
  with k have "default_smallest ?m = default_smallest m" "ids_expected ?m = ids_expected m"
    by (simp_all add: default_smallest_def ids_expected_def expected_ids_def flip: set_map del: set_map)
  moreover have "clients_ok x ?m" using assms(1,3) by (auto simp: clients_ok_def multi_inv_def dest!: AList_update_member)
  ultimately show ?thesis using assms(1) by (simp add: multi_inv_def multi_open_def)
qed

lemma keeps_on_client:
  assumes "keeps_client True (mx_client (x :: 'w multi_ext) i) op"
  shows "keeps_multi up x (on_client i op)"
  unfolding keeps_def
proof (intro allI impI)
  fix s :: "multi_client \<times> 'w" assume inv: "multi_inv up x (fst s)"
  obtain m w where s: "s = (m, w)" by (cases s)
  show "multi_inv up x (fst (snd (on_client i op s)))"
  proof (cases "map_of (mu_clients m) i")
    case (Some c)
    from map_of_SomeD [OF this] have m: "(i, c) \<in> set (mu_clients m)" .
    obtain r c' w' where o: "op (c, w) = (r, (c', w'))" by (metis prod_cases3)
    from m inv s have "client_inv True (mx_client x i) c" by (auto simp: multi_inv_def clients_ok_def)
    with keepsD_eq [OF assms _ o] have "client_inv True (mx_client x i) c'" by simp
    with update_client_inv [of up x m i c'] inv s m Some o show ?thesis by (force simp: on_client_def)
  qed (use inv s in \<open>simp add: on_client_def\<close>)
qed

text \<open>Fields that the invariant does not speak about, and channels that stay as open as they were.\<close>

lemma multi_inv_frame [simp]:
  "multi_inv up x (m\<lparr>mu_replyChans := a\<rparr>) = multi_inv up x m" "multi_inv up x (m\<lparr>mu_sessions := b\<rparr>) = multi_inv up x m"
  "multi_inv up x (m\<lparr>mu_acceptAddrs := as\<rparr>) = multi_inv up x m" "multi_inv up x (m\<lparr>mu_createDone := d\<rparr>) = multi_inv up x m"
  "multi_inv up x (m\<lparr>mu_clientErrors := es\<rparr>) = multi_inv up x m" "multi_inv up x (m\<lparr>mu_lingering := l\<rparr>) = multi_inv up x m"
  by (simp_all add: multi_inv_defs)

lemma multi_inv_channels:
  "multi_inv up x m \<Longrightarrow> ch_closed (oe_C ev) = ch_closed (oe_C (mu_OnMessage m)) \<Longrightarrow> multi_inv up x (m\<lparr>mu_OnMessage := ev\<rparr>)"
  "multi_inv up x m \<Longrightarrow> ch_closed (oe_C ec) = ch_closed (oe_C (mu_OnConnect m)) \<Longrightarrow> multi_inv up x (m\<lparr>mu_OnConnect := ec\<rparr>)"
  "multi_inv up x m \<Longrightarrow> mu_OnMessageEvent m = Some oe \<Longrightarrow> ch_closed (oe_C em) = ch_closed (oe_C oe) \<Longrightarrow>
     multi_inv up x (m\<lparr>mu_OnMessageEvent := Some em\<rparr>)"
  "multi_inv up x m \<Longrightarrow> \<not> ch_closed ch \<Longrightarrow> multi_inv up x (m\<lparr>mu_acceptSession := ch\<rparr>)"
  by (auto simp: multi_inv_def multi_open_def default_smallest_def ids_expected_def expected_ids_def clients_ok_def)

lemma multi_inv_acceptSession: "multi_inv up x m \<Longrightarrow> \<not> ch_closed (mu_acceptSession m)"
  by (simp add: multi_inv_def)

lemma chan_try_send_closed: "ch_closed (snd (chan_try_send v c)) = ch_closed c"
  by (simp add: chan_try_send_def)

lemma keeps_multi_emit [keeps_intros]: "keeps_multi up x (multi_emit x ev)"
  by (auto simp: keeps_def multi_emit_def OnMessageEvent_receive_def on_receive_closed intro!: multi_inv_channels(3) split: option.splits)

lemma keeps_multi_upd [keeps_intros]: "(\<And>m. multi_inv up x m \<Longrightarrow> multi_inv up x (f m)) \<Longrightarrow> keeps_multi up x (upd f)"
  by (rule keeps_upd) simp

lemma keeps_multi_focus: "(\<And>m. multi_inv up x m \<Longrightarrow> multi_inv up x (setf (snd (a (getf m))) m)) \<Longrightarrow> keeps_multi up x (focus getf setf a)"
  by (auto simp: keeps_def)

lemma keeps_multi_env [keeps_intros]: "keeps_multi up x (env a)" "keeps_multi up x (env_val b)"
  by (rule keeps_env keeps_env_val; simp)+

lemma keeps_policy_now [keeps_intros]: "keeps_multi up x (policy_now x)"
  unfolding policy_now_def by (intro keeps_intros)

lemma keeps_sendWithClient [keeps_intros]: "keeps_multi up x (sendWithClient x i dests p enc mh)"
  unfolding sendWithClient_def Let_def by (intro keeps_intros keeps_on_client)

lemma keeps_new_reply_chan [keeps_intros]: "keeps_client up x new_reply_chan"
  unfolding new_reply_chan_def by (intro keeps_intros) (simp_all add: client_inv_defs)

lemma keeps_await_reply [keeps_intros]: "keeps_multi up x (await_reply x i mid)"
  unfolding await_reply_def by (intro keeps_on_client keeps_intros) simp_all

lemma keeps_SendWithClient [keeps_intros]: "keeps_multi up x (SendWithClient x i dests data conf)"
  unfolding SendWithClient_def Let_def by (intro keeps_intros keeps_on_client)

lemma keeps_send_each [keeps_intros]: "keeps_multi up x (send_each x dests p cfg ev ids)"
  by (induction ids) (simp_all only: send_each.simps, (intro keeps_intros | assumption)+)

lemma keeps_MultiClient_Send [keeps_intros]: "keeps_multi up x (MultiClient_Send x dests data conf)"
  unfolding MultiClient_Send_def Let_def by (intro keeps_intros) simp

lemma keeps_pass_reply [keeps_intros]: "keeps_multi up x (pass_reply x p n raw)"
  unfolding pass_reply_def Let_def by (intro keeps_intros keeps_multi_focus) simp

lemma keeps_send_plain [keeps_intros]: "keeps_multi up x (send_plain x dests p enc mh ids)"
  by (induction ids) (simp_all only: send_plain.simps, (intro keeps_intros | assumption)+)

lemma keeps_multi_send [keeps_intros]: "keeps_multi up x (multi_send x dests p enc mh)"
  unfolding multi_send_def by (intro keeps_intros)

lemma keeps_newSession [keeps_intros]: "keeps_multi up x (newSession x remote cfg)"
  unfolding newSession_def by (intro keeps_intros)

lemma keeps_session_send [keeps_intros]: "keeps_multi up x (session_send x remote sid clients l r buf t)"
  unfolding session_send_def by (intro keeps_intros keeps_on_client)

lemma keeps_handleSessionMsg [keeps_intros]: "keeps_multi up x (handleSessionMsg x l src sid data)"
  unfolding handleSessionMsg_def Let_def
  by (intro keeps_intros keeps_multi_focus) (auto intro!: multi_inv_channels(4) simp: chan_try_send_closed multi_inv_acceptSession)

lemma keeps_Listen [keeps_intros]: "keeps_multi up x (Listen x res)"
  unfolding Listen_def Let_def by (intro keeps_intros) simp

lemma keeps_DialWithConfig [keeps_intros]: "keeps_multi up x (DialWithConfig x remote conf)"
  unfolding DialWithConfig_def by (intro keeps_intros) simp

lemma keeps_accept_waiting [keeps_intros]: "keeps_multi up x (accept_waiting x ss)"
proof (induction ss)
  case Nil
  show ?case unfolding accept_waiting.simps by (intro keeps_intros)
next
  case (Cons s ss)
  show ?case unfolding accept_waiting.simps
    by (intro keeps_intros Cons.IH) (simp add: multi_inv_channels(4) multi_inv_acceptSession)
qed

lemma keeps_AcceptSession [keeps_intros]: "keeps_multi up x (AcceptSession x)"
  unfolding AcceptSession_def by (intro keeps_intros)

lemma keeps_forward_connect [keeps_intros]: "keeps_multi up x (forward_connect n)"
  unfolding forward_connect_def
  by (intro keeps_intros keeps_multi_focus) (simp add: multi_inv_channels OnConnect_receive_def on_receive_closed)

lemma keeps_receive_round [keeps_intros]: "keeps_multi up x (receive_round x i msg)"
  unfolding receive_round_def receive_defs Let_def
  by (intro keeps_intros keeps_multi_focus) (simp add: multi_inv_channels OnMessage_receive_def on_receive_closed)

lemma keeps_MultiClient_Message_Reply [keeps_intros]: "keeps_multi up x (MultiClient_Message_Reply x msg data)"
proof -
  have "keeps_multi up x (NewReplyPayload (cx_proto (mx_cx x)) (\<lambda>n. env (cx_rand (mx_cx x) n)) data mid)" for mid
    by (cases data; auto simp: newPayload_defs intro!: keeps_intros)
  then show ?thesis unfolding MultiClient_Message_Reply_def by (cases "m_reply msg") (auto intro!: keeps_intros)
qed

lemma keeps_close_clients [keeps_intros]: "keeps_multi up x (close_clients x ids)"
proof (induction ids)
  case (Cons i ids)
  show ?case unfolding close_clients.simps by (intro keeps_intros keeps_on_client Cons.IH)
qed (simp add: keeps_Pair)

lemma keeps_linger_done [keeps_intros]: "keeps_multi up x (linger_done x)"
  unfolding linger_done_def by (intro keeps_intros)

lemma keeps_reconnect_clients [keeps_intros]: "keeps_multi up x (reconnect_clients ids)"
proof (induction ids)
  case (Cons i ids)
  show ?case unfolding reconnect_clients.simps by (intro keeps_intros keeps_on_client Cons.IH)
qed (simp add: keeps_Pair)

lemma keeps_MultiClient_Reconnect [keeps_intros]: "keeps_multi up x MultiClient_Reconnect"
  unfolding MultiClient_Reconnect_def by (intro keeps_intros)

section \<open>Closing\<close>

definition shut_event :: "'a on_event \<Rightarrow> 'a on_event" where
  "shut_event ev = ev\<lparr>oe_C := (oe_C ev)\<lparr>ch_closed := True\<rparr>\<rparr>"

definition shut :: "multi_client \<Rightarrow> multi_client" where
  "shut m = m\<lparr>mu_OnConnect := shut_event (mu_OnConnect m), mu_OnMessage := shut_event (mu_OnMessage m),
     mu_OnMessageEvent := map_option shut_event (mu_OnMessageEvent m), mu_onClose := True, mu_lingering := True, mu_isClosed := True\<rparr>"

definition multi_shut :: "multi_client \<Rightarrow> bool" where
  "multi_shut m \<longleftrightarrow> mu_isClosed m \<and> mu_onClose m \<and> mu_lingering m \<and> ch_closed (oe_C (mu_OnConnect m)) \<and> ch_closed (oe_C (mu_OnMessage m)) \<and>
     (case mu_OnMessageEvent m of None \<Rightarrow> True | Some oe \<Rightarrow> ch_closed (oe_C oe))"

lemma shut_shut: "multi_shut (shut m)"
  by (simp add: multi_shut_def shut_def shut_event_def split: option.splits)

lemma shut_inv: "multi_inv up x m \<Longrightarrow> multi_inv up x (shut m)"
  by (auto simp: multi_inv_def shut_def default_smallest_def ids_expected_def expected_ids_def clients_ok_def)

lemma close_sessions_frame:
  "\<exists>r w'. close_sessions x ss (m, w) = (r, (m, w')) \<and> (r = Ok () \<or> is_panic r) \<and>
     ((\<forall>s u. \<not> is_panic (fst (Session_Close x s u))) \<longrightarrow> r = Ok ())"
proof (induction ss arbitrary: w)
  case (Cons s ss)
  obtain r1 w1 where r1: "Session_Close x s w = (r1, w1)" by (cases "Session_Close x s w")
  obtain r w' where r: "close_sessions x ss (m, w1) = (r, (m, w'))" "r = Ok () \<or> is_panic r"
    "(\<forall>s u. \<not> is_panic (fst (Session_Close x s u))) \<longrightarrow> r = Ok ()" using Cons.IH by blast
  from r1 have "\<exists>s u. is_panic (fst (Session_Close x s u))" if "is_panic r1" using that by (metis fst_conv)
  then show ?case using r r1 by (cases r1) (auto simp: attempt_def)
qed simp

lemma MultiClient_Close_open:
  assumes "\<not> mu_isClosed m" and "multi_open m"
  shows "MultiClient_Close x (m, w) =
    (case close_sessions x (map snd (mu_sessions m)) (m, w) of (r, (_, w')) \<Rightarrow> (r, (if r = Ok () then shut m else m, w')))"
proof -
  obtain r w' where r: "close_sessions x (map snd (mu_sessions m)) (m, w) = (r, (m, w'))" "r = Ok () \<or> is_panic r"
    using close_sessions_frame [of x "map snd (mu_sessions m)" m w] by blast
  from assms show ?thesis
    by (cases "mu_OnMessageEvent m"; use r in \<open>auto simp: MultiClient_Close_def multi_close_events_def bnd_def multi_open_def is_panic_iff
        OnConnect_close_def OnMessage_close_def OnMessageEvent_close_def on_close_def chan_close_def shut_def shut_event_def\<close>)
qed

lemma MultiClient_Close_closed: "mu_isClosed m \<Longrightarrow> MultiClient_Close x (m, w) = (Ok (), (m, w))"
  by (simp add: MultiClient_Close_def)

lemma keeps_MultiClient_Close [keeps_intros]: "keeps_multi up x (MultiClient_Close x)"
proof -
  have "multi_inv up x (fst (snd (MultiClient_Close x (m, w))))" if "multi_inv up x m" for m w
  proof (cases "mu_isClosed m")
    case False
    with that have "multi_open m" by (simp add: multi_inv_def)
    from MultiClient_Close_open [OF False this, of x w] shut_inv [OF that] that show ?thesis by (auto split: prod.splits)
  qed (use that in \<open>simp add: MultiClient_Close_closed\<close>)
  then show ?thesis by (auto simp: keeps_def)
qed

text \<open>The sub-clients that are closed.\<close>

definition closed_ids :: "multi_client \<Rightarrow> int set" where
  "closed_ids m = {i. \<exists>c. map_of (mu_clients m) i = Some c \<and> cl_isClosed c}"

lemma on_client_Close:
  assumes "multi_inv up x m" and "i \<in> set (map fst (mu_clients m))" and "\<And>k u. \<not> is_panic (fst (Conn_Close (mx_client x i) k u))"
  shows "\<exists>r m' w'. on_client i (Client_Close (mx_client x i)) (m, w) = (r, (m', w')) \<and> \<not> is_panic r \<and> multi_inv up x m' \<and>
    map fst (mu_clients m') = map fst (mu_clients m) \<and> closed_ids m' = insert i (closed_ids m)"
proof -
  from assms(2) obtain c where c: "map_of (mu_clients m) i = Some c" by (metis list.set_map map_of_eq_None_iff not_None_eq)
  with assms(1) have inv: "client_inv True (mx_client x i) c" by (auto simp: multi_inv_def clients_ok_def dest!: map_of_SomeD)
  obtain r c' w' where r: "Client_Close (mx_client x i) (c, w) = (r, (c', w'))" by (metis prod_cases3)
  have "\<not> is_panic r \<and> cl_isClosed c'"
  proof (cases "cl_isClosed c")
    case True
    with r show ?thesis by (auto simp: Client_Close_closed)
  next
    case False
    with inv obtain k where k: "cl_conn c = Some k" and op: "channels_open c" by (auto simp: client_inv_def)
    obtain r0 w0 where r0: "Conn_Close (mx_client x i) k w = (r0, w0)" by (cases "Conn_Close (mx_client x i) k w")
    with assms(3) [of k w] have "\<not> is_panic r0" by simp
    with Client_Close_open [OF False op k r0] r show ?thesis by auto
  qed
  moreover have "multi_inv up x (m\<lparr>mu_clients := AList.update i c' (mu_clients m)\<rparr>)"
    using keepsD_eq [OF keeps_on_client [OF keeps_Close], of up x "(m, w)" i] assms(1) c r by (simp add: on_client_def)
  ultimately show ?thesis using c r assms(2)
    by (auto simp: on_client_def update_keys closed_ids_def update_conv' split: if_splits)
qed

lemma close_clients_all:
  assumes "multi_inv up x m" and "set ids \<subseteq> set (map fst (mu_clients m))" and "\<And>i k u. \<not> is_panic (fst (Conn_Close (mx_client x i) k u))"
  shows "\<exists>m' w'. close_clients x ids (m, w) = (Ok (), (m', w')) \<and> multi_inv up x m' \<and>
    map fst (mu_clients m') = map fst (mu_clients m) \<and> closed_ids m' = set ids \<union> closed_ids m"
  using assms(1,2)
proof (induction ids arbitrary: m w)
  case (Cons i ids)
  from Cons.prems have "i \<in> set (map fst (mu_clients m))" by simp
  from on_client_Close [OF Cons.prems(1) this assms(3), of w] obtain r m1 w1 where
    r: "on_client i (Client_Close (mx_client x i)) (m, w) = (r, (m1, w1))" "\<not> is_panic r" and m1: "multi_inv up x m1"
      "map fst (mu_clients m1) = map fst (mu_clients m)" "closed_ids m1 = insert i (closed_ids m)" by blast
  from Cons.IH [OF m1(1), of w1] Cons.prems(2) m1(2) obtain m2 w2 where
    m2: "close_clients x ids (m1, w1) = (Ok (), (m2, w2))" "multi_inv up x m2" "map fst (mu_clients m2) = map fst (mu_clients m)"
      "closed_ids m2 = set ids \<union> closed_ids m1" by (auto simp del: set_map)
  with r m1(3) show ?case by (cases r) (auto simp: attempt_def)
qed simp

lemma linger_done_all:
  assumes "multi_inv up x m" and "\<And>i k u. \<not> is_panic (fst (Conn_Close (mx_client x i) k u))"
  shows "\<exists>m' w'. linger_done x (m, w) = (Ok (), (m', w')) \<and> map fst (mu_clients m') = map fst (mu_clients m) \<and>
    (\<forall>(i, c) \<in> set (mu_clients m'). cl_isClosed c)"
proof -
  from close_clients_all [OF assms(1) _ assms(2), of "map fst (mu_clients m)" w] obtain m' w' where
    r: "close_clients x (map fst (mu_clients m)) (m, w) = (Ok (), (m', w'))" "multi_inv up x m'"
      "map fst (mu_clients m') = map fst (mu_clients m)" "closed_ids m' = set (map fst (mu_clients m)) \<union> closed_ids m" by auto
  have "cl_isClosed c" if "(i, c) \<in> set (mu_clients m')" for i c
  proof -
    from r(2) have "distinct (map fst (mu_clients m'))" by (simp add: multi_inv_def ids_expected_def)
    with that have "map_of (mu_clients m') i = Some c" by simp
    moreover have "i \<in> closed_ids m'" unfolding r(4) r(3) [symmetric] using that by force
    ultimately show ?thesis by (simp add: closed_ids_def)
  qed
  with r show ?thesis by (auto simp: linger_done_def GetClients_def)
qed

section \<open>Creation\<close>

definition add_client :: "int \<Rightarrow> client \<Rightarrow> multi_client \<Rightarrow> multi_client" where
  "add_client i c m =
     (let m1 = m\<lparr>mu_clients := AList.update i c (mu_clients m)\<rparr>
      in if i < mu_defaultClientIdx m1 then m1\<lparr>mu_defaultClient := Some i, mu_defaultClientIdx := i\<rparr> else m1)"

lemma add_client_fields [simp]:
  "mu_clients (add_client i c m) = AList.update i c (mu_clients m)" "mu_creating (add_client i c m) = mu_creating m"
  "mu_isClosed (add_client i c m) = mu_isClosed m" "multi_open (add_client i c m) = multi_open m"
  "expected_ids (add_client i c m) = expected_ids m" "mu_acceptSession (add_client i c m) = mu_acceptSession m"
  by (simp_all add: add_client_def Let_def multi_open_def expected_ids_def)

lemma update_nonempty: "AList.update i c xs \<noteq> []"
  by (cases xs) auto

lemma update_ids: "set (map fst (AList.update i c xs)) = insert i (set (map fst xs))"
  by (auto simp: update_keys)

lemma add_client_default:
  assumes "default_smallest m" and "i < mu_numSubClients m"
  shows "default_smallest (add_client i c m)"
proof (cases "i < mu_defaultClientIdx m")
  case True
  with assms(1) have "\<forall>j \<in> set (map fst (mu_clients m)). i \<le> j" by (auto simp: default_smallest_def split: if_splits)
  with True show ?thesis by (simp add: default_smallest_def add_client_def Let_def update_nonempty update_ids del: set_map)
next
  case False
  with assms have "mu_clients m \<noteq> []" by (auto simp: default_smallest_def)
  with False assms(1) show ?thesis by (simp add: default_smallest_def add_client_def Let_def update_nonempty update_ids del: set_map)
qed

lemma add_client_inv:
  assumes "multi_inv up x m" and "i \<in> set (expected_ids m)" and "client_inv True (mx_client x i) c"
  shows "multi_inv up x (add_client i c m)"
proof -
  have "default_smallest (add_client i c m)"
    by (rule add_client_default) (use assms(1,2) in \<open>simp_all add: multi_inv_def expected_ids_def\<close>)
  moreover have "ids_expected (add_client i c m)" using assms(1,2)
    by (simp add: multi_inv_def ids_expected_def update_ids distinct_update del: set_map)
  moreover have "clients_ok x (add_client i c m)" using assms(1,3)
    by (auto simp: multi_inv_def clients_ok_def dest!: AList_update_member)
  ultimately show ?thesis using assms(1) by (simp add: multi_inv_def)
qed

lemma create_client_inv:
  assumes "create_client x account ident i (m, w) = Some (r, (m', w'))" and "multi_inv up x m" and "i \<in> set (mu_creating m)"
  shows "multi_inv up x m' \<and> mu_creating m' = remove1 i (mu_creating m) \<and> (r = Ok True \<longrightarrow> mu_clients m' \<noteq> [])"
proof -
  let ?m = "m\<lparr>mu_creating := remove1 i (mu_creating m)\<rparr>"
  have inv: "multi_inv up x ?m" using assms(2) set_remove1_subset [of i "mu_creating m"]
    by (auto simp: multi_inv_def multi_open_def default_smallest_def ids_expected_def clients_ok_def expected_ids_def)
  obtain q w1 where n: "NewClient (mx_client x i) account (addIdentifier ident i) (Some (mu_config m)) w = Some (q, w1)"
    using assms(1) by (cases "NewClient (mx_client x i) account (addIdentifier ident i) (Some (mu_config m)) w") (auto simp: create_client_def)
  show ?thesis
  proof (cases "\<exists>c. q = Ok c \<and> \<not> mu_isClosed m")
    case True
    then obtain c where c: "q = Ok c" "\<not> mu_isClosed m" by blast
    have "client_inv True (mx_client x i) c" using NewClient_inv [OF n [unfolded c(1)]] .
    moreover have "i \<in> set (expected_ids ?m)" using assms(2,3) by (auto simp: multi_inv_def ids_expected_def expected_ids_def)
    ultimately have "multi_inv up x (add_client i c ?m)" using inv by (simp add: add_client_inv)
    moreover have "m' = add_client i c ?m" using assms(1) n c by (simp add: create_client_def add_client_def Let_def split: if_splits)
    ultimately show ?thesis by (simp add: update_nonempty)
  next
    case False
    with assms(1) n inv show ?thesis
      by (cases q) (auto simp: create_client_def Let_def split: prod.splits res.splits)
  qed
qed

lemma await_created_inv:
  assumes "await_created x account ident order (m, w) = Some (r, (m', w'))" and "multi_inv up x m"
    and "distinct order" and "set order \<subseteq> set (mu_creating m)"
  shows "multi_inv up x m' \<and> (r = Ok () \<longrightarrow> mu_clients m' \<noteq> [])"
  using assms
proof (induction order arbitrary: m w)
  case Nil
  then show ?case by (auto split: if_splits)
next
  case (Cons i order)
  show ?case
  proof (cases "create_client x account ident i (m, w)")
    case None
    with Cons.prems Cons.IH [of m w] show ?thesis by simp
  next
    case (Some y)
    then obtain q m1 w1 where q: "create_client x account ident i (m, w) = Some (q, (m1, w1))" by (cases y) auto
    from create_client_inv [OF q Cons.prems(2)] Cons.prems(4)
    have m1: "multi_inv up x m1" "mu_creating m1 = remove1 i (mu_creating m)" "q = Ok True \<longrightarrow> mu_clients m1 \<noteq> []" by auto
    have "set order \<subseteq> set (mu_creating m1)" using Cons.prems(3,4) m1(2) by (auto intro!: in_set_remove1 [THEN iffD2])
    with Cons.IH [of m1 w1] Cons.prems(1,3) q m1(1,3) show ?thesis by (auto split: res.splits bool.splits)
  qed
qed

lemma new_multi_inv:
  "multi_inv False x (new_multi x account ident n orig cfg rs)"
  by (auto simp: multi_inv_defs new_multi_def Let_def OnConnect_defs OnMessage_defs OnMessageEvent_defs new_on_event_def make_chan_def)

text \<open>The loop over the configured resolvers runs up to the length of the list it fills, which is empty.\<close>

lemma configured_resolvers_ignored:
  "make_multi x account ident n orig conf = Ok m \<Longrightarrow> mu_resolvers m = []"
  "make_client y account ident conf w = (Ok c, w') \<Longrightarrow> cl_resolvers c = []"
proof -
  have loop: "resolver_loop 0 [] gs = Ok []" for gs by (cases gs) simp_all
  show "make_multi x account ident n orig conf = Ok m \<Longrightarrow> mu_resolvers m = []"
    by (auto simp: make_multi_def loop new_multi_def Let_def split: if_splits)
  show "make_client y account ident conf w = (Ok c, w') \<Longrightarrow> cl_resolvers c = []"
    by (auto simp: make_client_def loop new_client_def Let_def split: if_splits)
qed

lemma NewMultiClient_inv:
  assumes "NewMultiClient x order account ident n orig conf w = Some (Ok m, w')"
    and "distinct order" and "set order \<subseteq> {- (if orig then 1 else 0) ..< n}"
  shows "multi_inv True x m"
proof -
  from assms(1) obtain m0 where m0: "make_multi x account ident n orig conf = Ok m0"
    by (cases "make_multi x account ident n orig conf") (auto simp: NewMultiClient_def)
  with assms(1) obtain r m1 w1 where a: "await_created x account ident order (m0, w) = Some (r, (m1, w1))"
    by (cases "await_created x account ident order (m0, w)") (auto simp: NewMultiClient_def)
  from m0 obtain cfg rs where c: "m0 = new_multi x account ident n orig cfg rs"
    by (auto simp: make_multi_def split: if_splits)
  have "set order \<subseteq> set (mu_creating m0)" using assms(3) by (auto simp: c new_multi_def Let_def)
  moreover have "multi_inv False x m0" unfolding c by (rule new_multi_inv)
  ultimately have "multi_inv False x m1 \<and> (r = Ok () \<longrightarrow> mu_clients m1 \<noteq> [])" using await_created_inv [OF a] assms(2) by blast
  with assms(1) m0 a show ?thesis by (cases r) (auto simp: NewMultiClient_def multi_inv_def)
qed

section \<open>The running multiclient\<close>

text \<open>
  What can happen to a multiclient between two moments at which no operation holds it: an operation of its
  user, the goroutine of one of its sub-clients, a step of a sub-client, a round of the loops that collect
  what a sub-client has delivered, the end of the linger time, a value that its user takes from one of its
  queues, or a change of the environment alone.
\<close>

definition set_client :: "int \<Rightarrow> client \<Rightarrow> multi_client \<Rightarrow> multi_client" where
  "set_client i c m = m\<lparr>mu_clients := AList.update i c (mu_clients m)\<rparr>"

inductive multi_step :: "'w multi_ext \<Rightarrow> account \<Rightarrow> string \<Rightarrow> multi_client \<times> 'w \<Rightarrow> multi_client \<times> 'w \<Rightarrow> bool"
  for x account ident where
  send: "MultiClient_Send x dests data conf s = (r, t) \<Longrightarrow> multi_step x account ident s t"
| send_with: "SendWithClient x i dests data conf s = (r, t) \<Longrightarrow> multi_step x account ident s t"
| reply_arrived: "pass_reply x payload n msg s = (r, t) \<Longrightarrow> multi_step x account ident s t"
| reply: "MultiClient_Message_Reply x msg data s = (r, t) \<Longrightarrow> multi_step x account ident s t"
| publish: "MultiClient_Publish x topic data conf s = Some (r, t) \<Longrightarrow> multi_step x account ident s t"
| listen: "Listen x addrs s = (r, t) \<Longrightarrow> multi_step x account ident s t"
| dial: "DialWithConfig x addr dconf s = (q, t) \<Longrightarrow> multi_step x account ident s t"
| accept: "AcceptSession x s = (q, t) \<Longrightarrow> multi_step x account ident s t"
| session_out: "session_send x addr sid clients l rid buf timeout s = (r, t) \<Longrightarrow> multi_step x account ident s t"
| close: "MultiClient_Close x s = (r, t) \<Longrightarrow> multi_step x account ident s t"
| reconnect: "MultiClient_Reconnect s = (r, t) \<Longrightarrow> multi_step x account ident s t"
| lingered: "mu_lingering m \<Longrightarrow> linger_done x (m, w) = (r, t) \<Longrightarrow> multi_step x account ident (m, w) t"
| create: "i \<in> set (mu_creating m) \<Longrightarrow> create_client x account ident i (m, w) = Some (b, t) \<Longrightarrow> multi_step x account ident (m, w) t"
| created: "multi_step x account ident (m, w) (creation_done m, w)"
| client: "map_of (mu_clients m) i = Some c \<Longrightarrow> client_step (mx_client x i) (c, w) (c', w') \<Longrightarrow>
    multi_step x account ident (m, w) (set_client i c' m, w')"
| deliver: "map_of (mu_clients m) i = Some c \<Longrightarrow> OnMessage_Next (cl_OnMessage c) = (Received msg, ev) \<Longrightarrow>
    receive_round x i msg (set_client i (c\<lparr>cl_OnMessage := ev\<rparr>) m, w) = (b, t) \<Longrightarrow> multi_step x account ident (m, w) t"
| connected: "map_of (mu_clients m) i = Some c \<Longrightarrow> OnConnect_Next (cl_OnConnect c) = (Received node, ec) \<Longrightarrow>
    forward_connect node (set_client i (c\<lparr>cl_OnConnect := ec\<rparr>) m, w) = (b, t) \<Longrightarrow> multi_step x account ident (m, w) t"
| take_message: "OnMessage_Next (mu_OnMessage m) = (v, ev) \<Longrightarrow> multi_step x account ident (m, w) (m\<lparr>mu_OnMessage := ev\<rparr>, w)"
| take_connect: "OnConnect_Next (mu_OnConnect m) = (n, ec) \<Longrightarrow> multi_step x account ident (m, w) (m\<lparr>mu_OnConnect := ec\<rparr>, w)"
| take_event: "mu_OnMessageEvent m = Some oe \<Longrightarrow> OnMessageEvent_Next oe = (e, em) \<Longrightarrow>
    multi_step x account ident (m, w) (m\<lparr>mu_OnMessageEvent := Some em\<rparr>, w)"
| environment: "multi_step x account ident (m, w) (m, w')"

lemma set_client_inv:
  assumes "multi_inv up x m" and "map_of (mu_clients m) i = Some c" and "client_step (mx_client x i) (c, w) (c', w')"
  shows "multi_inv up x (set_client i c' m)"
proof -
  from map_of_SomeD [OF assms(2)] have m: "(i, c) \<in> set (mu_clients m)" .
  with assms(1) have "client_inv True (mx_client x i) c" by (auto simp: multi_inv_def clients_ok_def)
  with client_step_inv [OF assms(3)] have "client_inv True (mx_client x i) c'" by simp
  with update_client_inv [OF assms(1)] m show ?thesis unfolding set_client_def by force
qed

lemma MultiClient_Publish_inv:
  assumes "MultiClient_Publish x topic data conf s = Some (r, t)" and "multi_inv up x (fst s)"
  shows "multi_inv up x (fst t)"
  by (rule publish_keeps [where P = "\<lambda>s. multi_inv up x (fst s)", OF assms(1) [unfolded MultiClient_Publish_def] assms(2)])
    (auto simp: multi_publisher_def intro!: keeps_intros)

lemma multi_step_inv:
  assumes "multi_step x account ident s t" and "multi_inv up x (fst s)"
  shows "multi_inv up x (fst t)"
  using assms
proof (induction rule: multi_step.induct)
  case (publish topic data conf s r t)
  then show ?case by (blast intro: MultiClient_Publish_inv)
next
  case (create i m w b t)
  then show ?case using create_client_inv by (cases t) fastforce
next
  case (created m w)
  then show ?case by (simp add: creation_done_def)
next
  case (client m i c w c' w')
  then show ?case using set_client_inv by auto
next
  case (deliver m i c msg ev w b t)
  then have "multi_inv up x (set_client i (c\<lparr>cl_OnMessage := ev\<rparr>) m)"
    by (intro set_client_inv [of up x m i c w _ w]) (auto intro: client_step.take_message)
  with keepsD_eq [OF keeps_receive_round _ deliver(3), of up] show ?case by simp
next
  case (connected m i c node ec w b t)
  then have "multi_inv up x (set_client i (c\<lparr>cl_OnConnect := ec\<rparr>) m)"
    by (intro set_client_inv [of up x m i c w _ w]) (auto intro: client_step.take_connect)
  with keepsD_eq [OF keeps_forward_connect _ connected(3), of up x] show ?case by simp
next
  case (take_message m v ev w)
  then show ?case by (auto simp: OnMessage_Next_def dest!: on_next_closed intro: multi_inv_channels)
next
  case (take_connect m n ec w)
  then show ?case by (auto simp: OnConnect_Next_def dest!: on_next_closed intro: multi_inv_channels)
next
  case (take_event m oe e em w)
  then show ?case by (auto simp: OnMessageEvent_Next_def dest!: on_next_closed intro: multi_inv_channels)
next
  case (lingered m w r t)
  with keepsD_eq [OF keeps_linger_done _ lingered(2), of up] show ?case by simp
qed (auto intro: keepsD_eq [OF keeps_MultiClient_Send] keepsD_eq [OF keeps_SendWithClient] keepsD_eq [OF keeps_pass_reply]
    keepsD_eq [OF keeps_MultiClient_Message_Reply] keepsD_eq [OF keeps_Listen] keepsD_eq [OF keeps_DialWithConfig]
    keepsD_eq [OF keeps_AcceptSession] keepsD_eq [OF keeps_session_send] keepsD_eq [OF keeps_MultiClient_Close]
    keepsD_eq [OF keeps_MultiClient_Reconnect])

text \<open>The goroutines of \<^verbatim>\<open>NewMultiClient\<close> are those of its ids, and each comes to its end once at most.\<close>

definition new_multi_client :: "'w multi_ext \<Rightarrow> account \<Rightarrow> string \<Rightarrow> multi_client \<times> 'w \<Rightarrow> bool" where
  "new_multi_client x account ident s \<longleftrightarrow>
     (\<exists>order n orig conf v. distinct order \<and> set order \<subseteq> {- (if orig then 1 else 0) ..< n} \<and>
        NewMultiClient x order account ident n orig conf v = Some (Ok (fst s), snd s))"

interpretation running_multi: invariant_system "new_multi_client x account ident" "multi_step x account ident"
  "\<lambda>s. multi_inv True x (fst s)" for x account ident
  by unfold_locales (auto simp: new_multi_client_def intro: NewMultiClient_inv multi_step_inv)

section \<open>Received messages\<close>

text \<open>Rounds of the loops one after the other: what arrives, and through which sub-client.\<close>

fun receive_rounds :: "'w multi_ext \<Rightarrow> (int \<times> message) list \<Rightarrow> ('w, unit) multi_act" where
  "receive_rounds x [] = ret ()"
| "receive_rounds x ((i, msg) # arrivals) = bnd (receive_round x i msg) (\<lambda>_. receive_rounds x arrivals)"

text \<open>The reference: the first message of every id that is not known yet.\<close>

fun first_arrivals :: "bytes set \<Rightarrow> (int \<times> message) list \<Rightarrow> message list" where
  "first_arrivals seen [] = []"
| "first_arrivals seen ((i, msg) # arrivals) =
     (if m_MessageID msg \<in> seen then first_arrivals seen arrivals
      else msg # first_arrivals (insert (m_MessageID msg) seen) arrivals)"

definition delivered :: "message \<Rightarrow> message" where
  "delivered msg = with_reply (strip_source msg)"

lemma first_arrivals_ids:
  "set (map m_MessageID (first_arrivals seen arrivals)) = (m_MessageID \<circ> snd) ` set arrivals - seen"
  "distinct (map m_MessageID (first_arrivals seen arrivals))"
proof (induction seen arrivals rule: first_arrivals.induct)
  case (2 seen i msg arrivals)
  { case 1 show ?case using 2 by (auto simp del: set_map simp add: image_iff) }
  { case 2 show ?case using 2 "2.IH" by (auto simp del: set_map) }
qed simp_all

text \<open>
  What the cache of message ids promises for entries that have not expired: \<open>keys\<close> are the ids in it,
  \<^verbatim>\<open>Get\<close> tells whether an id is among them, \<^verbatim>\<open>Set\<close> adds one, and reading the clock changes nothing.
\<close>

definition msg_cache_laws :: "'w multi_ext \<Rightarrow> ('w \<Rightarrow> bytes set) \<Rightarrow> bool" where
  "msg_cache_laws x keys \<longleftrightarrow>
     (\<forall>k w. fst (MsgCache_Get x k w) = (k \<in> keys w) \<and> keys (snd (MsgCache_Get x k w)) = keys w) \<and>
     (\<forall>k w. keys (snd (MsgCache_Set x k w)) = insert k (keys w)) \<and>
     (\<forall>w. keys (snd (cx_now (mx_cx x) w)) = keys w)"

lemma multi_emit_open:
  assumes "msg_cache_laws x keys" and "multi_open m"
  shows "\<exists>oe w'. multi_emit x ev (m, w) = (Ok (), (m\<lparr>mu_OnMessageEvent := oe\<rparr>, w')) \<and>
     multi_open (m\<lparr>mu_OnMessageEvent := oe\<rparr>) \<and> keys w' = keys w"
proof (cases "mu_OnMessageEvent m")
  case None
  then show ?thesis using assms(2) by (intro exI [of _ None] exI [of _ w]) (simp add: multi_emit_def multi_open_def)
next
  case (Some oe)
  let ?e = "ev (fst (cx_now (mx_cx x) w))"
  from Some assms(2) have "fst (OnMessageEvent_receive ?e oe) = Ok ()"
    by (auto simp: multi_open_def intro: on_message_event.receive_open_ok)
  then show ?thesis using assms Some
    by (intro exI [of _ "Some (snd (OnMessageEvent_receive ?e oe))"] exI [of _ "snd (cx_now (mx_cx x) w)"])
      (simp add: multi_emit_def bnd_def multi_open_def msg_cache_laws_def OnMessageEvent_receive_def on_receive_closed)
qed

text \<open>The parts of a multiclient that deliver messages.\<close>

definition receiving :: "multi_client \<Rightarrow> bool" where
  "receiving m \<longleftrightarrow> \<not> mu_isClosed m \<and> multi_open m"

lemma receive_round_open:
  assumes "msg_cache_laws x keys" and "receiving m" and "m_Type msg \<noteq> SessionType"
  shows "\<exists>m' w'. receive_round x i msg (m, w) = (Ok True, (m', w')) \<and> receiving m' \<and>
     keys w' = insert (m_MessageID msg) (keys w) \<and>
     mu_OnMessage m' = (if m_MessageID msg \<in> keys w then mu_OnMessage m else snd (OnMessage_receive (delivered msg) (mu_OnMessage m)))"
proof -
  let ?msg = "msg\<lparr>m_Src := fst (removeIdentifier (m_Src msg))\<rparr>"
  let ?ev = "\<lambda>t. (receive_event MessageEventTypeReceive (MultiClient_Address m) ?msg t)\<lparr>me_SubClientID := word_of_int i\<rparr>"
  from assms(2) have op: "multi_open m" "\<not> mu_isClosed m" by (simp_all add: receiving_def)
  from multi_emit_open [OF assms(1) op(1), of ?ev w] obtain oe w1 where
    e: "multi_emit x ?ev (m, w) = (Ok (), (m\<lparr>mu_OnMessageEvent := oe\<rparr>, w1))"
    and o1: "multi_open (m\<lparr>mu_OnMessageEvent := oe\<rparr>)" and k1: "keys w1 = keys w" by blast
  have r: "fst (OnMessage_receive (with_reply ?msg) (mu_OnMessage m)) = Ok ()" using op(1)
    by (auto simp: multi_open_def intro: on_message.receive_open_ok)
  have o2: "multi_open (m\<lparr>mu_OnMessageEvent := oe, mu_OnMessage := snd (OnMessage_receive v (mu_OnMessage m))\<rparr>)" for v
    using o1 by (simp add: multi_open_def OnMessage_receive_def on_receive_closed)
  show ?thesis
  proof (cases "m_MessageID msg \<in> keys w")
    case True
    with e k1 assms(1,3) op o1 show ?thesis
      by (simp add: receive_round_def receive_defs Let_def bnd_Ok msg_cache_laws_def receiving_def insert_absorb)
  next
    case False
    with e k1 assms(1,3) op r o2 show ?thesis
      by (simp add: receive_round_def receive_defs Let_def bnd_Ok msg_cache_laws_def receiving_def delivered_def bnd_def)
  qed
qed

lemma receive_rounds_open:
  assumes "msg_cache_laws x keys" and "receiving m" and "\<forall>(i, msg) \<in> set arrivals. m_Type msg \<noteq> SessionType"
  shows "\<exists>m' w'. receive_rounds x arrivals (m, w) = (Ok (), (m', w')) \<and> receiving m' \<and>
     keys w' = keys w \<union> (m_MessageID \<circ> snd) ` set arrivals \<and>
     receive_all OnMessage_receive (map delivered (first_arrivals (keys w) arrivals)) (mu_OnMessage m) = (Ok (), mu_OnMessage m')"
  using assms(2,3)
proof (induction arrivals arbitrary: m w)
  case (Cons a arrivals)
  obtain i msg where a: "a = (i, msg)" by (cases a)
  from Cons.prems a have t: "m_Type msg \<noteq> SessionType" by simp
  from receive_round_open [OF assms(1) Cons.prems(1) t, of i w] obtain m1 w1 where
    r: "receive_round x i msg (m, w) = (Ok True, (m1, w1))" "receiving m1" "keys w1 = insert (m_MessageID msg) (keys w)"
      "mu_OnMessage m1 = (if m_MessageID msg \<in> keys w then mu_OnMessage m else snd (OnMessage_receive (delivered msg) (mu_OnMessage m)))" by blast
  from Cons.IH [OF r(2), of w1] Cons.prems(2) obtain m2 w2 where
    i: "receive_rounds x arrivals (m1, w1) = (Ok (), (m2, w2))" "receiving m2" "keys w2 = keys w1 \<union> (m_MessageID \<circ> snd) ` set arrivals"
      "receive_all OnMessage_receive (map delivered (first_arrivals (keys w1) arrivals)) (mu_OnMessage m1) = (Ok (), mu_OnMessage m2)" by auto
  have ok: "OnMessage_receive (delivered msg) (mu_OnMessage m) = (Ok (), snd (OnMessage_receive (delivered msg) (mu_OnMessage m)))"
    using Cons.prems(1) on_message.receive_open_ok [of "mu_OnMessage m" "delivered msg"]
    by (cases "OnMessage_receive (delivered msg) (mu_OnMessage m)") (auto simp: receiving_def multi_open_def)
  from r i a show ?case by (auto simp: bnd_Ok bnd_Ok [of "OnMessage_receive (delivered msg)", OF ok] insert_absorb)
qed simp

section \<open>Sessions\<close>

lemma update_new: "map_of xs k = None \<Longrightarrow> AList.update k v xs = xs @ [(k, v)]"
  by (induction xs) (auto split: if_splits)

text \<open>What a session message does to the multiclient: nothing, or one new session.\<close>

definition new_session :: "'w multi_ext \<Rightarrow> message \<Rightarrow> multi_client \<Rightarrow> multi_client \<Rightarrow> bool" where
  "new_session x msg m m' \<longleftrightarrow>
     (let remote = fst (removeIdentifier (m_Src msg)); key = sessionKey remote (m_MessageID msg) in
      m_Type msg = SessionType \<and> m_Encrypted msg \<and> shouldAcceptAddr x m remote \<and> map_of (mu_sessions m) key = None \<and>
      (\<exists>s. mu_sessions m' = mu_sessions m @ [(key, s)] \<and> mu_acceptAddrs m' = mu_acceptAddrs m \<and>
         set (ch_buf (mu_acceptSession m')) \<subseteq> insert s (set (ch_buf (mu_acceptSession m)))))"

definition same_sessions :: "multi_client \<Rightarrow> multi_client \<Rightarrow> bool" where
  "same_sessions m m' \<longleftrightarrow> mu_sessions m' = mu_sessions m \<and> mu_acceptAddrs m' = mu_acceptAddrs m \<and> mu_acceptSession m' = mu_acceptSession m"

lemma handleSessionMsg_effect:
  assumes "m_Type msg = SessionType" and "m_Encrypted msg"
  shows "same_sessions m (fst (snd (handleSessionMsg x l (m_Src msg) (m_MessageID msg) data (m, w)))) \<or>
    new_session x msg m (fst (snd (handleSessionMsg x l (m_Src msg) (m_MessageID msg) data (m, w))))"
proof -
  obtain remote rid where rm: "removeIdentifier (m_Src msg) = (remote, rid)" by (cases "removeIdentifier (m_Src msg)")
  let ?key = "sessionKey remote (m_MessageID msg)"
  obtain q w1 where q: "newSession x remote (cc_SessionConfig (mu_config m)) (m, w) = (q, (m, w1))"
    by (simp add: newSession_def)
  show ?thesis
  proof (cases "map_of (mu_sessions m) ?key")
    case None
    show ?thesis
    proof (cases "shouldAcceptAddr x m remote")
      case True
      show ?thesis
      proof (cases q)
        case (Ok s)
        obtain r2 w2 where "Session_ReceiveWith x s l rid data w1 = (r2, w2)" by (cases "Session_ReceiveWith x s l rid data w1")
        with rm None True q Ok assms show ?thesis
          by (cases r2) (auto simp: handleSessionMsg_def bnd_def new_session_def Let_def update_new chan_try_send_def)
      qed (use rm None True q in \<open>simp_all add: handleSessionMsg_def Let_def bnd_def same_sessions_def\<close>)
    qed (use rm None in \<open>simp add: handleSessionMsg_def Let_def same_sessions_def\<close>)
  next
    case (Some s)
    obtain r2 w2 where "Session_ReceiveWith x s l rid data w = (r2, w2)" by (cases "Session_ReceiveWith x s l rid data w")
    with rm Some show ?thesis by (cases r2) (simp_all add: handleSessionMsg_def Let_def bnd_def same_sessions_def)
  qed
qed

lemma receive_plain_sessions: "keeps (\<lambda>s. same_sessions m (fst s)) (receive_plain x i msg)"
  unfolding receive_defs multi_emit_def Let_def
  by (intro keeps_intros keeps_focus) (simp_all add: same_sessions_def)

lemma receive_round_effect:
  "same_sessions m (fst (snd (receive_round x i msg (m, w)))) \<or> new_session x msg m (fst (snd (receive_round x i msg (m, w))))"
proof (cases "m_Type msg = SessionType")
  case True
  show ?thesis
  proof (cases "m_Encrypted msg")
    case enc: True
    let ?h = "handleSessionMsg x (addIdentifier [] (i - mu_offset m)) (m_Src msg) (m_MessageID msg) (m_Data msg) (m, w)"
    obtain r s where h: "?h = (r, s)" by (cases ?h)
    then have "snd (receive_round x i msg (m, w)) = s" using True enc
      by (cases r) (simp_all add: receive_round_def attempt_def)
    with handleSessionMsg_effect [OF True enc, of m x "addIdentifier [] (i - mu_offset m)" "m_Data msg" w] h show ?thesis by simp
  qed (use True in \<open>simp add: receive_round_def same_sessions_def\<close>)
next
  case False
  with keepsD [OF receive_plain_sessions, of m "(m, w)"] show ?thesis by (simp add: receive_round_def same_sessions_def)
qed

text \<open>The sessions that a list of arrivals may open.\<close>

definition admitted :: "'w multi_ext \<Rightarrow> multi_client \<Rightarrow> (int \<times> message) list \<Rightarrow> string \<Rightarrow> bool" where
  "admitted x m arrivals key \<longleftrightarrow>
     (\<exists>(i, msg) \<in> set arrivals. m_Type msg = SessionType \<and> m_Encrypted msg \<and>
        shouldAcceptAddr x m (fst (removeIdentifier (m_Src msg))) \<and>
        key = sessionKey (fst (removeIdentifier (m_Src msg))) (m_MessageID msg))"

lemma receive_rounds_sessions:
  "let m' = fst (snd (receive_rounds x arrivals (m, w))) in
     mu_acceptAddrs m' = mu_acceptAddrs m \<and>
     (\<exists>new. mu_sessions m' = mu_sessions m @ new \<and> (\<forall>(key, s) \<in> set new. admitted x m arrivals key) \<and>
        set (ch_buf (mu_acceptSession m')) \<subseteq> set (ch_buf (mu_acceptSession m)) \<union> snd ` set new)"
proof (induction arrivals arbitrary: m w)
  case (Cons a arrivals)
  obtain i msg where a: "a = (i, msg)" by (cases a)
  obtain r m1 w1 where r: "receive_round x i msg (m, w) = (r, (m1, w1))" by (metis prod_cases3)
  from receive_round_effect [of m x i msg w] r have ef: "same_sessions m m1 \<or> new_session x msg m m1" by simp
  then have acc: "mu_acceptAddrs m1 = mu_acceptAddrs m" by (auto simp: same_sessions_def new_session_def Let_def)
  from ef obtain new1 where n1: "mu_sessions m1 = mu_sessions m @ new1" "\<forall>(key, s) \<in> set new1. admitted x m (a # arrivals) key"
    "set (ch_buf (mu_acceptSession m1)) \<subseteq> set (ch_buf (mu_acceptSession m)) \<union> snd ` set new1"
    by (auto simp: same_sessions_def new_session_def Let_def admitted_def a)
  let ?m2 = "fst (snd (receive_rounds x (a # arrivals) (m, w)))"
  show ?case
  proof (cases r)
    case (Ok b)
    with r a have "?m2 = fst (snd (receive_rounds x arrivals (m1, w1)))" by (simp add: bnd_Ok)
    with Cons.IH [of m1 w1] obtain new2 where n2: "mu_sessions ?m2 = mu_sessions m1 @ new2"
      "\<forall>(key, s) \<in> set new2. admitted x m1 arrivals key" "mu_acceptAddrs ?m2 = mu_acceptAddrs m1"
      "set (ch_buf (mu_acceptSession ?m2)) \<subseteq> set (ch_buf (mu_acceptSession m1)) \<union> snd ` set new2"
      by (auto simp: Let_def)
    have "admitted x m1 arrivals key \<Longrightarrow> admitted x m (a # arrivals) key" for key
      using acc by (auto simp: admitted_def shouldAcceptAddr_def)
    with n1 n2 acc show ?thesis unfolding Let_def
      by (intro conjI exI [of _ "new1 @ new2"]) (auto simp: image_Un)
  qed (use r a n1 acc in \<open>auto simp: bnd_def Let_def\<close>)
qed simp

section \<open>Witness instances\<close>

text \<open>
  An environment in which every sub-client connects, and one whose only state is the cache of message ids.
\<close>

definition demo_conn_mx :: "unit multi_ext" where
  "demo_conn_mx = demo_mx\<lparr>mx_client := (\<lambda>i. demo_conn_cx)\<rparr>"

text \<open>An environment without a state of its own beside any state.\<close>

definition beside :: "(unit \<Rightarrow> 'a \<times> unit) \<Rightarrow> 's \<Rightarrow> 'a \<times> 's" where
  "beside a = (\<lambda>s. (fst (a ()), s))"

definition net_beside :: "unit net_ext \<Rightarrow> 's net_ext" where
  "net_beside n =
    \<lparr>Http_Do = (\<lambda>a b t d. beside (Http_Do n a b t d)), Http_StatusText = Http_StatusText n, Json_Parse = Json_Parse n,
     Json_Print = Json_Print n, ctx_Err = (\<lambda>s. ctx_Err n ()), arrival = (\<lambda>k as s. arrival n k as ()),
     Parse_Fixed64 = Parse_Fixed64 n, Tx_Marshal = Tx_Marshal n\<rparr>"

definition vault_beside :: "unit vault_ext \<Rightarrow> 's vault_ext" where
  "vault_beside v =
    \<lparr>copy_wallet_config = copy_wallet_config v, NewAccountWithSeed = NewAccountWithSeed v,
     vault_NewAccount = beside (vault_NewAccount v), ProgramHash_ToAddress = ProgramHash_ToAddress v,
     GetSeedFromPrivateKey = GetSeedFromPrivateKey v, NewWalletData = (\<lambda>a b c d e f g h. beside (NewWalletData v a b c d e f g h)),
     DecryptAccount = DecryptAccount v, DecryptMasterKey = DecryptMasterKey v, WalletData_VerifyPassword = WalletData_VerifyPassword v,
     WalletData_Marshal = WalletData_Marshal v, WalletData_Unmarshal = WalletData_Unmarshal v, WalletVersion = WalletVersion v,
     MinCompatibleWalletVersion = MinCompatibleWalletVersion v, MaxCompatibleWalletVersion = MaxCompatibleWalletVersion v,
     CreateSignatureProgramContext = CreateSignatureProgramContext v, SignBySigner = SignBySigner v, NewProgram = NewProgram v\<rparr>"

definition client_beside :: "unit client_ext \<Rightarrow> 's client_ext" where
  "client_beside x =
    \<lparr>cx_net = net_beside (cx_net x), cx_vault = vault_beside (cx_vault x), cx_box = cx_box x, cx_proto = cx_proto x, cx_pb = cx_pb x,
     cx_rand = (\<lambda>n. beside (cx_rand x n)), cx_randUint32 = beside (cx_randUint32 x), cx_now = beside (cx_now x),
     cx_Sleep = (\<lambda>t. beside (cx_Sleep x t)), cx_resolver = (\<lambda>i d. beside (cx_resolver x i d)),
     copy_client_config = copy_client_config x, copy_message_config = copy_message_config x,
     ParseClientAddress = ParseClientAddress x, MakeAddressString = MakeAddressString x,
     PrivateKeyToCurve25519PrivateKey = PrivateKeyToCurve25519PrivateKey x, Sha256 = Sha256 x, crypto_Sign = crypto_Sign x,
     Ws_Dial = (\<lambda>u t d. beside (Ws_Dial x u t d)), Conn_Close = (\<lambda>c. beside (Conn_Close x c)),
     Conn_WriteMessage = (\<lambda>c b t. beside (Conn_WriteMessage x c b t)), Conn_WriteJSON = (\<lambda>c j. beside (Conn_WriteJSON x c j)),
     Conn_SetWriteDeadline = (\<lambda>c t. beside (Conn_SetWriteDeadline x c t)), Conn_Ping = (\<lambda>c. beside (Conn_Ping x c)),
     WebRTC_NewPeer = (\<lambda>ss. beside (WebRTC_NewPeer x ss)), WebRTC_Offer = (\<lambda>p a. beside (WebRTC_Offer x p a)),
     WebRTC_Sdp = (\<lambda>p t. beside (WebRTC_Sdp x p t)), WebRTC_Connected = (\<lambda>p s t. beside (WebRTC_Connected x p s t)),
     Cache_Get = (\<lambda>k. beside (Cache_Get x k)), Cache_Delete = (\<lambda>k. beside (Cache_Delete x k)), Cache_Add = (\<lambda>k v. beside (Cache_Add x k v)),
     PersistFinished = PersistFinished x, dec_ErrCode = dec_ErrCode x, ErrCode_SUCCESS = ErrCode_SUCCESS x,
     ErrCode_WRONG_NODE = ErrCode_WRONG_NODE x, ErrCode_Message = ErrCode_Message x\<rparr>"

definition cache_mx :: "bytes list multi_ext" where
  "cache_mx =
    \<lparr>mx_cx = client_beside demo_cx, mx_client = (\<lambda>i. client_beside demo_cx),
     MsgCache_Get = (\<lambda>k w. (k \<in> set w, w)), MsgCache_Set = (\<lambda>k w. ((), k # w)),
     copy_dial_config = (\<lambda>base c. Ok c), NewSession = (\<lambda>l r ids c. ret 7), Session_ReceiveWith = (\<lambda>n l r d. ret ()),
     Session_Dial = (\<lambda>n t. ret ()), Session_Accept = (\<lambda>n. ret ()), Session_Close = (\<lambda>n. ret ()),
     regexp_Compile = (\<lambda>s. Ok ()), regexp_MatchString = (\<lambda>re s. re = ''.*'' \<or> re = s)\<rparr>"

lemma cache_mx_laws: "msg_cache_laws cache_mx set"
  by (simp add: msg_cache_laws_def cache_mx_def client_beside_def beside_def)

lemma demo_multi_receiving: "receiving (demo_multi p)"
  by (simp add: receiving_def multi_open_def demo_multi_def OnConnect_defs OnMessage_defs OnMessageEvent_defs new_on_event_def make_chan_def)

text \<open>The same text from two sub-clients of bob, and another message.\<close>

definition demo_arrivals :: "(int \<times> message) list" where
  "demo_arrivals =
    (let text = (\<lambda>src mid data. \<lparr>m_Src = src, m_Data = data, m_Type = TextType, m_Encrypted = True, m_MessageID = mid, m_NoReply = False,
                   m_reply = NilReply\<rparr>)
     in [(0, text ''__0__.bob'' ''a'' ''hi''), (1, text ''__1__.bob'' ''a'' ''hi''), (- 1, text ''bob'' ''b'' ''ho'')])"

lemma demo_NewMultiClient:
  "\<exists>m. NewMultiClient demo_conn_mx [1] demo_account ''alice'' 3 True (Some GetDefaultClientConfig) () = Some (Ok m, ())"
proof -
  have mc: "MergeClientConfig (\<lambda>base c. Ok c) (Some GetDefaultClientConfig) = Ok GetDefaultClientConfig"
    using demo_defaults by (simp add: MergeClientConfig_def)
  then have "make_multi demo_conn_mx demo_account ''alice'' 3 True (Some GetDefaultClientConfig) =
      Ok (new_multi demo_conn_mx demo_account ''alice'' 3 True GetDefaultClientConfig [])" (is "_ = Ok ?m")
    using demo_defaults by (simp add: make_multi_def demo_conn_mx_def demo_mx_def demo_cx_def)
  moreover from demo_NewClient_any [of "Some GetDefaultClientConfig" "addIdentifier ''alice'' 1"] mc obtain c where
    "NewClient demo_conn_cx demo_account (addIdentifier ''alice'' 1) (Some GetDefaultClientConfig) () = Some (Ok (demo_connected c), ())"
    by (auto simp: demo_conn_cx_def demo_cx_def)
  ultimately show ?thesis
    by (simp add: NewMultiClient_def create_client_def demo_conn_mx_def new_multi_def Let_def)
qed

lemma demo_new_multi_client: "\<exists>m. new_multi_client demo_conn_mx demo_account ''alice'' (m, ())"
proof -
  from demo_NewMultiClient obtain m where
    m: "NewMultiClient demo_conn_mx [1] demo_account ''alice'' 3 True (Some GetDefaultClientConfig) () = Some (Ok m, ())" by blast
  show ?thesis unfolding new_multi_client_def fst_conv snd_conv
    by (rule exI [of _ m], rule exI [of _ "[1]"], rule exI [of _ 3], rule exI [of _ True], rule exI [of _ "Some GetDefaultClientConfig"],
        rule exI [of _ "()"]) (simp add: m)
qed

text \<open>
  Rounds of the loops that do not interleave deliver what the reference gives: the first message of every id that was not
  known before, in the order of arrival, as far as there is room in the queue. How the loops do when they interleave is in
  \<open>Nkn_MultiClient_Race\<close>.
\<close>

lemma rounds_deliver_first:
  assumes "msg_cache_laws x keys" and "receiving m" and "\<forall>(i, msg) \<in> set arrivals. m_Type msg \<noteq> SessionType"
    and "\<not> oe_Callback (mu_OnMessage m)" and "ch_buf (oe_C (mu_OnMessage m)) = []"
  shows "\<exists>m' w'. receive_rounds x arrivals (m, w) = (Ok (), (m', w')) \<and> receiving m' \<and>
     ch_buf (oe_C (mu_OnMessage m')) = take (ch_cap (oe_C (mu_OnMessage m))) (map delivered (first_arrivals (keys w) arrivals)) \<and>
     distinct (map m_MessageID (first_arrivals (keys w) arrivals)) \<and>
     set (map m_MessageID (first_arrivals (keys w) arrivals)) = (m_MessageID \<circ> snd) ` set arrivals - keys w"
proof -
  from receive_rounds_open [OF assms(1-3), of w] obtain m' w' where
    r: "receive_rounds x arrivals (m, w) = (Ok (), (m', w'))" "receiving m'"
      "receive_all OnMessage_receive (map delivered (first_arrivals (keys w) arrivals)) (mu_OnMessage m) = (Ok (), mu_OnMessage m')" by blast
  from assms(2,4,5) on_message.receive_all_queued [of "mu_OnMessage m" "map delivered (first_arrivals (keys w) arrivals)"] r(3)
  have "ch_buf (oe_C (mu_OnMessage m')) = take (ch_cap (oe_C (mu_OnMessage m))) (map delivered (first_arrivals (keys w) arrivals))"
    by (auto simp: receiving_def multi_open_def)
  with r(1,2) first_arrivals_ids show ?thesis by blast
qed

lemma demo_rounds:
  "\<exists>m' w'. receive_rounds cache_mx demo_arrivals (demo_multi 0, []) = (Ok (), (m', w')) \<and>
     map (\<lambda>msg. (m_Src msg, m_Data msg)) (ch_buf (oe_C (mu_OnMessage m'))) = [(''bob'', ''hi''), (''bob'', ''ho'')]"
proof -
  have "\<forall>(i, msg) \<in> set demo_arrivals. m_Type msg \<noteq> SessionType" by (simp add: demo_arrivals_def Let_def payload_type_defs)
  from rounds_deliver_first [OF cache_mx_laws demo_multi_receiving this, of 0 "[]"] obtain m' w' where
    r: "receive_rounds cache_mx demo_arrivals (demo_multi 0, []) = (Ok (), (m', w'))"
      "ch_buf (oe_C (mu_OnMessage m')) = take 16 (map delivered (first_arrivals {} demo_arrivals))"
    by (auto simp: demo_multi_def OnMessage_defs new_on_event_def make_chan_def)
  have "fst (removeIdentifier ''__0__.bob'') = ''bob''" "fst (removeIdentifier ''bob'') = ''bob''" by code_simp+
  with r show ?thesis by (simp add: demo_arrivals_def Let_def delivered_def strip_source_def with_reply_def)
qed

section \<open>Properties\<close>

text \<open>
  C16: Sessions are opened for allowed addresses only: whatever messages arrive, the sessions a multiclient had
  stay as they were, each new one belongs to an encrypted session message from an address that one of the
  patterns given to \<^verbatim>\<open>Listen\<close> allows, and only such sessions are added to those that wait to be accepted.
\<close>

theorem sessions_from_allowed_addresses:
  "let m' = fst (snd (receive_rounds x arrivals (m, w))) in
     mu_acceptAddrs m' = mu_acceptAddrs m \<and>
     (\<exists>new. mu_sessions m' = mu_sessions m @ new \<and> list_all (\<lambda>(key, s). admitted x m arrivals key) new \<and>
        set (ch_buf (mu_acceptSession m')) \<subseteq> set (ch_buf (mu_acceptSession m)) \<union> snd ` set new)"
  using receive_rounds_sessions [of x arrivals m w] by (simp add: Let_def list_all_iff)

text \<open>
  C9: A multiclient is closed at most once and completely: in every state that a multiclient returned by
  \<^verbatim>\<open>NewMultiClient\<close> reaches, \<^verbatim>\<open>Close\<close> does not panic as long as closing a session does not. On a closed
  multiclient it changes nothing; on an open one it leaves every channel closed, and when the linger time
  is over every sub-client it has is closed too.
\<close>

theorem multi_close_safe:
  assumes "new_multi_client x account ident s" and "(multi_step x account ident)\<^sup>*\<^sup>* s (m, w)"
    and "\<And>k u. \<not> is_panic (fst (Session_Close x k u))" and "\<And>i k u. \<not> is_panic (fst (Conn_Close (mx_client x i) k u))"
  shows "if mu_isClosed m then MultiClient_Close x (m, w) = (Ok (), (m, w))
    else (\<exists>m1 w1. MultiClient_Close x (m, w) = (Ok (), (m1, w1)) \<and> multi_shut m1 \<and>
      (\<exists>m2 w2. linger_done x (m1, w1) = (Ok (), (m2, w2)) \<and> map fst (mu_clients m2) = map fst (mu_clients m) \<and>
         list_all (\<lambda>(i, c). cl_isClosed c) (mu_clients m2)))"
proof -
  have inv: "multi_inv True x m" using running_multi.reachable_inv [OF assms(1,2)] by simp
  show ?thesis
  proof (cases "mu_isClosed m")
    case False
    with inv have op: "multi_open m" by (simp add: multi_inv_def)
    obtain w1 where "close_sessions x (map snd (mu_sessions m)) (m, w) = (Ok (), (m, w1))"
      using close_sessions_frame [of x "map snd (mu_sessions m)" m w] assms(3) by blast
    with MultiClient_Close_open [OF False op, of x w] have "MultiClient_Close x (m, w) = (Ok (), (shut m, w1))" by simp
    moreover from linger_done_all [OF shut_inv [OF inv] assms(4), of w1] obtain m2 w2 where
      "linger_done x (shut m, w1) = (Ok (), (m2, w2))" "map fst (mu_clients m2) = map fst (mu_clients m)"
      "list_all (\<lambda>(i, c). cl_isClosed c) (mu_clients m2)" by (auto simp: shut_def list_all_iff)
    ultimately show ?thesis using False shut_shut by auto
  qed (simp add: MultiClient_Close_closed)
qed

theorem multi_close_safe_witness:
  "\<exists>m. new_multi_client demo_conn_mx demo_account ''alice'' (m, ()) \<and>
     fst (MultiClient_Close demo_conn_mx (m, ())) = Ok () \<and> mu_isClosed (fst (snd (MultiClient_Close demo_conn_mx (m, ()))))"
proof -
  from demo_new_multi_client obtain m where m: "new_multi_client demo_conn_mx demo_account ''alice'' (m, ())" by blast
  have "Session_Close demo_conn_mx k u = (Ok (), u)" for k u by (simp add: demo_conn_mx_def demo_mx_def)
  moreover have "Conn_Close (mx_client demo_conn_mx i) k u = (Ok (), u)" for i k u by (simp add: demo_conn_mx_def demo_conn_cx_def demo_cx_def)
  ultimately show ?thesis using multi_close_safe [OF m rtranclp.rtrancl_refl] m
    by (cases "mu_isClosed m") (auto simp: multi_shut_def intro!: exI [of _ m])
qed

text \<open>
  The default client is there and is the one with the smallest id: in every state that a multiclient returned
  by \<^verbatim>\<open>NewMultiClient\<close> reaches, so that the account, the keys, the wallet address and the signing of
  transactions, which go through it, do not meet a nil client; the ids of its clients are among those it
  was created for.
\<close>

theorem default_client_is_smallest:
  assumes "new_multi_client x account ident s" and "(multi_step x account ident)\<^sup>*\<^sup>* s (m, w)"
  shows "\<exists>i c. mu_defaultClient m = Some i \<and> GetDefaultClient m = Some c \<and> MultiClient_PubKey m = Ok (Client_PubKey c) \<and>
     i = Min (set (map fst (mu_clients m))) \<and> set (map fst (mu_clients m)) \<subseteq> set (expected_ids m)"
proof -
  have inv: "multi_inv True x m" using running_multi.reachable_inv [OF assms] by simp
  then have "mu_clients m \<noteq> []" "default_smallest m" "set (map fst (mu_clients m)) \<subseteq> set (expected_ids m)"
    by (simp_all add: multi_inv_def ids_expected_def)
  then have d: "mu_defaultClient m = Some (mu_defaultClientIdx m)" "mu_defaultClientIdx m \<in> set (map fst (mu_clients m))"
    "\<forall>i \<in> set (map fst (mu_clients m)). mu_defaultClientIdx m \<le> i" "set (map fst (mu_clients m)) \<subseteq> set (expected_ids m)"
    by (simp_all only: default_smallest_def if_False) auto
  from d(2) obtain c where "map_of (mu_clients m) (mu_defaultClientIdx m) = Some c" by (metis list.set_map map_of_eq_None_iff not_None_eq)
  moreover have "mu_defaultClientIdx m = Min (set (map fst (mu_clients m)))" using d(2,3) by (intro Min_eqI [symmetric]) auto
  ultimately show ?thesis using d by (simp add: GetDefaultClient_def MultiClient_PubKey_def default_client_def)
qed

theorem default_client_is_smallest_witness:
  "\<exists>m c. new_multi_client demo_conn_mx demo_account ''alice'' (m, ()) \<and> GetDefaultClient m = Some c \<and> MultiClient_PubKey m = Ok (Client_PubKey c)"
proof -
  from demo_new_multi_client obtain m where m: "new_multi_client demo_conn_mx demo_account ''alice'' (m, ())" by blast
  from default_client_is_smallest [OF m rtranclp.rtrancl_refl] m show ?thesis by blast
qed

text \<open>
  C35: A message that arrives after \<^verbatim>\<open>Close\<close>, while the sub-clients linger, can bring the program down: \<^verbatim>\<open>Close\<close>
  closes the channel of message events, and the loop of a sub-client that takes a message instead of the
  closing signal sends its event on that closed channel, which panics, before it looks whether the
  multiclient is closed.
\<close>

theorem receive_after_close_panics:
  assumes "receiving m" and "mu_OnMessageEvent m = Some oe" and "\<not> oe_Callback oe" and "m_Type msg \<noteq> SessionType"
    and "MultiClient_Close x (m, w) = (Ok (), s)"
  shows "fst (receive_round x i msg s) = Panic SendOnClosedChannel"
proof -
  from assms(1) have "\<not> mu_isClosed m" "multi_open m" by (simp_all add: receiving_def)
  from MultiClient_Close_open [OF this, of x w] assms(5) obtain w' where s: "s = (shut m, w')" by (auto split: prod.splits)
  have e: "mu_OnMessageEvent (shut m) = Some (shut_event oe)" using assms(2) by (simp add: shut_def)
  have "OnMessageEvent_receive v (shut_event oe) = (Panic SendOnClosedChannel, shut_event oe)" for v
    using assms(3) by (intro on_message_event.receive_closed) (simp_all add: shut_event_def)
  with e have "fst (multi_emit x ev (shut m, w')) = Panic SendOnClosedChannel" for ev by (simp add: multi_emit_def)
  with assms(4) s show ?thesis by (simp add: receive_round_def receive_defs Let_def fst_bnd_Panic)
qed

theorem receive_after_close_panics_witness:
  "\<exists>s. MultiClient_Close demo_mx (demo_multi 0, ()) = (Ok (), s) \<and>
     fst (receive_round demo_mx 0 (snd (demo_arrivals ! 0)) s) = Panic SendOnClosedChannel"
proof -
  have c: "MultiClient_Close demo_mx (demo_multi 0, ()) = (Ok (), (shut (demo_multi 0), ()))"
    using MultiClient_Close_open [of "demo_multi 0" demo_mx "()"] demo_multi_receiving [of 0]
    by (simp add: receiving_def demo_multi_def)
  have t: "m_Type (snd (demo_arrivals ! 0)) \<noteq> SessionType" by (simp add: demo_arrivals_def payload_type_defs)
  from receive_after_close_panics [OF demo_multi_receiving _ _ t c, of "NewOnMessageEvent 100 False"] c show ?thesis
    by (auto simp: demo_multi_def OnMessageEvent_defs new_on_event_def)
qed


text \<open>
  C23: The list of sub-connection states is complete and well formed: in every state that a multiclient returned by
  \<^verbatim>\<open>NewMultiClient\<close> reaches, \<^verbatim>\<open>GetAllSubConnStates\<close> has exactly one entry for each id that was to be created, in whatever
  order the map of these ids is visited; each has the multiclient's address and one of the three connection states, an error exactly if there
  is no client of that id, and a node only if the client is connected.
\<close>

theorem sub_conn_states_type:
  assumes "new_multi_client x account ident s" and "(multi_step x account ident)\<^sup>*\<^sup>* s (m, w)" and "any_order visit"
  shows "mset (map se_Index (GetAllSubConnStates visit m)) = mset (expected_ids m) \<and> distinct (map se_Index (GetAllSubConnStates visit m)) \<and>
    (\<forall>e \<in> set (GetAllSubConnStates visit m). se_BaseAddress e = MultiClient_Address m \<and>
       se_State e \<in> {ConnConnecting, ConnConnected, ConnDisconnected} \<and>
       (se_Err e = None \<longleftrightarrow> se_Index e \<in> set (map fst (mu_clients m))) \<and>
       (se_Err e \<noteq> None \<longrightarrow> se_State e = ConnConnecting) \<and>
       (se_NodeAddr e \<noteq> [] \<or> se_NodeID e \<noteq> [] \<longrightarrow> se_State e = ConnConnected))"
proof -
  have inv: "clients_ok x m" using running_multi.reachable_inv [OF assms(1,2)] by (simp add: multi_inv_def)
  have st: "cl_State c \<in> {ConnConnecting, ConnConnected, ConnDisconnected}" if "map_of (mu_clients m) i = Some c" for i c
    using inv map_of_SomeD [OF that] by (auto simp: clients_ok_def client_inv_def)
  have index: "se_Index (sub_conn_state m i) = i" for i by (simp add: sub_conn_state_def Let_def split: option.splits)
  have entry: "se_BaseAddress e = MultiClient_Address m \<and> se_State e \<in> {ConnConnecting, ConnConnected, ConnDisconnected} \<and>
      (se_Err e = None \<longleftrightarrow> i \<in> set (map fst (mu_clients m))) \<and> (se_Err e \<noteq> None \<longrightarrow> se_State e = ConnConnecting) \<and>
      (se_NodeAddr e \<noteq> [] \<or> se_NodeID e \<noteq> [] \<longrightarrow> se_State e = ConnConnected)" if "e = sub_conn_state m i" for e i
  proof (cases "map_of (mu_clients m) i")
    case None
    then have "i \<notin> set (map fst (mu_clients m))" by (simp add: map_of_eq_None_iff)
    with None show ?thesis unfolding that by (simp add: sub_conn_state_def MultiClient_Address_def ConnConnecting_def Let_def)
  next
    case (Some c)
    then have "i \<in> set (map fst (mu_clients m))" by (force dest: map_of_SomeD)
    with st [OF Some] Some show ?thesis unfolding that
      by (auto simp: sub_conn_state_def MultiClient_Address_def Let_def split: if_splits)
  qed
  have ids: "map se_Index (GetAllSubConnStates visit m) = expectedIndices visit m"
    by (simp add: GetAllSubConnStates_def o_def index map_idI)
  have "distinct (expectedIndices visit m)"
    using mset_expectedIndices [OF assms(3), of m] by (metis distinct_upto expected_ids_def mset_eq_imp_distinct_iff)
  moreover have "\<forall>e \<in> set (GetAllSubConnStates visit m). \<exists>i. e = sub_conn_state m i \<and> se_Index e = i"
    using index by (auto simp: GetAllSubConnStates_def)
  ultimately show ?thesis using entry mset_expectedIndices [OF assms(3), of m] unfolding ids by fastforce
qed

theorem sub_conn_states_type_witness:
  "\<exists>m. new_multi_client demo_conn_mx demo_account ''alice'' (m, ()) \<and> mset (map se_Index (GetAllSubConnStates rev m)) = mset (expected_ids m) \<and>
     list_all (\<lambda>e. se_State e \<in> {ConnConnecting, ConnConnected, ConnDisconnected}) (GetAllSubConnStates rev m)"
proof -
  from demo_new_multi_client obtain m where m: "new_multi_client demo_conn_mx demo_account ''alice'' (m, ())" by blast
  have "any_order (rev :: int list \<Rightarrow> int list)" by (simp add: any_order_def)
  from sub_conn_states_type [OF m rtranclp.rtrancl_refl this] m show ?thesis unfolding list_all_iff by blast
qed

text \<open>
  C34: A multiclient with an original client attributes segments to the wrong sub-client: the segment of an open session
  that sub-client \<open>i\<close> receives is handed to the session with the local id of sub-client \<open>i - 1\<close>, which is another
  of the ids that the session was created with as long as that sub-client is there.
\<close>

theorem session_segment_misattributed:
  assumes "mu_offset m = 1" and "0 \<le> i" and "m_Type msg = SessionType" and "m_Encrypted msg" and "removeIdentifier (m_Src msg) = (remote, rid)"
    and "map_of (mu_sessions m) (sessionKey remote (m_MessageID msg)) = Some n"
    and "Session_ReceiveWith x n (addIdentifier [] (i - 1)) rid (m_Data msg) w = (r, w')"
  shows "snd (receive_round x i msg (m, w)) = (m, w') \<and> (\<not> is_panic r \<longrightarrow> fst (receive_round x i msg (m, w)) = Ok True) \<and>
    addIdentifier [] (i - 1) \<noteq> addIdentifier [] i \<and>
    (\<forall>c. (i - 1, c) \<in> set (mu_clients m) \<longrightarrow> (addIdentifier [] (i - 1), i - 1) \<in> set (session_clients m))"
proof -
  have "handleSessionMsg x (addIdentifier [] (i - 1)) (m_Src msg) (m_MessageID msg) (m_Data msg) (m, w) = (r, (m, w'))"
    using assms(5-7) by (cases r) (simp_all add: handleSessionMsg_def Let_def bnd_def)
  with assms(1,3,4) have "snd (receive_round x i msg (m, w)) = (m, w') \<and> (\<not> is_panic r \<longrightarrow> fst (receive_round x i msg (m, w)) = Ok True)"
    by (cases r) (simp_all add: receive_round_def attempt_def)
  moreover have "addIdentifier [] (i - 1) \<noteq> addIdentifier [] i"
  proof (cases "i = 0")
    case False
    with assms(2) show ?thesis using Itoa_inj_nonneg [of "i - 1" i] by (simp add: addIdentifier_empty sub_id_def)
  qed (simp add: addIdentifier_empty sub_id_def)
  ultimately show ?thesis by (force simp: session_clients_def GetClients_def)
qed

text \<open>Session 7 with bob, and a segment of it.\<close>

definition demo_segment :: message where
  "demo_segment = \<lparr>m_Src = ''__0__.bob'', m_Data = ''x'', m_Type = SessionType, m_Encrypted = True, m_MessageID = ''s'', m_NoReply = False,
     m_reply = NilReply\<rparr>"

theorem session_segment_misattributed_witness:
  "receive_round demo_mx 1 demo_segment ((demo_multi 0)\<lparr>mu_sessions := [(sessionKey ''bob'' ''s'', 7)]\<rparr>, ()) =
     (Ok True, ((demo_multi 0)\<lparr>mu_sessions := [(sessionKey ''bob'' ''s'', 7)]\<rparr>, ())) \<and> addIdentifier [] 0 \<noteq> addIdentifier [] 1"
proof -
  let ?m = "(demo_multi 0)\<lparr>mu_sessions := [(sessionKey ''bob'' ''s'', 7)]\<rparr>"
  have rm: "removeIdentifier (m_Src demo_segment) = (''bob'', ''__0__'')" by code_simp
  have "mu_offset ?m = 1" by (simp add: demo_multi_def)
  from session_segment_misattributed [OF this, of 1 demo_segment, OF _ _ _ rm, of 7 demo_mx "()" "Ok ()" "()"] show ?thesis
    by (simp add: demo_segment_def demo_mx_def prod_eq_iff)
qed

end
