(* ===== verification/Nkn_MultiClient_Race.thy ===== *)
theory Nkn_MultiClient_Race
  imports Nkn_MultiClient_Inv
begin

text \<open>
  The receiving loops of a multiclient (\<^verbatim>\<open>src/multiclient.go\<close>) at the grain at which they really interleave. The
  loops of the sub-clients share the cache of message ids and the queue of messages, and looking an id up in
  the cache and entering it are two operations. \<open>recv_step\<close> runs the loops with their atomic actions in any order. It refines an abstract protocol, \<open>arrival_step\<close>, on the set of known ids, from
  which follows what the cache achieves: no sub-client delivers an id twice and no id is lost, but two
  sub-clients may both deliver it.
\<close>

section \<open>The receiving loops\<close>

text \<open>Where the loop of a sub-client is: which of the atomic actions on which message it did last.\<close>

datatype stage = Waiting | Notified message | Looked message | Marked message | Ended | Crashed panic

text \<open>What was taken from the sub-clients and what was handed to the queue is logged, with the sub-client's id.\<close>

record 'w race =
  ra_stage :: "int \<Rightarrow> stage"
  ra_multi :: multi_client
  ra_env :: 'w
  ra_taken :: "(int \<times> message) list"
  ra_given :: "(int \<times> message) list"

fun after_notify :: "message \<Rightarrow> unit result \<Rightarrow> stage" where
  "after_notify msg (Panic p) = Crashed p"
| "after_notify msg _ = Notified msg"

fun after_hand_over :: "bool result \<Rightarrow> stage" where
  "after_hand_over (Ok True) = Waiting"
| "after_hand_over (Panic p) = Crashed p"
| "after_hand_over _ = Ended"

definition at_stage :: "int \<Rightarrow> stage \<Rightarrow> multi_client \<times> 'w \<Rightarrow> 'w race \<Rightarrow> 'w race" where
  "at_stage i st t s = s\<lparr>ra_stage := (ra_stage s)(i := st), ra_multi := fst t, ra_env := snd t\<rparr>"

lemma at_stage_fields [simp]:
  "ra_stage (at_stage i st t s) = (ra_stage s)(i := st)" "ra_multi (at_stage i st t s) = fst t" "ra_env (at_stage i st t s) = snd t"
  "ra_taken (at_stage i st t s) = ra_taken s" "ra_given (at_stage i st t s) = ra_given s"
  by (simp_all add: at_stage_def)

text \<open>
  The actions of the loops, and changes of the environment by others, who leave the ids in the cache as they
  are (\<open>keys\<close>). A message that has been taken is logged without the sub-client's identifier in its source.
\<close>

inductive recv_step :: "'w multi_ext \<Rightarrow> ('w \<Rightarrow> bytes set) \<Rightarrow> 'w race \<Rightarrow> 'w race \<Rightarrow> bool" for x keys where
  notify: "ra_stage s i = Waiting \<Longrightarrow> m_Type raw \<noteq> SessionType \<Longrightarrow> msg = strip_source raw \<Longrightarrow>
     notify_received x i msg (ra_multi s, ra_env s) = (r, t) \<Longrightarrow>
     recv_step x keys s ((at_stage i (after_notify msg r) t s)\<lparr>ra_taken := ra_taken s @ [(i, msg)]\<rparr>)"
| look: "ra_stage s i = Notified msg \<Longrightarrow> seen_before x msg (ra_multi s, ra_env s) = (Ok seen, t) \<Longrightarrow>
     recv_step x keys s (at_stage i (if seen then Waiting else Looked msg) t s)"
| mark: "ra_stage s i = Looked msg \<Longrightarrow> mark_seen x msg (ra_multi s, ra_env s) = (Ok u, t) \<Longrightarrow>
     recv_step x keys s (at_stage i (Marked msg) t s)"
| deliver: "ra_stage s i = Marked msg \<Longrightarrow> hand_over msg (ra_multi s, ra_env s) = (b, t) \<Longrightarrow>
     recv_step x keys s ((at_stage i (after_hand_over b) t s)\<lparr>ra_given := ra_given s @ [(i, msg)]\<rparr>)"
| other: "keys w = keys (ra_env s) \<Longrightarrow> recv_step x keys s (s\<lparr>ra_env := w\<rparr>)"

section \<open>The abstract protocol\<close>

record arrivals =
  ar_known :: "bytes set"
  ar_stage :: "int \<Rightarrow> stage"
  ar_taken :: "(int \<times> message) list"
  ar_given :: "(int \<times> message) list"

inductive arrival_step :: "arrivals \<Rightarrow> arrivals \<Rightarrow> bool" where
  take: "ar_stage a i = Waiting \<Longrightarrow>
     arrival_step a (a\<lparr>ar_stage := (ar_stage a)(i := Notified msg), ar_taken := ar_taken a @ [(i, msg)]\<rparr>)"
| known: "ar_stage a i = Notified msg \<Longrightarrow> m_MessageID msg \<in> ar_known a \<Longrightarrow>
     arrival_step a (a\<lparr>ar_stage := (ar_stage a)(i := Waiting)\<rparr>)"
| new: "ar_stage a i = Notified msg \<Longrightarrow> m_MessageID msg \<notin> ar_known a \<Longrightarrow>
     arrival_step a (a\<lparr>ar_stage := (ar_stage a)(i := Looked msg)\<rparr>)"
| enter: "ar_stage a i = Looked msg \<Longrightarrow>
     arrival_step a (a\<lparr>ar_known := insert (m_MessageID msg) (ar_known a), ar_stage := (ar_stage a)(i := Marked msg)\<rparr>)"
| give: "ar_stage a i = Marked msg \<Longrightarrow>
     arrival_step a (a\<lparr>ar_stage := (ar_stage a)(i := Waiting), ar_given := ar_given a @ [(i, msg)]\<rparr>)"
| stay: "arrival_step a a"

definition key_of :: "int \<times> message \<Rightarrow> int \<times> bytes" where "key_of g = (fst g, m_MessageID (snd g))"

definition passing :: "arrivals \<Rightarrow> int \<Rightarrow> message \<Rightarrow> bool" where
  "passing a i msg \<longleftrightarrow> ar_stage a i = Looked msg \<or> ar_stage a i = Marked msg"

text \<open>The invariant, with \<open>K\<close> the ids known at the start: what is given, by whom, and what is not lost.\<close>

definition given_inv :: "bytes set \<Rightarrow> arrivals \<Rightarrow> bool" where
  "given_inv K a \<longleftrightarrow> K \<subseteq> ar_known a \<and>
     (\<forall>g \<in> set (ar_given a). m_MessageID (snd g) \<in> ar_known a - K \<and> g \<in> set (ar_taken a)) \<and>
     (\<forall>i msg. ar_stage a i = Marked msg \<longrightarrow> m_MessageID msg \<in> ar_known a) \<and>
     distinct (map key_of (ar_given a)) \<and>
     (\<forall>i msg. passing a i msg \<longrightarrow> key_of (i, msg) \<notin> set (map key_of (ar_given a)) \<and> m_MessageID msg \<notin> K)"

text \<open>Every new id has been given or is about to be; every message taken has its id known or is on its way.\<close>

definition known_inv :: "bytes set \<Rightarrow> arrivals \<Rightarrow> bool" where
  "known_inv K a \<longleftrightarrow> (\<forall>k \<in> ar_known a - K.
     k \<in> (m_MessageID \<circ> snd) ` set (ar_given a) \<or> (\<exists>i msg. ar_stage a i = Marked msg \<and> m_MessageID msg = k))"

definition taken_inv :: "arrivals \<Rightarrow> bool" where
  "taken_inv a \<longleftrightarrow> (\<forall>i msg. (i, msg) \<in> set (ar_taken a) \<longrightarrow>
     m_MessageID msg \<in> ar_known a \<or> ar_stage a i = Notified msg \<or> ar_stage a i = Looked msg)"

definition held_inv :: "arrivals \<Rightarrow> bool" where
  "held_inv a \<longleftrightarrow> (\<forall>i msg. ar_stage a i = Notified msg \<or> passing a i msg \<longrightarrow> (i, msg) \<in> set (ar_taken a))"

definition alive_inv :: "arrivals \<Rightarrow> bool" where
  "alive_inv a \<longleftrightarrow> (\<forall>i. ar_stage a i \<noteq> Ended \<and> (\<nexists>p. ar_stage a i = Crashed p))"

definition arrival_inv :: "bytes set \<Rightarrow> arrivals \<Rightarrow> bool" where
  "arrival_inv K a \<longleftrightarrow> given_inv K a \<and> known_inv K a \<and> taken_inv a \<and> held_inv a \<and> alive_inv a"

lemma given_inv_step: "arrival_step a b \<Longrightarrow> given_inv K a \<Longrightarrow> held_inv a \<Longrightarrow> given_inv K b"
proof (induction rule: arrival_step.induct)
  case (give a i msg)
  then show ?case by (auto simp: given_inv_def held_inv_def passing_def key_of_def)
qed (auto simp: given_inv_def passing_def key_of_def split: if_splits)

lemma marked_stays: "arrival_step a b \<Longrightarrow> ar_stage a j = Marked m \<Longrightarrow> ar_stage b j = Marked m \<or> (j, m) \<in> set (ar_given b)"
  and given_stays: "arrival_step a b \<Longrightarrow> set (ar_given a) \<subseteq> set (ar_given b)"
  and known_grows: "arrival_step a b \<Longrightarrow> k \<in> ar_known b \<Longrightarrow> k \<in> ar_known a \<or> (\<exists>j m. ar_stage b j = Marked m \<and> m_MessageID m = k)"
  by (induction rule: arrival_step.induct; auto)+

lemma known_inv_step:
  assumes "arrival_step a b" and "known_inv K a"
  shows "known_inv K b"
  unfolding known_inv_def
proof
  fix k assume k: "k \<in> ar_known b - K"
  then consider (old) "k \<in> ar_known a" | (new) "\<exists>j m. ar_stage b j = Marked m \<and> m_MessageID m = k"
    using known_grows [OF assms(1)] by blast
  then show "k \<in> (m_MessageID \<circ> snd) ` set (ar_given b) \<or> (\<exists>j m. ar_stage b j = Marked m \<and> m_MessageID m = k)"
  proof cases
    case old
    with k assms(2) consider "k \<in> (m_MessageID \<circ> snd) ` set (ar_given a)" | j m where "ar_stage a j = Marked m" "m_MessageID m = k"
      unfolding known_inv_def by blast
    then show ?thesis
    proof cases
      case 1
      with given_stays [OF assms(1)] show ?thesis by blast
    next
      case 2
      with marked_stays [OF assms(1) 2(1)] show ?thesis by force
    qed
  qed blast
qed

lemma taken_inv_step:
  assumes "arrival_step a b" and "taken_inv a"
  shows "taken_inv b"
  unfolding taken_inv_def
proof (intro allI impI)
  fix j m assume "(j, m) \<in> set (ar_taken b)"
  moreover have "(j, m) \<in> set (ar_taken a) \<longrightarrow> m_MessageID m \<in> ar_known a \<or> ar_stage a j = Notified m \<or> ar_stage a j = Looked m"
    using assms(2) by (simp add: taken_inv_def)
  ultimately show "m_MessageID m \<in> ar_known b \<or> ar_stage b j = Notified m \<or> ar_stage b j = Looked m"
    by (cases rule: arrival_step.cases [OF assms(1)]) auto
qed

lemma held_inv_step: "arrival_step a b \<Longrightarrow> held_inv a \<Longrightarrow> held_inv b"
  unfolding held_inv_def passing_def by (induction rule: arrival_step.induct) auto

lemma alive_inv_step: "arrival_step a b \<Longrightarrow> alive_inv a \<Longrightarrow> alive_inv b"
  unfolding alive_inv_def by (induction rule: arrival_step.induct) auto

text \<open>
  What keeps an id from being given twice: no two loops are between the look-up and the entry of the same id at a time.
\<close>

definition ids_apart :: "(int \<Rightarrow> stage) \<Rightarrow> bool" where
  "ids_apart st \<longleftrightarrow> (\<forall>i j a b. st i = Looked a \<and> st j = Looked b \<and> m_MessageID a = m_MessageID b \<longrightarrow> i = j)"

definition once_inv :: "arrivals \<Rightarrow> bool" where
  "once_inv a \<longleftrightarrow> distinct (map (m_MessageID \<circ> snd) (ar_given a)) \<and>
     (\<forall>i msg. ar_stage a i = Looked msg \<longrightarrow> m_MessageID msg \<notin> ar_known a) \<and>
     (\<forall>i msg. ar_stage a i = Marked msg \<longrightarrow> m_MessageID msg \<notin> (m_MessageID \<circ> snd) ` set (ar_given a)) \<and>
     (\<forall>i j a1 b1. ar_stage a i = Marked a1 \<and> ar_stage a j = Marked b1 \<and> m_MessageID a1 = m_MessageID b1 \<longrightarrow> i = j)"

lemma once_inv_step:
  assumes "arrival_step a b" and "given_inv K a" and "ids_apart (ar_stage a)" and "once_inv a"
  shows "once_inv b"
  using assms(1)
proof cases
  case (take i msg)
  with assms(4) show ?thesis unfolding once_inv_def by simp
next
  case (known i msg)
  with assms(4) show ?thesis unfolding once_inv_def by simp
next
  case (new i msg)
  with assms(4) show ?thesis unfolding once_inv_def by simp
next
  case (enter i msg)
  from enter(2) assms(4) have n: "m_MessageID msg \<notin> ar_known a" by (simp add: once_inv_def)
  have g: "m_MessageID msg \<notin> (m_MessageID \<circ> snd) ` set (ar_given a)" using n assms(2) by (auto simp: given_inv_def)
  have m: "m_MessageID m \<noteq> m_MessageID msg" if "ar_stage a j = Marked m" for j m
    using n assms(2) that unfolding given_inv_def by metis
  have l: "m_MessageID m \<noteq> m_MessageID msg" if "ar_stage a j = Looked m" "j \<noteq> i" for j m
    using assms(3) enter(2) that unfolding ids_apart_def by metis
  show ?thesis using assms(4) g m l unfolding once_inv_def enter(1) by (simp add: m [symmetric])
next
  case (give i msg)
  from give(2) assms(4) have u: "m_MessageID m \<noteq> m_MessageID msg" if "ar_stage a j = Marked m" "j \<noteq> i" for j m
    using that unfolding once_inv_def by metis
  show ?thesis using assms(4) give(2) u unfolding once_inv_def give(1) by simp
next
  case stay
  with assms(4) show ?thesis by simp
qed

text \<open>When no loop is on its way, nothing is missing.\<close>

lemma all_given:
  assumes "arrival_inv K a" and "\<forall>i. ar_stage a i = Waiting"
  shows "(m_MessageID \<circ> snd) ` set (ar_given a) = (m_MessageID \<circ> snd) ` set (ar_taken a) - K"
proof
  show "(m_MessageID \<circ> snd) ` set (ar_given a) \<subseteq> (m_MessageID \<circ> snd) ` set (ar_taken a) - K"
    using assms(1) by (auto simp: arrival_inv_def given_inv_def)
  show "(m_MessageID \<circ> snd) ` set (ar_taken a) - K \<subseteq> (m_MessageID \<circ> snd) ` set (ar_given a)"
  proof
    fix k assume "k \<in> (m_MessageID \<circ> snd) ` set (ar_taken a) - K"
    then obtain i msg where t: "(i, msg) \<in> set (ar_taken a)" "k = m_MessageID msg" "k \<notin> K" by force
    with assms have "k \<in> ar_known a" by (auto simp: arrival_inv_def taken_inv_def)
    with assms t(3) show "k \<in> (m_MessageID \<circ> snd) ` set (ar_given a)"
      by (simp add: arrival_inv_def known_inv_def)
  qed
qed

definition arrivals_start :: "bytes set \<Rightarrow> arrivals \<Rightarrow> bool" where
  "arrivals_start K a \<longleftrightarrow> a = \<lparr>ar_known = K, ar_stage = (\<lambda>_. Waiting), ar_taken = [], ar_given = []\<rparr>"

interpretation arrival_protocol: invariant_system "arrivals_start K" arrival_step "arrival_inv K" for K
proof unfold_locales
  show "arrival_inv K a" if "arrivals_start K a" for a
    using that by (simp add: arrivals_start_def arrival_inv_def given_inv_def known_inv_def taken_inv_def held_inv_def alive_inv_def passing_def)
  show "arrival_inv K b" if "arrival_inv K a" "arrival_step a b" for a b
    using that given_inv_step known_inv_step taken_inv_step held_inv_step alive_inv_step unfolding arrival_inv_def by blast
qed

section \<open>The loops implement the protocol\<close>

definition arrivals_of :: "('w \<Rightarrow> bytes set) \<Rightarrow> 'w race \<Rightarrow> arrivals" where
  "arrivals_of keys s = \<lparr>ar_known = keys (ra_env s), ar_stage = ra_stage s, ar_taken = ra_taken s, ar_given = ra_given s\<rparr>"

definition race_start :: "multi_client \<Rightarrow> 'w \<Rightarrow> 'w race" where
  "race_start m w = \<lparr>ra_stage = (\<lambda>_. Waiting), ra_multi = m, ra_env = w, ra_taken = [], ra_given = []\<rparr>"

text \<open>While the multiclient is open its queue holds what was given, as far as there was room.\<close>

definition race_open :: "message on_event \<Rightarrow> 'w race \<Rightarrow> bool" where
  "race_open q s \<longleftrightarrow> receiving (ra_multi s) \<and>
     receive_all OnMessage_receive (map (with_reply \<circ> snd) (ra_given s)) q = (Ok (), mu_OnMessage (ra_multi s))"

lemma receive_all_snoc: "receive_all recv (vs @ [v]) = bnd (receive_all recv vs) (\<lambda>_. recv v)"
proof (induction vs)
  case Nil
  show ?case by (auto simp: bnd_def fun_eq_iff split: prod.splits res.splits)
qed (simp add: bnd_assoc)

lemma notify_open:
  assumes "msg_cache_laws x keys" and "receiving m"
  shows "\<exists>m' w'. notify_received x i msg (m, w) = (Ok (), (m', w')) \<and> receiving m' \<and> mu_OnMessage m' = mu_OnMessage m \<and> keys w' = keys w"
proof -
  let ?ev = "\<lambda>t. (receive_event MessageEventTypeReceive (MultiClient_Address m) msg t)\<lparr>me_SubClientID := word_of_int i\<rparr>"
  from multi_emit_open [OF assms(1), of m ?ev w] assms(2) show ?thesis
    by (auto simp: notify_received_def receiving_def)
qed

lemma hand_over_open:
  assumes "receiving m"
  shows "\<exists>m'. hand_over msg (m, w) = (Ok True, (m', w)) \<and> receiving m' \<and> OnMessage_receive (with_reply msg) (mu_OnMessage m) = (Ok (), mu_OnMessage m')"
proof -
  let ?q = "OnMessage_receive (with_reply msg) (mu_OnMessage m)"
  have "fst ?q = Ok ()" using assms by (auto simp: receiving_def multi_open_def intro: on_message.receive_open_ok)
  moreover have "receiving (m\<lparr>mu_OnMessage := snd ?q\<rparr>)" using assms
    by (simp add: receiving_def multi_open_def OnMessage_receive_def on_receive_closed)
  ultimately show ?thesis using assms
    by (intro exI [of _ "m\<lparr>mu_OnMessage := snd ?q\<rparr>"]) (simp add: hand_over_def receiving_def bnd_def prod_eq_iff)
qed

lemma cache_actions:
  assumes "msg_cache_laws x keys"
  shows "\<exists>w'. seen_before x msg (m, w) = (Ok (m_MessageID msg \<in> keys w), (m, w')) \<and> keys w' = keys w"
    and "\<exists>w'. mark_seen x msg (m, w) = (Ok (), (m, w')) \<and> keys w' = insert (m_MessageID msg) (keys w)"
  using assms by (simp_all add: seen_before_def mark_seen_def msg_cache_laws_def)

lemma recv_step_refines:
  assumes "recv_step x keys s t" and "msg_cache_laws x keys" and "race_open q s"
  shows "race_open q t \<and> arrival_step (arrivals_of keys s) (arrivals_of keys t)"
  using assms(1)
proof cases
  case (notify i raw msg r u)
  with notify_open [OF assms(2), of "ra_multi s" i msg "ra_env s"] assms(3)
    arrival_step.take [of "arrivals_of keys s" i msg] show ?thesis by (auto simp: race_open_def arrivals_of_def)
next
  case (look i msg seen u)
  with cache_actions(1) [OF assms(2), of msg "ra_multi s" "ra_env s"] assms(3) arrival_step.known [of "arrivals_of keys s" i msg]
    arrival_step.new [of "arrivals_of keys s" i msg] show ?thesis by (auto simp: race_open_def arrivals_of_def)
next
  case (mark i msg v u)
  with cache_actions(2) [OF assms(2), of msg "ra_multi s" "ra_env s"] assms(3) arrival_step.enter [of "arrivals_of keys s" i msg]
  show ?thesis by (auto simp: race_open_def arrivals_of_def)
next
  case (deliver i msg b u)
  with hand_over_open [of "ra_multi s" msg "ra_env s"] assms(3) arrival_step.give [of "arrivals_of keys s" i msg]
  show ?thesis by (auto simp: race_open_def arrivals_of_def receive_all_snoc bnd_Ok)
next
  case (other w)
  with assms(3) arrival_step.stay show ?thesis by (auto simp: race_open_def arrivals_of_def)
qed

lemma recv_run_refines:
  assumes "(recv_step x keys)\<^sup>*\<^sup>* s t" and "msg_cache_laws x keys" and "race_open q s"
  shows "race_open q t \<and> arrival_step\<^sup>*\<^sup>* (arrivals_of keys s) (arrivals_of keys t)"
  using assms(1)
proof (induction rule: rtranclp_induct)
  case base
  with assms(3) show ?case by simp
next
  case (step t u)
  with recv_step_refines [OF step(2) assms(2), of q] show ?case by (auto intro: rtranclp.rtrancl_into_rtrancl)
qed

lemma race_start_open: "receiving m \<Longrightarrow> race_open (mu_OnMessage m) (race_start m w)"
  by (simp add: race_open_def race_start_def)

lemma race_reachable:
  assumes "(recv_step x keys)\<^sup>*\<^sup>* (race_start m w) s" and "msg_cache_laws x keys" and "receiving m"
  shows "race_open (mu_OnMessage m) s" and "arrival_inv (keys w) (arrivals_of keys s)"
proof -
  from recv_run_refines [OF assms(1,2) race_start_open [OF assms(3)]]
  have r: "race_open (mu_OnMessage m) s" "arrival_step\<^sup>*\<^sup>* (arrivals_of keys (race_start m w)) (arrivals_of keys s)" by blast+
  have "arrivals_start (keys w) (arrivals_of keys (race_start m w))" by (simp add: arrivals_start_def arrivals_of_def race_start_def)
  with r show "race_open (mu_OnMessage m) s" and "arrival_inv (keys w) (arrivals_of keys s)"
    using arrival_protocol.reachable_inv by blast+
qed

text \<open>Runs in which no two loops are between the look-up and the entry of the same id.\<close>

definition apart :: "'w race \<Rightarrow> bool" where "apart s = ids_apart (ra_stage s)"

definition calm_step :: "'w multi_ext \<Rightarrow> ('w \<Rightarrow> bytes set) \<Rightarrow> 'w race \<Rightarrow> 'w race \<Rightarrow> bool" where
  "calm_step x keys s t \<longleftrightarrow> apart s \<and> recv_step x keys s t"

lemma calm_run: "(calm_step x keys)\<^sup>*\<^sup>* s t \<Longrightarrow> (recv_step x keys)\<^sup>*\<^sup>* s t"
  by (induction rule: rtranclp_induct) (auto simp: calm_step_def intro: rtranclp.rtrancl_into_rtrancl)

lemma once_inv_start: "once_inv (arrivals_of keys (race_start m w))"
  by (simp add: once_inv_def arrivals_of_def race_start_def)

lemma calm_once:
  assumes "(calm_step x keys)\<^sup>*\<^sup>* (race_start m w) s" and "msg_cache_laws x keys" and "receiving m"
  shows "once_inv (arrivals_of keys s)"
  using assms(1)
proof (induction rule: rtranclp_induct)
  case (step s t)
  note r = race_reachable [OF calm_run [OF step(1)] assms(2,3)]
  from step(2) have "recv_step x keys s t" "ids_apart (ar_stage (arrivals_of keys s))"
    by (simp_all add: calm_step_def apart_def arrivals_of_def)
  with recv_step_refines [OF _ assms(2) r(1)] r(2) step.IH show ?case
    by (meson arrival_inv_def once_inv_step)
qed (rule once_inv_start)

section \<open>Runs\<close>

text \<open>In an open multiclient every loop can do its next action, with the effect that the protocol says.\<close>

lemma can_notify:
  assumes "msg_cache_laws x keys" and "race_open q s" and "ra_stage s i = Waiting" and "m_Type raw \<noteq> SessionType"
  shows "\<exists>t. recv_step x keys s t \<and> race_open q t \<and> keys (ra_env t) = keys (ra_env s) \<and>
    ra_stage t = (ra_stage s)(i := Notified (strip_source raw)) \<and> ra_given t = ra_given s"
proof -
  from notify_open [OF assms(1), of "ra_multi s" i "strip_source raw" "ra_env s"] assms(2) obtain m w where
    n: "notify_received x i (strip_source raw) (ra_multi s, ra_env s) = (Ok (), (m, w))" "keys w = keys (ra_env s)"
    by (auto simp: race_open_def)
  note st = recv_step.notify [of s, OF assms(3,4) refl n(1), of keys]
  show ?thesis by (rule exI, rule conjI, rule st) (use recv_step_refines [OF st assms(1,2)] n(2) in auto)
qed

lemma can_look:
  assumes "msg_cache_laws x keys" and "race_open q s" and "ra_stage s i = Notified msg" and "m_MessageID msg \<notin> keys (ra_env s)"
  shows "\<exists>t. recv_step x keys s t \<and> race_open q t \<and> keys (ra_env t) = keys (ra_env s) \<and>
    ra_stage t = (ra_stage s)(i := Looked msg) \<and> ra_given t = ra_given s"
proof -
  from cache_actions(1) [OF assms(1), of msg "ra_multi s" "ra_env s"] assms(4) obtain w where
    n: "seen_before x msg (ra_multi s, ra_env s) = (Ok False, (ra_multi s, w))" "keys w = keys (ra_env s)" by auto
  note st = recv_step.look [of s, OF assms(3) n(1), of keys]
  show ?thesis by (rule exI, rule conjI, rule st) (use recv_step_refines [OF st assms(1,2)] n(2) in auto)
qed

lemma can_mark:
  assumes "msg_cache_laws x keys" and "race_open q s" and "ra_stage s i = Looked msg"
  shows "\<exists>t. recv_step x keys s t \<and> race_open q t \<and> ra_stage t = (ra_stage s)(i := Marked msg) \<and> ra_given t = ra_given s"
proof -
  from cache_actions(2) [OF assms(1), of msg "ra_multi s" "ra_env s"] obtain w where
    n: "mark_seen x msg (ra_multi s, ra_env s) = (Ok (), (ra_multi s, w))" by blast
  note st = recv_step.mark [of s, OF assms(3) n, of keys]
  show ?thesis by (rule exI, rule conjI, rule st) (use recv_step_refines [OF st assms(1,2)] in auto)
qed

lemma can_deliver:
  assumes "msg_cache_laws x keys" and "race_open q s" and "ra_stage s i = Marked msg"
  shows "\<exists>t. recv_step x keys s t \<and> race_open q t \<and> ra_stage t = (ra_stage s)(i := Waiting) \<and> ra_given t = ra_given s @ [(i, msg)]"
proof -
  from hand_over_open [of "ra_multi s" msg "ra_env s"] assms(2) obtain m where
    n: "hand_over msg (ra_multi s, ra_env s) = (Ok True, (m, ra_env s))" by (auto simp: race_open_def)
  note st = recv_step.deliver [of s, OF assms(3) n, of x keys]
  show ?thesis by (rule exI, rule conjI, rule st) (use recv_step_refines [OF st assms(1,2)] in auto)
qed

text \<open>Two loops that look the same id up before either has entered it both deliver their message.\<close>

lemma both_deliver:
  assumes "msg_cache_laws x keys" and "receiving m" and "i \<noteq> j" and "m_MessageID a = m_MessageID b" and "m_MessageID a \<notin> keys w"
    and "m_Type a \<noteq> SessionType" and "m_Type b \<noteq> SessionType"
  shows "\<exists>s. (recv_step x keys)\<^sup>*\<^sup>* (race_start m w) s \<and> ra_stage s = (\<lambda>_. Waiting) \<and> race_open (mu_OnMessage m) s \<and>
    ra_given s = [(i, strip_source a), (j, strip_source b)]"
proof -
  let ?R = "(recv_step x keys)\<^sup>*\<^sup>*" and ?q = "mu_OnMessage m"
  have ids: "m_MessageID (strip_source c) = m_MessageID c" for c by (simp add: strip_source_def)
  from race_start_open [OF assms(2), of w] have o0: "race_open ?q (race_start m w)" .
  from can_notify [OF assms(1) o0 _ assms(6), of i] obtain s1 where s1: "?R (race_start m w) s1" "race_open ?q s1" "keys (ra_env s1) = keys w"
    "ra_stage s1 = (\<lambda>_. Waiting)(i := Notified (strip_source a))" "ra_given s1 = []" by (auto simp: race_start_def)
  from can_notify [OF assms(1) s1(2) _ assms(7), of j] assms(3) s1 obtain s2 where s2: "?R (race_start m w) s2" "race_open ?q s2"
    "keys (ra_env s2) = keys w" "ra_stage s2 = (\<lambda>_. Waiting)(i := Notified (strip_source a), j := Notified (strip_source b))" "ra_given s2 = []"
    by (auto intro: rtranclp.rtrancl_into_rtrancl)
  from can_look [OF assms(1) s2(2), of i "strip_source a"] assms(3,5) s2 ids obtain s3 where s3: "?R (race_start m w) s3" "race_open ?q s3"
    "keys (ra_env s3) = keys w" "ra_stage s3 = (\<lambda>_. Waiting)(i := Looked (strip_source a), j := Notified (strip_source b))" "ra_given s3 = []"
    by (auto intro: rtranclp.rtrancl_into_rtrancl simp: fun_upd_twist)
  from can_look [OF assms(1) s3(2), of j "strip_source b"] assms(3,4,5) s3 ids obtain s4 where s4: "?R (race_start m w) s4" "race_open ?q s4"
    "ra_stage s4 = (\<lambda>_. Waiting)(i := Looked (strip_source a), j := Looked (strip_source b))" "ra_given s4 = []"
    by (auto intro: rtranclp.rtrancl_into_rtrancl)
  from can_mark [OF assms(1) s4(2), of i "strip_source a"] assms(3) s4 obtain s5 where s5: "?R (race_start m w) s5" "race_open ?q s5"
    "ra_stage s5 = (\<lambda>_. Waiting)(i := Marked (strip_source a), j := Looked (strip_source b))" "ra_given s5 = []"
    by (auto intro: rtranclp.rtrancl_into_rtrancl simp: fun_upd_twist)
  from can_mark [OF assms(1) s5(2), of j "strip_source b"] assms(3) s5 obtain s6 where s6: "?R (race_start m w) s6" "race_open ?q s6"
    "ra_stage s6 = (\<lambda>_. Waiting)(i := Marked (strip_source a), j := Marked (strip_source b))" "ra_given s6 = []"
    by (auto intro: rtranclp.rtrancl_into_rtrancl)
  from can_deliver [OF assms(1) s6(2), of i "strip_source a"] assms(3) s6 obtain s7 where s7: "?R (race_start m w) s7" "race_open ?q s7"
    "ra_stage s7 = (\<lambda>_. Waiting)(j := Marked (strip_source b))" "ra_given s7 = [(i, strip_source a)]"
    by (auto intro: rtranclp.rtrancl_into_rtrancl simp: fun_upd_twist fun_upd_idem)
  from can_deliver [OF assms(1) s7(2), of j "strip_source b"] s7 obtain s8 where s8: "?R (race_start m w) s8" "race_open ?q s8"
    "ra_stage s8 = (\<lambda>_. Waiting)" "ra_given s8 = [(i, strip_source a), (j, strip_source b)]"
    by (auto intro: rtranclp.rtrancl_into_rtrancl simp: fun_upd_idem)
  then show ?thesis by blast
qed

lemma run_weaken: "(\<lambda>u v. P u \<and> R u v)\<^sup>*\<^sup>* s t \<Longrightarrow> R\<^sup>*\<^sup>* s t"
  by (induction rule: rtranclp_induct) (auto intro: rtranclp.rtrancl_into_rtrancl)

text \<open>
  A round that runs without interruption is a run of the loops: a first step that takes the message, and others that take
  nothing more. The other loops stay where they are.
\<close>

lemma round_is_run:
  assumes "msg_cache_laws x keys" and "race_open q s" and "ra_stage s i = Waiting" and "m_Type raw \<noteq> SessionType"
    and "\<And>u. \<forall>j. j \<noteq> i \<longrightarrow> ra_stage u j = ra_stage s j \<Longrightarrow> P u"
  shows "\<exists>u t. recv_step x keys s u \<and> ra_taken u = ra_taken s @ [(i, strip_source raw)] \<and>
    (\<lambda>a b. P a \<and> recv_step x keys a b \<and> ra_taken b = ra_taken a)\<^sup>*\<^sup>* u t \<and>
    receive_round x i raw (ra_multi s, ra_env s) = (Ok True, (ra_multi t, ra_env t)) \<and> ra_stage t = ra_stage s \<and> race_open q t"
proof -
  let ?msg = "strip_source raw" and ?R = "(\<lambda>a b. P a \<and> recv_step x keys a b \<and> ra_taken b = ra_taken a)\<^sup>*\<^sup>*"
  have rec: "receiving (ra_multi s)" using assms(2) by (simp add: race_open_def)
  from notify_open [OF assms(1) rec, of i ?msg "ra_env s"] obtain m1 w1 where
    n: "notify_received x i ?msg (ra_multi s, ra_env s) = (Ok (), (m1, w1))" "receiving m1" "keys w1 = keys (ra_env s)" by blast
  from cache_actions(1) [OF assms(1), of ?msg m1 w1] obtain w2 where
    l: "seen_before x ?msg (m1, w1) = (Ok (m_MessageID ?msg \<in> keys w1), (m1, w2))" by blast
  define s1 where "s1 = (at_stage i (Notified ?msg) (m1, w1) s)\<lparr>ra_taken := ra_taken s @ [(i, ?msg)]\<rparr>"
  have s1: "recv_step x keys s s1" "ra_stage s1 = (ra_stage s)(i := Notified ?msg)" "ra_multi s1 = m1" "ra_env s1 = w1"
      "ra_taken s1 = ra_taken s @ [(i, ?msg)]"
    using recv_step.notify [OF assms(3,4) refl n(1), of keys] by (simp_all add: s1_def)
  have op: "race_open q s1" using recv_step_refines [OF s1(1) assms(1,2)] by blast
  have run: "race_open q t" if "?R s1 t" for t
    using recv_run_refines [OF run_weaken [where P = "\<lambda>_. True"] assms(1) op] rtranclp_mono [THEN predicate2D, OF _ that, of "\<lambda>a b. True \<and> recv_step x keys a b"]
    by auto
  show ?thesis
  proof (cases "m_MessageID ?msg \<in> keys w1")
    case True
    let ?t = "at_stage i Waiting (m1, w2) s1"
    have "recv_step x keys s1 ?t" using recv_step.look [of s1 i ?msg x True "(m1, w2)" keys] l True s1 by simp
    then have r: "?R s1 ?t" using assms(5) [of s1] s1 by (intro r_into_rtranclp) simp
    have "receive_round x i raw (ra_multi s, ra_env s) = (Ok True, (ra_multi ?t, ra_env ?t))" using n l True assms(4)
      by (simp add: receive_round_def receive_plain_def Let_def bnd_Ok)
    moreover have "ra_stage ?t = ra_stage s" using assms(3) s1 by (simp add: fun_upd_idem)
    ultimately show ?thesis using s1(1,5) r run [OF r] by blast
  next
    case False
    from cache_actions(2) [OF assms(1), of ?msg m1 w2] obtain w3 where k: "mark_seen x ?msg (m1, w2) = (Ok (), (m1, w3))" by blast
    from hand_over_open [OF n(2), of ?msg w3] obtain m2 where h: "hand_over ?msg (m1, w3) = (Ok True, (m2, w3))" by blast
    let ?s2 = "at_stage i (Looked ?msg) (m1, w2) s1"
    let ?s3 = "at_stage i (Marked ?msg) (m1, w3) ?s2"
    let ?t = "(at_stage i Waiting (m2, w3) ?s3)\<lparr>ra_given := ra_given ?s3 @ [(i, ?msg)]\<rparr>"
    have "recv_step x keys s1 ?s2" using recv_step.look [of s1 i ?msg x False "(m1, w2)" keys] l False s1 by simp
    then have r2: "?R s1 ?s2" using assms(5) [of s1] s1 by (intro r_into_rtranclp) simp
    have "recv_step x keys ?s2 ?s3" using recv_step.mark [of ?s2 i ?msg x "()" "(m1, w3)" keys] k by simp
    moreover have "P ?s2" "P ?s3" by (rule assms(5), simp add: s1(2))+
    ultimately have r3: "?R s1 ?s3" by (intro rtranclp.rtrancl_into_rtrancl [OF r2]) simp
    have "recv_step x keys ?s3 ?t" using recv_step.deliver [of ?s3 i ?msg "Ok True" "(m2, w3)" x keys] h by simp
    with \<open>P ?s3\<close> have r4: "?R s1 ?t" by (intro rtranclp.rtrancl_into_rtrancl [OF r3]) simp
    have "receive_round x i raw (ra_multi s, ra_env s) = (Ok True, (ra_multi ?t, ra_env ?t))" using n l k h False assms(4)
      by (simp add: receive_round_def receive_plain_def Let_def bnd_Ok)
    moreover have "ra_stage ?t = ra_stage s" using assms(3) s1 by (simp add: fun_upd_idem)
    ultimately show ?thesis using s1(1,5) r4 run [OF r4] by blast
  qed
qed

text \<open>Rounds one after the other are a calm run.\<close>

lemma rounds_calm:
  assumes "msg_cache_laws x keys" and "race_open q s" and "\<forall>i. ra_stage s i = Waiting" and "\<forall>(i, msg) \<in> set arrivals. m_Type msg \<noteq> SessionType"
  shows "\<exists>t. (calm_step x keys)\<^sup>*\<^sup>* s t \<and> (\<forall>i. ra_stage t i = Waiting) \<and> race_open q t \<and>
    receive_rounds x arrivals (ra_multi s, ra_env s) = (Ok (), (ra_multi t, ra_env t)) \<and>
    ra_taken t = ra_taken s @ map (\<lambda>(i, msg). (i, strip_source msg)) arrivals"
  using assms(2-4)
proof (induction arrivals arbitrary: s)
  case Nil
  then show ?case by (intro exI [of _ s]) simp
next
  case (Cons a arrivals)
  obtain i raw where a: "a = (i, raw)" by (cases a)
  with Cons.prems have ty: "m_Type raw \<noteq> SessionType" and w: "ra_stage s i = Waiting" by auto
  have ap: "apart u" if "\<forall>j. j \<noteq> i \<longrightarrow> ra_stage u j = ra_stage s j" for u
    using that Cons.prems(2) unfolding apart_def ids_apart_def by (metis stage.distinct(3))
  from round_is_run [OF assms(1) Cons.prems(1) w ty, of apart] ap obtain u t where
    u: "recv_step x keys s u" "ra_taken u = ra_taken s @ [(i, strip_source raw)]"
    and t: "(\<lambda>a b. apart a \<and> recv_step x keys a b \<and> ra_taken b = ra_taken a)\<^sup>*\<^sup>* u t"
      "receive_round x i raw (ra_multi s, ra_env s) = (Ok True, (ra_multi t, ra_env t))" "ra_stage t = ra_stage s" "race_open q t" by blast
  from t(1) have "(calm_step x keys)\<^sup>*\<^sup>* u t \<and> ra_taken t = ra_taken u"
    by (induction rule: rtranclp_induct) (auto simp: calm_step_def intro: rtranclp.rtrancl_into_rtrancl)
  moreover have "calm_step x keys s u" using u(1) ap [of s] by (simp add: calm_step_def)
  ultimately have st: "(calm_step x keys)\<^sup>*\<^sup>* s t" "ra_taken t = ra_taken s @ [(i, strip_source raw)]"
    using u(2) by (auto intro: converse_rtranclp_into_rtranclp)
  from Cons.IH [OF t(4)] t(3) Cons.prems(2,3) obtain u where
    u: "(calm_step x keys)\<^sup>*\<^sup>* t u" "\<forall>i. ra_stage u i = Waiting" "race_open q u"
      "receive_rounds x arrivals (ra_multi t, ra_env t) = (Ok (), (ra_multi u, ra_env u))"
      "ra_taken u = ra_taken t @ map (\<lambda>(i, msg). (i, strip_source msg)) arrivals" by auto
  from rtranclp_trans [OF st(1) u(1)] have "(calm_step x keys)\<^sup>*\<^sup>* s u" .
  with u t(2) st(2) a show ?case by (intro exI [of _ u]) (simp add: bnd_Ok)
qed

text \<open>What the invariants say of the messages given and of the queue.\<close>

lemma race_outcome:
  assumes "race_open (mu_OnMessage m) s" and "arrival_inv K (arrivals_of keys s)" and "receiving m"
    and "\<not> oe_Callback (mu_OnMessage m)" and "ch_buf (oe_C (mu_OnMessage m)) = []"
  shows "set (ra_given s) \<subseteq> set (ra_taken s)" and "(m_MessageID \<circ> snd) ` set (ra_given s) \<inter> K = {}"
    and "ch_buf (oe_C (mu_OnMessage (ra_multi s))) = take (ch_cap (oe_C (mu_OnMessage m))) (map (with_reply \<circ> snd) (ra_given s))"
    and "(\<forall>i. ra_stage s i = Waiting) \<longrightarrow> (m_MessageID \<circ> snd) ` set (ra_given s) = (m_MessageID \<circ> snd) ` set (ra_taken s) - K"
proof -
  from assms(2) have g: "given_inv K (arrivals_of keys s)" by (simp add: arrival_inv_def)
  then show "set (ra_given s) \<subseteq> set (ra_taken s)" "(m_MessageID \<circ> snd) ` set (ra_given s) \<inter> K = {}"
    by (auto simp: given_inv_def arrivals_of_def)
  show "ch_buf (oe_C (mu_OnMessage (ra_multi s))) = take (ch_cap (oe_C (mu_OnMessage m))) (map (with_reply \<circ> snd) (ra_given s))"
    using assms(1,3-5) on_message.receive_all_queued [of "mu_OnMessage m" "map (with_reply \<circ> snd) (ra_given s)"]
    by (auto simp: race_open_def receiving_def multi_open_def)
  show "(\<forall>i. ra_stage s i = Waiting) \<longrightarrow> (m_MessageID \<circ> snd) ` set (ra_given s) = (m_MessageID \<circ> snd) ` set (ra_taken s) - K"
    using all_given [OF assms(2)] by (simp add: arrivals_of_def)
qed

section \<open>Properties\<close>

text \<open>
  C3: The loops of the sub-clients, whatever the order of their atomic actions, lose nothing and stop for nothing:
  in every state they reach in an open multiclient no loop has ended or crashed, no sub-client has delivered
  an id twice, every message delivered was taken from that sub-client and its id was not known at the start,
  the queue holds the delivered messages in the order of their delivery as far as there was room, and once
  all loops wait for their next message the ids delivered are those of the messages taken that were not
  known at the start.
\<close>

theorem race_delivery:
  assumes "msg_cache_laws x keys" and "receiving m" and "(recv_step x keys)\<^sup>*\<^sup>* (race_start m w) s"
    and "\<not> oe_Callback (mu_OnMessage m)" and "ch_buf (oe_C (mu_OnMessage m)) = []"
  shows "(\<forall>i. ra_stage s i \<noteq> Ended \<and> (\<nexists>p. ra_stage s i = Crashed p)) \<and> distinct (map key_of (ra_given s)) \<and>
    set (ra_given s) \<subseteq> set (ra_taken s) \<and> (m_MessageID \<circ> snd) ` set (ra_given s) \<inter> keys w = {} \<and>
    ch_buf (oe_C (mu_OnMessage (ra_multi s))) = take (ch_cap (oe_C (mu_OnMessage m))) (map (with_reply \<circ> snd) (ra_given s)) \<and>
    ((\<forall>i. ra_stage s i = Waiting) \<longrightarrow> (m_MessageID \<circ> snd) ` set (ra_given s) = (m_MessageID \<circ> snd) ` set (ra_taken s) - keys w)"
proof -
  note r = race_reachable [OF assms(3,1,2)]
  from r(2) have g: "given_inv (keys w) (arrivals_of keys s)" "alive_inv (arrivals_of keys s)" by (simp_all add: arrival_inv_def)
  have "distinct (map key_of (ra_given s))" "\<forall>i. ra_stage s i \<noteq> Ended \<and> (\<nexists>p. ra_stage s i = Crashed p)"
    using g by (simp_all add: given_inv_def alive_inv_def arrivals_of_def)
  with race_outcome [OF r assms(2,4,5)] show ?thesis by blast
qed


text \<open>Two messages of the witness arrivals, the same text through two sub-clients.\<close>

lemma demo_race:
  "\<exists>s. (recv_step cache_mx set)\<^sup>*\<^sup>* (race_start (demo_multi 0) []) s \<and> ra_stage s = (\<lambda>_. Waiting) \<and>
    ra_given s = [(0, strip_source (snd (demo_arrivals ! 0))), (1, strip_source (snd (demo_arrivals ! 1)))]"
  using both_deliver [OF cache_mx_laws demo_multi_receiving, of 0 1 "snd (demo_arrivals ! 0)" "snd (demo_arrivals ! 1)" "[]" 0]
  by (auto simp: demo_arrivals_def Let_def payload_type_defs)

lemma demo_queue:
  "\<not> oe_Callback (mu_OnMessage (demo_multi p))" "ch_buf (oe_C (mu_OnMessage (demo_multi p))) = []"
  "ch_cap (oe_C (mu_OnMessage (demo_multi p))) = 16"
  by (simp_all add: demo_multi_def OnMessage_defs new_on_event_def make_chan_def)

lemma demo_stripped:
  "fst (removeIdentifier ''__0__.bob'') = ''bob''" "fst (removeIdentifier ''__1__.bob'') = ''bob''"
  by code_simp+

theorem race_delivery_witness:
  "\<exists>s. (recv_step cache_mx set)\<^sup>*\<^sup>* (race_start (demo_multi 0) []) s \<and> map key_of (ra_given s) = [(0, ''a''), (1, ''a'')] \<and>
     map (\<lambda>msg. (m_Src msg, m_Data msg)) (ch_buf (oe_C (mu_OnMessage (ra_multi s)))) = [(''bob'', ''hi''), (''bob'', ''hi'')] \<and>
     (m_MessageID \<circ> snd) ` set (ra_taken s) = {''a''}"
proof -
  from demo_race obtain s where s: "(recv_step cache_mx set)\<^sup>*\<^sup>* (race_start (demo_multi 0) []) s" "ra_stage s = (\<lambda>_. Waiting)"
    "ra_given s = [(0, strip_source (snd (demo_arrivals ! 0))), (1, strip_source (snd (demo_arrivals ! 1)))]" by blast
  from race_delivery [OF cache_mx_laws demo_multi_receiving s(1) demo_queue(1,2)] s(2)
  have "ch_buf (oe_C (mu_OnMessage (ra_multi s))) = take 16 (map (with_reply \<circ> snd) (ra_given s))"
    "(m_MessageID \<circ> snd) ` set (ra_given s) = (m_MessageID \<circ> snd) ` set (ra_taken s)" by (simp_all add: demo_queue)
  with s demo_stripped show ?thesis
    by (intro exI [of _ s]) (simp add: demo_arrivals_def Let_def strip_source_def with_reply_def key_of_def)
qed

text \<open>
  C2: When a message that reaches a multiclient through several sub-clients is delivered once. In any run of the receiving loops,
  with their atomic actions in any order, in which no two loops are at the same time between the look-up of an id in the cache
  and its entry, the ids handed to the queue of an open multiclient are distinct and new; the queue holds these
  messages in the order of their delivery, up to its capacity (what comes when it is full is dropped); and once
  all loops wait again the ids delivered are exactly those of the messages taken that were not known at the start.
  Without the condition on the loops a message may be delivered twice, as is shown below.
\<close>

theorem messages_delivered_once:
  assumes "msg_cache_laws x keys" and "receiving m" and "(calm_step x keys)\<^sup>*\<^sup>* (race_start m w) s"
    and "\<not> oe_Callback (mu_OnMessage m)" and "ch_buf (oe_C (mu_OnMessage m)) = []"
  shows "distinct (map (m_MessageID \<circ> snd) (ra_given s)) \<and> (m_MessageID \<circ> snd) ` set (ra_given s) \<inter> keys w = {} \<and>
    set (ra_given s) \<subseteq> set (ra_taken s) \<and>
    ch_buf (oe_C (mu_OnMessage (ra_multi s))) = take (ch_cap (oe_C (mu_OnMessage m))) (map (with_reply \<circ> snd) (ra_given s)) \<and>
    ((\<forall>i. ra_stage s i = Waiting) \<longrightarrow> (m_MessageID \<circ> snd) ` set (ra_given s) = (m_MessageID \<circ> snd) ` set (ra_taken s) - keys w)"
proof -
  note r = race_reachable [OF calm_run [OF assms(3)] assms(1,2)]
  from calm_once [OF assms(3,1,2)] have "distinct (map (m_MessageID \<circ> snd) (ra_given s))" by (simp add: once_inv_def arrivals_of_def)
  with race_outcome [OF r assms(2,4,5)] show ?thesis by blast
qed

theorem messages_delivered_once_witness:
  "\<exists>s. (calm_step cache_mx set)\<^sup>*\<^sup>* (race_start (demo_multi 0) []) s \<and> length (ra_taken s) = 3 \<and>
     distinct (map m_MessageID (ch_buf (oe_C (mu_OnMessage (ra_multi s))))) \<and>
     set (map m_MessageID (ch_buf (oe_C (mu_OnMessage (ra_multi s))))) = {''a'', ''b''}"
proof -
  have ty: "\<forall>(i, msg) \<in> set demo_arrivals. m_Type msg \<noteq> SessionType" by (simp add: demo_arrivals_def Let_def payload_type_defs)
  from rounds_calm [OF cache_mx_laws race_start_open [OF demo_multi_receiving, of 0 "[]"] _ ty] obtain s where
    s: "(calm_step cache_mx set)\<^sup>*\<^sup>* (race_start (demo_multi 0) []) s" "\<forall>i. ra_stage s i = Waiting"
      "ra_taken s = map (\<lambda>(i, msg). (i, strip_source msg)) demo_arrivals" by (auto simp: race_start_def)
  from messages_delivered_once [OF cache_mx_laws demo_multi_receiving s(1) demo_queue(1,2)] s(2)
  have d: "distinct (map (m_MessageID \<circ> snd) (ra_given s))" "(m_MessageID \<circ> snd) ` set (ra_given s) = (m_MessageID \<circ> snd) ` set (ra_taken s)"
    "ch_buf (oe_C (mu_OnMessage (ra_multi s))) = take 16 (map (with_reply \<circ> snd) (ra_given s))" by (simp_all add: demo_queue)
  have ids: "(m_MessageID \<circ> snd) ` set (ra_taken s) = {''a'', ''b''}"
    by (simp add: s(3) demo_arrivals_def Let_def strip_source_def)
  have "length (ra_given s) = card (set (map (m_MessageID \<circ> snd) (ra_given s)))" using distinct_card [OF d(1)] by simp
  also have "\<dots> = 2" using d(2) ids by simp
  finally have "length (ra_given s) = 2" .
  with d(3) have q: "map m_MessageID (ch_buf (oe_C (mu_OnMessage (ra_multi s)))) = map (m_MessageID \<circ> snd) (ra_given s)"
    by (simp add: with_reply_def)
  have "length (ra_taken s) = 3" by (simp add: s(3) demo_arrivals_def Let_def)
  with s(1) d(1,2) ids q show ?thesis by (intro exI [of _ s]) simp
qed

text \<open>
  C17: Looking an id up in the cache and entering it are two operations, so that a message may be delivered more
  than once: if two sub-clients receive messages with the same new id, there is a run of their loops in an
  open multiclient whose queue is empty after which the queue holds both messages.
\<close>

theorem race_duplicates:
  fixes i j :: int
  assumes "msg_cache_laws x keys" and "receiving m" and "\<not> oe_Callback (mu_OnMessage m)" and "ch_buf (oe_C (mu_OnMessage m)) = []"
    and "2 \<le> ch_cap (oe_C (mu_OnMessage m))" and "i \<noteq> j" and "m_MessageID a = m_MessageID b" and "m_MessageID a \<notin> keys w"
    and "m_Type a \<noteq> SessionType" and "m_Type b \<noteq> SessionType"
  shows "\<exists>s. (recv_step x keys)\<^sup>*\<^sup>* (race_start m w) s \<and> ra_stage s = (\<lambda>_. Waiting) \<and>
    ch_buf (oe_C (mu_OnMessage (ra_multi s))) = [delivered a, delivered b]"
proof -
  from both_deliver [OF assms(1,2,6-10)] obtain s where
    s: "(recv_step x keys)\<^sup>*\<^sup>* (race_start m w) s" "ra_stage s = (\<lambda>_. Waiting)" "race_open (mu_OnMessage m) s"
      "ra_given s = [(i, strip_source a), (j, strip_source b)]" by blast
  from s(3) have "receive_all OnMessage_receive [delivered a, delivered b] (mu_OnMessage m) = (Ok (), mu_OnMessage (ra_multi s))"
    by (simp add: race_open_def s(4) delivered_def)
  with on_message.receive_all_queued [of "mu_OnMessage m" "[delivered a, delivered b]"] assms(2-5)
  have "mu_OnMessage (ra_multi s) = (mu_OnMessage m)\<lparr>oe_C := (oe_C (mu_OnMessage m))\<lparr>ch_buf := [delivered a, delivered b]\<rparr>\<rparr>"
    by (auto simp: receiving_def multi_open_def)
  then have "ch_buf (oe_C (mu_OnMessage (ra_multi s))) = [delivered a, delivered b]" by simp
  with s(1,2) show ?thesis by blast
qed

theorem race_duplicates_witness:
  "\<exists>s. (recv_step cache_mx set)\<^sup>*\<^sup>* (race_start (demo_multi 0) []) s \<and>
     map m_MessageID (ch_buf (oe_C (mu_OnMessage (ra_multi s)))) = [''a'', ''a'']"
  using race_duplicates [OF cache_mx_laws demo_multi_receiving demo_queue(1,2), of 0 0 1 "snd (demo_arrivals ! 0)" "snd (demo_arrivals ! 1)" "[]"]
  by (auto simp: demo_queue demo_arrivals_def Let_def payload_type_defs delivered_def strip_source_def with_reply_def)

end
