(* ===== verification/Nkn_MultiClient_Create.thy ===== *)
theory Nkn_MultiClient_Create
  imports Nkn_MultiClient_Inv
begin

text \<open>
  The creation of a multiclient (\<^verbatim>\<open>NewMultiClient\<close> in \<^verbatim>\<open>src/multiclient.go\<close>) at the grain at which its parts
  interleave: the goroutines that create the sub-clients, the one that waits for them and the caller's
  \<^verbatim>\<open>select\<close> run as \<open>creation_step\<close>. Its runs end, and say what came of every sub-client; \<open>NewMultiClient\<close>, in
  which the caller takes the first signal at once, is one of the runs; in others it reports failure although
  clients were created.
\<close>

section \<open>The goroutines\<close>

text \<open>
  The state of \<^verbatim>\<open>NewMultiClient\<close> once its goroutines run: the multiclient, the two signal channels of
  capacity one, whether the waiting goroutine is done, and what the caller has returned, if it has.
\<close>

record 'w creation =
  cr_multi :: multi_client
  cr_env :: 'w
  cr_success :: bool
  cr_fail :: bool
  cr_waited :: bool
  cr_result :: "unit result option"

definition creation_start :: "multi_client \<Rightarrow> 'w \<Rightarrow> 'w creation" where
  "creation_start m w = \<lparr>cr_multi = m, cr_env = w, cr_success = False, cr_fail = False, cr_waited = False, cr_result = None\<rparr>"

text \<open>
  A goroutine comes to the end of its part in the creation; when all have, the waiting goroutine signals
  failure, whatever came of them; the caller's \<^verbatim>\<open>select\<close> takes a signal that is there, and either of them if
  both are. A panic in a goroutine ends the program.
\<close>

fun panicked :: "'a result option \<Rightarrow> bool" where
  "panicked (Some (Panic p)) = True"
| "panicked _ = False"

inductive creation_step :: "'w multi_ext \<Rightarrow> account \<Rightarrow> string \<Rightarrow> 'w creation \<Rightarrow> 'w creation \<Rightarrow> bool" for x account ident where
  finish: "\<not> panicked (cr_result c) \<Longrightarrow> i \<in> set (mu_creating (cr_multi c)) \<Longrightarrow>
     create_client x account ident i (cr_multi c, cr_env c) = Some (Ok b, (m, w)) \<Longrightarrow>
     creation_step x account ident c (c\<lparr>cr_multi := m, cr_env := w, cr_success := cr_success c \<or> b\<rparr>)"
| crash: "\<not> panicked (cr_result c) \<Longrightarrow> i \<in> set (mu_creating (cr_multi c)) \<Longrightarrow>
     create_client x account ident i (cr_multi c, cr_env c) = Some (Panic p, (m, w)) \<Longrightarrow>
     creation_step x account ident c (c\<lparr>cr_multi := m, cr_env := w, cr_result := Some (Panic p)\<rparr>)"
| waited: "\<not> panicked (cr_result c) \<Longrightarrow> mu_creating (cr_multi c) = [] \<Longrightarrow> \<not> cr_waited c \<Longrightarrow>
     creation_step x account ident c (c\<lparr>cr_multi := creation_done (cr_multi c), cr_waited := True, cr_fail := True\<rparr>)"
| succeed: "cr_result c = None \<Longrightarrow> cr_success c \<Longrightarrow>
     creation_step x account ident c (c\<lparr>cr_success := False, cr_result := Some (Ok ())\<rparr>)"
| give_up: "cr_result c = None \<Longrightarrow> cr_fail c \<Longrightarrow>
     creation_step x account ident c (c\<lparr>cr_fail := False, cr_result := Some (Err ErrCreateClientFailed)\<rparr>)"

text \<open>
  The invariant: every id is either still being created, or has a client or an error; the caller has returned a
  multiclient only if it has a client, and an error only when no goroutine was left.
\<close>

definition ids_accounted :: "multi_client \<Rightarrow> bool" where
  "ids_accounted m \<longleftrightarrow> set (expected_ids m) \<subseteq> set (mu_creating m) \<union> set (map fst (mu_clients m)) \<union> set (map fst (mu_clientErrors m))"

definition creation_inv :: "'w multi_ext \<Rightarrow> client_config \<Rightarrow> 'w creation \<Rightarrow> bool" where
  "creation_inv x cfg c \<longleftrightarrow> multi_inv False x (cr_multi c) \<and> \<not> mu_isClosed (cr_multi c) \<and> mu_config (cr_multi c) = cfg \<and>
     (panicked (cr_result c) \<or> ids_accounted (cr_multi c)) \<and>
     (cr_success c \<longrightarrow> mu_clients (cr_multi c) \<noteq> []) \<and> (cr_fail c \<or> cr_waited c \<longrightarrow> mu_creating (cr_multi c) = []) \<and>
     (cr_waited c \<and> cr_result c = None \<longrightarrow> cr_fail c) \<and> (cr_waited c \<longrightarrow> mu_createDone (cr_multi c)) \<and>
     (case cr_result c of
        Some (Ok _) \<Rightarrow> mu_clients (cr_multi c) \<noteq> []
      | Some (Err e) \<Rightarrow> e = ErrCreateClientFailed \<and> mu_creating (cr_multi c) = []
      | _ \<Rightarrow> True)"

lemma create_client_keeps:
  assumes "create_client x account ident i (m, w) = Some (r, (m', w'))" and "\<not> mu_isClosed m"
  shows "mu_clients m \<noteq> [] \<Longrightarrow> mu_clients m' \<noteq> []"
    and "\<not> mu_isClosed m'" and "mu_config m' = mu_config m" and "mu_createDone m' = mu_createDone m"
    and "ids_accounted m \<Longrightarrow> \<not> panicked (Some r) \<Longrightarrow> ids_accounted m'"
proof -
  obtain q w1 where n: "NewClient (mx_client x i) account (addIdentifier ident i) (Some (mu_config m)) w = Some (q, w1)"
    using assms(1) by (cases "NewClient (mx_client x i) account (addIdentifier ident i) (Some (mu_config m)) w") (auto simp: create_client_def)
  have rm: "set (mu_creating m) \<subseteq> insert i (set (remove1 i (mu_creating m)))" using in_set_remove1 [of _ i] by fast
  show "mu_clients m \<noteq> [] \<Longrightarrow> mu_clients m' \<noteq> []" "\<not> mu_isClosed m'" "mu_config m' = mu_config m" "mu_createDone m' = mu_createDone m"
    using assms n by (cases q; auto simp: create_client_def Let_def update_nonempty split: if_splits)+
  show "ids_accounted m \<Longrightarrow> \<not> panicked (Some r) \<Longrightarrow> ids_accounted m'" using assms n rm
    by (cases q) (auto simp: create_client_def Let_def ids_accounted_def expected_ids_def update_ids simp del: set_map split: if_splits)
qed

lemma creation_inv_step:
  assumes "creation_step x account ident c d" and "creation_inv x cfg c"
  shows "creation_inv x cfg d"
  using assms
proof (induction rule: creation_step.induct)
  case (finish c i b m w)
  with create_client_inv [OF finish(3), of False] create_client_keeps [OF finish(3)] show ?case
    by (auto simp: creation_inv_def split: option.splits res.splits)
next
  case (crash c i p m w)
  with create_client_inv [OF crash(3), of False] create_client_keeps [OF crash(3)] show ?case
    by (auto simp: creation_inv_def)
next
  case (waited c)
  then show ?case by (auto simp: creation_inv_def creation_done_def multi_inv_defs ids_accounted_def expected_ids_def split: option.splits res.splits)
qed (auto simp: creation_inv_def)


text \<open>No step is done twice: what is left to do.\<close>

definition creation_todo :: "'w creation \<Rightarrow> nat" where
  "creation_todo c = length (mu_creating (cr_multi c)) + (if cr_waited c then 0 else 1) + (if cr_result c = None then 1 else 0)"

lemma create_client_ends:
  assumes "create_client x account ident i (m, w) = Some (r, (m', w'))" and "i \<in> set (mu_creating m)" and "multi_inv up x m"
  shows "length (mu_creating m') < length (mu_creating m)"
proof -
  have "mu_creating m' = remove1 i (mu_creating m)" using create_client_inv [OF assms(1,3,2)] by blast
  moreover have "0 < length (mu_creating m)" using assms(2) by (rule length_pos_if_in_set)
  ultimately show ?thesis using assms(2) by (simp add: length_remove1)
qed

lemma creation_todo_step:
  assumes "creation_step x account ident c d" and "creation_inv x cfg c"
  shows "creation_todo d < creation_todo c"
  using assms
proof (induction rule: creation_step.induct)
  case (finish c i b m w)
  with create_client_ends [OF finish(3,2), of False] show ?case by (simp add: creation_todo_def creation_inv_def)
next
  case (crash c i p m w)
  with create_client_ends [OF crash(3,2), of False] show ?case by (simp add: creation_todo_def creation_inv_def)
qed (simp_all add: creation_todo_def creation_done_def)

text \<open>Nothing is stuck before the caller has returned and all goroutines have ended, as long as connecting the clients ends.\<close>

lemma creation_progress:
  assumes "creation_inv x cfg c" and "\<not> panicked (cr_result c)"
    and "\<forall>i w. NewClient (mx_client x i) account (addIdentifier ident i) (Some cfg) w \<noteq> None"
    and "cr_result c = None \<or> mu_creating (cr_multi c) \<noteq> [] \<or> \<not> cr_waited c"
  shows "\<exists>d. creation_step x account ident c d"
proof (cases "mu_creating (cr_multi c)")
  case Nil
  show ?thesis
  proof (cases "cr_waited c")
    case True
    with Nil assms(1,4) have "cr_result c = None" "cr_fail c" by (auto simp: creation_inv_def)
    then show ?thesis by (blast intro: creation_step.give_up)
  qed (use Nil assms(2) in \<open>blast intro: creation_step.waited\<close>)
next
  case (Cons i rest)
  then have i: "i \<in> set (mu_creating (cr_multi c))" by simp
  from assms(1) have op: "\<not> mu_isClosed (cr_multi c)" "mu_config (cr_multi c) = cfg" by (simp_all add: creation_inv_def)
  with assms(3) obtain r w1 where "NewClient (mx_client x i) account (addIdentifier ident i) (Some (mu_config (cr_multi c))) (cr_env c) = Some (r, w1)"
    by (metis option.exhaust prod.exhaust)
  with op show ?thesis using creation_step.finish [OF assms(2) i, of x account ident] creation_step.crash [OF assms(2) i, of x account ident]
    by (cases r) (simp_all add: create_client_def Let_def, blast+)
qed

lemma make_multi_start:
  assumes "make_multi x account ident n orig conf = Ok m"
  shows "creation_inv x (mu_config m) (creation_start m w)"
proof -
  from assms obtain cfg rs where m: "m = new_multi x account ident n orig cfg rs" by (auto simp: make_multi_def split: if_splits)
  show ?thesis using new_multi_inv [of x account ident n orig cfg rs]
    by (auto simp: m creation_inv_def creation_start_def new_multi_def Let_def ids_accounted_def expected_ids_def)
qed

interpretation creating: invariant_system "\<lambda>c. \<exists>m w. make_multi x account ident n orig conf = Ok m \<and> mu_config m = cfg \<and> c = creation_start m w"
  "creation_step x account ident" "creation_inv x cfg" for x account ident n orig conf cfg
  by unfold_locales (auto intro: make_multi_start creation_inv_step)

lemma creation_reachable:
  assumes "make_multi x account ident n orig conf = Ok m" and "(creation_step x account ident)\<^sup>*\<^sup>* (creation_start m w) c"
  shows "creation_inv x (mu_config m) c"
  using creating.reachable_inv [OF _ assms(2)] assms(1) by blast


text \<open>\<open>NewMultiClient\<close>, in which the caller takes the first signal at once, is one of the runs.\<close>

lemma run_created:
  assumes "i \<in> set (mu_creating (cr_multi c))" and "create_client x account ident i (cr_multi c, cr_env c) = Some (Ok True, (m, w))"
    and "cr_result c = None"
  shows "\<exists>d. (creation_step x account ident)\<^sup>*\<^sup>* c d \<and> cr_result d = Some (Ok ()) \<and> cr_env d = w \<and> cr_multi d = m"
proof -
  let ?d = "c\<lparr>cr_multi := m, cr_env := w, cr_success := True\<rparr>"
  have "creation_step x account ident c ?d" using creation_step.finish [of c i x account ident True] assms by simp
  moreover have "creation_step x account ident ?d (?d\<lparr>cr_success := False, cr_result := Some (Ok ())\<rparr>)"
    using assms(3) by (intro creation_step.succeed) simp_all
  ultimately show ?thesis
    by (intro exI [of _ "?d\<lparr>cr_success := False, cr_result := Some (Ok ())\<rparr>"]) (auto intro: rtranclp.rtrancl_into_rtrancl)
qed

lemma run_none_left:
  assumes "mu_creating (cr_multi c) = []" and "cr_result c = None" and "\<not> cr_waited c"
  shows "\<exists>d. (creation_step x account ident)\<^sup>*\<^sup>* c d \<and> cr_result d = Some (Err ErrCreateClientFailed) \<and> cr_env d = cr_env c \<and>
    cr_multi d = creation_done (cr_multi c)"
proof -
  let ?d = "c\<lparr>cr_multi := creation_done (cr_multi c), cr_waited := True, cr_fail := True\<rparr>"
  have "creation_step x account ident c ?d" using assms by (intro creation_step.waited) simp_all
  moreover have "creation_step x account ident ?d (?d\<lparr>cr_fail := False, cr_result := Some (Err ErrCreateClientFailed)\<rparr>)"
    using assms(2) by (intro creation_step.give_up) simp_all
  ultimately show ?thesis
    by (intro exI [of _ "?d\<lparr>cr_fail := False, cr_result := Some (Err ErrCreateClientFailed)\<rparr>"]) (auto intro: rtranclp.rtrancl_into_rtrancl)
qed

lemma create_client_never_errs: "create_client x account ident i s \<noteq> Some (Err e, t)"
  by (cases s) (auto simp: create_client_def Let_def split: option.splits prod.splits res.splits if_splits)

lemma await_created_is_run:
  assumes "await_created x account ident order (cr_multi c, cr_env c) = Some (r, (m', w'))"
    and "distinct order" and "set order \<subseteq> set (mu_creating (cr_multi c))" and "creation_inv x cfg c"
    and "cr_result c = None" and "\<not> cr_success c" and "\<not> cr_waited c"
  shows "\<exists>d. (creation_step x account ident)\<^sup>*\<^sup>* c d \<and> cr_result d = Some r \<and> cr_env d = w' \<and>
    cr_multi d = (if r = Err ErrCreateClientFailed then creation_done m' else m')"
  using assms
proof (induction order arbitrary: c)
  case Nil
  then show ?case using run_none_left [of c x account ident] by (auto split: if_splits)
next
  case (Cons i order)
  have i: "i \<in> set (mu_creating (cr_multi c))" and np: "\<not> panicked (cr_result c)" using Cons.prems(3,5) by simp_all
  show ?case
  proof (cases "create_client x account ident i (cr_multi c, cr_env c)")
    case None
    with Cons.prems Cons.IH [of c] show ?thesis by simp
  next
    case (Some y)
    then obtain q m1 w1 where q: "create_client x account ident i (cr_multi c, cr_env c) = Some (q, (m1, w1))" by (cases y) auto
    then consider (created) "q = Ok True" | (not_created) "q = Ok False" | (panic) p where "q = Panic p"
      by (cases q) (auto simp: create_client_never_errs)
    then show ?thesis
    proof cases
      case created
      with run_created [OF i _ Cons.prems(5)] q Cons.prems(1) show ?thesis by auto
    next
      case not_created
      let ?d = "c\<lparr>cr_multi := m1, cr_env := w1, cr_success := False\<rparr>"
      have st: "creation_step x account ident c ?d"
        using creation_step.finish [OF np i, of x account ident False] q not_created Cons.prems(6) by simp
      have "mu_creating m1 = remove1 i (mu_creating (cr_multi c))"
        using create_client_inv [OF q, of False] i Cons.prems(4) by (simp add: creation_inv_def)
      then have "set order \<subseteq> set (mu_creating m1)" using Cons.prems(2,3) by (auto intro!: in_set_remove1 [THEN iffD2])
      with Cons.IH [of ?d] Cons.prems creation_inv_step [OF st Cons.prems(4)] q not_created
      show ?thesis by (auto intro: converse_rtranclp_into_rtranclp [of "creation_step x account ident", OF st])
    next
      case panic
      with creation_step.crash [OF np i, of x account ident p m1 w1] q Cons.prems(1) show ?thesis
        by (intro exI [of _ "c\<lparr>cr_multi := m1, cr_env := w1, cr_result := Some (Panic p)\<rparr>"]) auto
    qed
  qed
qed

lemma NewMultiClient_is_run:
  assumes "make_multi x account ident n orig conf = Ok m" and "NewMultiClient x order account ident n orig conf w = Some (r, w')"
    and "distinct order" and "set order \<subseteq> {- (if orig then 1 else 0) ..< n}"
  shows "\<exists>c. (creation_step x account ident)\<^sup>*\<^sup>* (creation_start m w) c \<and> cr_env c = w' \<and>
    r = and_then (the (cr_result c)) (\<lambda>_. Ok (cr_multi c)) \<and> cr_result c \<noteq> None"
proof -
  from assms(1,2) obtain q m1 w1 where a: "await_created x account ident order (m, w) = Some (q, (m1, w1))" "r = and_then q (\<lambda>_. Ok m1)" "w' = w1"
    by (cases "await_created x account ident order (m, w)") (auto simp: NewMultiClient_def)
  have "set order \<subseteq> set (mu_creating m)" using assms(1,4) by (auto simp: make_multi_def new_multi_def Let_def split: if_splits)
  with await_created_is_run [of x account ident order "creation_start m w"] a(1) assms(3) make_multi_start [OF assms(1), of w]
  obtain c where "(creation_step x account ident)\<^sup>*\<^sup>* (creation_start m w) c" "cr_result c = Some q" "cr_env c = w1"
    "cr_multi c = (if q = Err ErrCreateClientFailed then creation_done m1 else m1)" by (auto simp: creation_start_def)
  with a show ?thesis by (cases q) auto
qed

section \<open>Witness instances\<close>

lemma demo_make_multi:
  "make_multi demo_conn_mx demo_account ''alice'' 1 False (Some GetDefaultClientConfig) =
     Ok (new_multi demo_conn_mx demo_account ''alice'' 1 False GetDefaultClientConfig [])"
  using demo_defaults by (simp add: make_multi_def MergeClientConfig_def demo_conn_mx_def demo_mx_def demo_cx_def)

text \<open>The only goroutine of a multiclient with one sub-client has created its client.\<close>

lemma demo_created:
  defines "m \<equiv> new_multi demo_conn_mx demo_account ''alice'' 1 False GetDefaultClientConfig []"
  shows "\<exists>c. (creation_step demo_conn_mx demo_account ''alice'')\<^sup>*\<^sup>* (creation_start m ()) c \<and> cr_result c = None \<and>
    mu_creating (cr_multi c) = [] \<and> map fst (mu_clients (cr_multi c)) = [0]"
proof -
  have mc: "MergeClientConfig (\<lambda>base c. Ok c) (Some GetDefaultClientConfig) = Ok GetDefaultClientConfig"
    using demo_defaults by (simp add: MergeClientConfig_def)
  from demo_NewClient_any [of "Some GetDefaultClientConfig" "addIdentifier ''alice'' 0"] mc obtain c where
    c: "NewClient demo_conn_cx demo_account (addIdentifier ''alice'' 0) (Some GetDefaultClientConfig) () = Some (Ok (demo_connected c), ())"
    by (auto simp: demo_conn_cx_def demo_cx_def)
  let ?c = "creation_start m ()"
  from c obtain m1 where cc: "create_client demo_conn_mx demo_account ''alice'' 0 (m, ()) = Some (Ok True, (m1, ()))"
    "mu_creating m1 = []" "map fst (mu_clients m1) = [0]"
    by (auto simp: m_def new_multi_def create_client_def demo_conn_mx_def Let_def)
  have "creation_step demo_conn_mx demo_account ''alice'' ?c (?c\<lparr>cr_multi := m1, cr_env := (), cr_success := cr_success ?c \<or> True\<rparr>)"
    by (rule creation_step.finish [of _ 0]) (use cc(1) in \<open>simp_all add: creation_start_def m_def new_multi_def Let_def\<close>)
  with cc(2,3) show ?thesis
    by (intro exI [of _ "?c\<lparr>cr_multi := m1, cr_env := (), cr_success := cr_success ?c \<or> True\<rparr>"]) (auto simp: creation_start_def)
qed

section \<open>Properties\<close>

text \<open>
  C14: The creation of a multiclient ends: as long as connecting a client ends, no run of the goroutines, the one that
  waits for them and the caller goes on for ever, and where none of them can go on, the program has panicked or
  the caller has returned, all goroutines have ended, the creation is marked as done and every sub-client has
  been created or has its error recorded. The caller returns a multiclient only if a client was created,
  and the error only after all goroutines have ended.
\<close>

theorem creation_terminates:
  assumes "make_multi x account ident n orig conf = Ok m" and "(creation_step x account ident)\<^sup>*\<^sup>* (creation_start m w) c"
    and "\<forall>i v. NewClient (mx_client x i) account (addIdentifier ident i) (Some (mu_config m)) v \<noteq> None"
  shows "(\<nexists>run. run 0 = c \<and> (\<forall>k. creation_step x account ident (run k) (run (Suc k)))) \<and>
    ((\<nexists>d. creation_step x account ident c d) \<longrightarrow> panicked (cr_result c) \<or> cr_result c \<noteq> None \<and> mu_createDone (cr_multi c) \<and>
       set (expected_ids (cr_multi c)) \<subseteq> set (map fst (mu_clients (cr_multi c))) \<union> set (map fst (mu_clientErrors (cr_multi c)))) \<and>
    (cr_result c = Some (Ok ()) \<longrightarrow> mu_clients (cr_multi c) \<noteq> []) \<and>
    (\<forall>e. cr_result c = Some (Err e) \<longrightarrow> e = ErrCreateClientFailed \<and> mu_creating (cr_multi c) = [])"
proof -
  note inv = creation_reachable [OF assms(1,2)]
  have "\<not> (\<forall>k. creation_step x account ident (run k) (run (Suc k)))" if "run 0 = c" for run
  proof
    assume st: "\<forall>k. creation_step x account ident (run k) (run (Suc k))"
    have "creation_inv x (mu_config m) (run k)" for k by (induction k) (use inv that st creation_inv_step in blast)+
    with st have "creation_todo (run (Suc k)) < creation_todo (run k)" for k using creation_todo_step by blast
    then show False by (auto intro: wf_no_infinite_down_chainE [OF wf_less, of "\<lambda>k. creation_todo (run k)"])
  qed
  moreover have "panicked (cr_result c) \<or> cr_result c \<noteq> None \<and> mu_creating (cr_multi c) = [] \<and> cr_waited c"
    if "\<nexists>d. creation_step x account ident c d" using creation_progress [OF inv _ assms(3)] that by (metis (no_types))
  ultimately show ?thesis using inv by (auto simp: creation_inv_def ids_accounted_def)
qed


theorem creation_terminates_witness:
  "\<exists>c. (creation_step demo_conn_mx demo_account ''alice'')\<^sup>*\<^sup>*
       (creation_start (new_multi demo_conn_mx demo_account ''alice'' 1 False GetDefaultClientConfig []) ()) c \<and>
     map fst (mu_clients (cr_multi c)) = [0] \<and>
     (\<nexists>run. run 0 = c \<and> (\<forall>k. creation_step demo_conn_mx demo_account ''alice'' (run k) (run (Suc k))))"
proof -
  let ?m = "new_multi demo_conn_mx demo_account ''alice'' 1 False GetDefaultClientConfig []"
  from demo_created obtain c where c: "(creation_step demo_conn_mx demo_account ''alice'')\<^sup>*\<^sup>* (creation_start ?m ()) c"
    "map fst (mu_clients (cr_multi c)) = [0]" by (elim exE conjE)
  have mc: "MergeClientConfig (\<lambda>base c. Ok c) (Some GetDefaultClientConfig) = Ok GetDefaultClientConfig"
    using demo_defaults by (simp add: MergeClientConfig_def)
  have "\<forall>i v. NewClient (mx_client demo_conn_mx i) demo_account (addIdentifier ''alice'' i) (Some (mu_config ?m)) v \<noteq> None"
  proof (intro allI)
    fix i and v :: unit
    from demo_NewClient_any [of "Some GetDefaultClientConfig" "addIdentifier ''alice'' i"] mc
    show "NewClient (mx_client demo_conn_mx i) demo_account (addIdentifier ''alice'' i) (Some (mu_config ?m)) v \<noteq> None"
      by (auto simp: demo_conn_cx_def demo_cx_def demo_conn_mx_def new_multi_def Let_def)
  qed
  from creation_terminates [OF demo_make_multi c(1) this] have
    "\<nexists>run. run 0 = c \<and> (\<forall>k. creation_step demo_conn_mx demo_account ''alice'' (run k) (run (Suc k)))" by (rule conjunct1)
  with c show ?thesis by (intro exI [of _ c] conjI)
qed

text \<open>
  C32: Creating a multiclient may report failure although clients were created: from every state in which the caller
  has not returned yet and all goroutines have ended, there is a run in which the caller returns
  \<^verbatim>\<open>ErrCreateClientFailed\<close>, whatever clients there are, since the waiting goroutine signals failure in any case
  and a \<^verbatim>\<open>select\<close> takes any signal that is there; the clients stay connected and nothing refers to them.
\<close>

theorem creation_spurious_failure:
  assumes "cr_result c = None" and "mu_creating (cr_multi c) = []"
    and "make_multi x account ident n orig conf = Ok m" and "(creation_step x account ident)\<^sup>*\<^sup>* (creation_start m w) c"
  shows "\<exists>d. (creation_step x account ident)\<^sup>*\<^sup>* c d \<and> cr_result d = Some (Err ErrCreateClientFailed) \<and>
    mu_clients (cr_multi d) = mu_clients (cr_multi c) \<and> \<not> mu_isClosed (cr_multi d)"
proof -
  note inv = creation_reachable [OF assms(3,4)]
  let ?d = "if cr_waited c then c else c\<lparr>cr_multi := creation_done (cr_multi c), cr_waited := True, cr_fail := True\<rparr>"
  have d: "(creation_step x account ident)\<^sup>*\<^sup>* c ?d" using creation_step.waited [of c x account ident] assms(1,2) by auto
  have f: "cr_result ?d = None" "cr_fail ?d" using inv assms(1) by (auto simp: creation_inv_def)
  from rtranclp.rtrancl_into_rtrancl [OF d creation_step.give_up [OF f]] show ?thesis
    by (intro exI [of _ "?d\<lparr>cr_fail := False, cr_result := Some (Err ErrCreateClientFailed)\<rparr>"]) (use inv in \<open>auto simp: creation_inv_def creation_done_def\<close>)
qed

theorem creation_spurious_failure_witness:
  "\<exists>d. (creation_step demo_conn_mx demo_account ''alice'')\<^sup>*\<^sup>*
       (creation_start (new_multi demo_conn_mx demo_account ''alice'' 1 False GetDefaultClientConfig []) ()) d \<and>
     cr_result d = Some (Err ErrCreateClientFailed) \<and> map fst (mu_clients (cr_multi d)) = [0]"
proof -
  let ?R = "(creation_step demo_conn_mx demo_account ''alice'')\<^sup>*\<^sup>*"
  from demo_created obtain c where c: "?R (creation_start (new_multi demo_conn_mx demo_account ''alice'' 1 False GetDefaultClientConfig []) ()) c"
    "cr_result c = None" "mu_creating (cr_multi c) = []" "map fst (mu_clients (cr_multi c)) = [0]" by (elim exE conjE)
  from creation_spurious_failure [OF c(2,3) demo_make_multi c(1)] obtain d where
    d: "?R c d" "cr_result d = Some (Err ErrCreateClientFailed)" "mu_clients (cr_multi d) = mu_clients (cr_multi c)" by (elim exE conjE)
  from rtranclp_trans [OF c(1) d(1)] d(2,3) c(4) show ?thesis by (intro exI [of _ d] conjI) simp_all
qed

end
