(* ===== verification/Nkn_EndToEnd.thy ===== *)
theory Nkn_EndToEnd
  imports Nkn_MultiClient_Inv
begin

text \<open>
  From the application that sends with one multiclient to the sub-clients of another: the
  sub-clients of the sender seal the payload for the sub-clients of the receiver (\<^verbatim>\<open>client.go\<close>), and each receiving
  sub-client opens its copy and puts it into its queue. What the loops of the receiving multiclient
  (\<^verbatim>\<open>multiclient.go\<close>) make of it is in \<open>Nkn_Network\<close>. Here is also the way back: a reply reaches the call that waits for
  it. Composed are the lemmas of \<open>Nkn_Client_Msg\<close> and \<open>Nkn_MultiClient_Inv\<close>.
\<close>

section \<open>The addresses a sub-client sends to\<close>

definition final_dests :: "multi_client \<Rightarrow> int \<Rightarrow> string list \<Rightarrow> string list" where
  "final_dests m i dests =
     (if cc_CrossSendPolicy (mu_config m) \<noteq> CrossSendPolicyNone
      then addMultiClientPrefixForAllSubClients dests (expected_ids m)
      else addMultiClientPrefix dests i)"

lemma sendWithClient_final_dests:
  "map_of (mu_clients m) i = Some c \<Longrightarrow>
   sendWithClient x i dests p enc hold (m, w) = on_client i (client_send (mx_client x i) (final_dests m i dests) p enc hold) (m, w)"
  by (simp add: sendWithClient_def final_dests_def GetClient_def Let_def)

section \<open>Sub-clients of one program\<close>

text \<open>
  The sub-clients of a multiclient have their own connections and caches, but one cryptographic box, one
  encoding, one address format and one source of randomness.
\<close>

definition same_crypto :: "'w client_ext \<Rightarrow> 'w client_ext \<Rightarrow> bool" where
  "same_crypto y x \<longleftrightarrow> cx_box y = cx_box x \<and> cx_proto y = cx_proto x \<and> cx_rand y = cx_rand x \<and> ParseClientAddress y = ParseClientAddress x"

lemma same_crypto_fields:
  assumes "same_crypto y x"
  shows "cx_box y = cx_box x" "cx_proto y = cx_proto x" "cx_rand y = cx_rand x" "dest_pubkey y = dest_pubkey x"
    "shared_key y = shared_key x" "keys_coherent y = keys_coherent x" "getOrComputeSharedKey y = getOrComputeSharedKey x"
    "keys_agree y = keys_agree x" "decryptPayload y = decryptPayload x"
proof -
  from assms show e: "cx_box y = cx_box x" "cx_proto y = cx_proto x" "cx_rand y = cx_rand x" by (simp_all add: same_crypto_def)
  have a: "ParseClientAddress y = ParseClientAddress x" using assms by (simp add: same_crypto_def)
  show d: "dest_pubkey y = dest_pubkey x" by (intro ext) (unfold dest_pubkey_def a, rule refl)
  show s: "shared_key y = shared_key x" by (intro ext) (unfold shared_key_def e, rule refl)
  show "keys_coherent y = keys_coherent x" by (intro ext) (unfold keys_coherent_def s, rule refl)
  show g: "getOrComputeSharedKey y = getOrComputeSharedKey x" by (intro ext) (unfold getOrComputeSharedKey_def e, rule refl)
  show "keys_agree y = keys_agree x" by (intro ext) (unfold keys_agree_def d s, rule refl)
  show "decryptPayload y = decryptPayload x" by (intro ext) (unfold decryptPayload_def d g e, rule refl)
qed

lemma same_crypto_opens:
  assumes "same_crypto y x"
  shows "opens_as y secret im p = opens_as x secret im p"
  unfolding opens_as_def same_but_keys_def same_crypto_fields [OF assms] by (rule refl)

section \<open>Copies of a message\<close>

text \<open>
  A copy for sub-client \<open>j\<close> of the receiver: what some sub-client \<open>i\<close> of the sender has sealed, on the way through
  \<^verbatim>\<open>sendTimeout\<close>, for an address whose key is that of sub-client \<open>j\<close>, with its own address as the source.
\<close>

definition copy_of :: "'w multi_ext \<Rightarrow> multi_client \<Rightarrow> multi_client \<Rightarrow> string list \<Rightarrow> payload \<Rightarrow> int \<times> inbound_message \<Rightarrow> bool" where
  "copy_of x ma mb dests p cp \<longleftrightarrow>
     (case cp of (j, im) \<Rightarrow>
        \<exists>i a b u v ds plds s k. map_of (mu_clients ma) i = Some a \<and> map_of (mu_clients mb) j = Some b \<and>
          keys_coherent (mx_client x i) a \<and> cl_address a = addIdentifier (MultiClient_Address ma) i \<and>
          processDests (mx_client x i) a (final_dests ma i dests) u = (Ok ds, v) \<and>
          newPayloads (mx_client x i) ds p True (a, v) = (Ok plds, s) \<and> k < length ds \<and>
          keys_agree (mx_client x i) (cl_curveSecretKey a) (cl_address a) (cl_curveSecretKey b) (ds ! k) \<and>
          im_Src im = cl_address a \<and> im_Payload im = plds ! k)"

text \<open>What a sub-client has sealed when \<^verbatim>\<open>sendWithClient\<close> reports success are copies, for every sub-client they are sealed for.\<close>

lemma sendTimeout_seals:
  assumes "sendTimeout y dests p True hold t (a, w) = (Ok (), s)"
  shows "\<exists>ds v. processDests y a dests w = (Ok ds, v) \<and> (ds = [] \<or> (\<exists>plds s'. newPayloads y ds p True (a, v) = (Ok plds, s')))"
proof -
  from assms obtain ds v where d: "processDests y a dests w = (Ok ds, v)"
    and r: "(if length ds = 0 then ret () else bnd (newPayloads y ds p True) (\<lambda>plds.
      bnd (newOutboundMessages y ds plds (if hold <s 0 then 0 else hold)) (\<lambda>oms. write_all y t oms))) (a, v) = (Ok (), s)"
    unfolding sendTimeout_def Let_def by (auto elim!: bnd_OkE env_OkE)
  show ?thesis
  proof (cases "ds = []")
    case False
    with r obtain plds s' where "newPayloads y ds p True (a, v) = (Ok plds, s')" by (auto elim: bnd_OkE)
    with d show ?thesis by blast
  qed (use d in blast)
qed

lemma sendWithClient_copies:
  assumes "sendWithClient x i dests p True hold (ma, w) = (Ok (), s)" and "map_of (mu_clients ma) i = Some a"
    and "keys_coherent (mx_client x i) a" and "cl_address a = addIdentifier (MultiClient_Address ma) i"
  shows "\<exists>ds plds v. processDests (mx_client x i) a (final_dests ma i dests) w = (Ok ds, v) \<and>
    (\<forall>k j b h. k < length ds \<and> map_of (mu_clients mb) j = Some b \<and>
       keys_agree (mx_client x i) (cl_curveSecretKey a) (cl_address a) (cl_curveSecretKey b) (ds ! k) \<longrightarrow>
       copy_of x ma mb dests p (j, \<lparr>im_Src = cl_address a, im_Payload = plds ! k, im_PrevHash = h\<rparr>))"
proof -
  obtain r c' w' where c: "client_send (mx_client x i) (final_dests ma i dests) p True hold (a, w) = (r, (c', w'))" by (metis prod_cases3)
  with assms(1,2) have "r = Ok ()" by (auto simp: sendWithClient_final_dests on_client_def)
  with c obtain t where "sendTimeout (mx_client x i) (final_dests ma i dests) p True hold t (a, w) = (Ok (), (c', w'))"
    by (auto simp: client_send_def bnd_def obj_def)
  from sendTimeout_seals [OF this] obtain ds v plds s' where d: "processDests (mx_client x i) a (final_dests ma i dests) w = (Ok ds, v)"
    and n: "ds = [] \<or> newPayloads (mx_client x i) ds p True (a, v) = (Ok plds, s')" by blast
  show ?thesis
  proof (intro exI conjI allI impI)
    fix k j b h assume "k < length ds \<and> map_of (mu_clients mb) j = Some b \<and>
       keys_agree (mx_client x i) (cl_curveSecretKey a) (cl_address a) (cl_curveSecretKey b) (ds ! k)"
    with d n assms(2-4) show "copy_of x ma mb dests p (j, \<lparr>im_Src = cl_address a, im_Payload = plds ! k, im_PrevHash = h\<rparr>)"
      unfolding copy_of_def prod.case inbound_message.simps
      by (intro exI [of _ i] exI [of _ a] exI [of _ b] exI [of _ w] exI [of _ v] exI [of _ ds] exI [of _ plds] exI [of _ s'] exI [of _ k]) auto
  qed (rule d)
qed

lemma copy_opens:
  assumes "copy_of x ma mb dests p (j, im)" and "\<forall>i. same_crypto (mx_client x i) cx"
    and "box_laws (cx_box cx)" and "rand_laws (cx_rand cx)" and "proto_laws (cx_proto cx)"
  shows "\<exists>i b. map_of (mu_clients mb) j = Some b \<and> im_Src im = addIdentifier (MultiClient_Address ma) i \<and>
    opens_as cx (cl_curveSecretKey b) im p"
proof -
  from assms(1) obtain i a b u v ds plds s k where c: "map_of (mu_clients mb) j = Some b" "keys_coherent (mx_client x i) a"
    "cl_address a = addIdentifier (MultiClient_Address ma) i" "newPayloads (mx_client x i) ds p True (a, v) = (Ok plds, s)" "k < length ds"
    "keys_agree (mx_client x i) (cl_curveSecretKey a) (cl_address a) (cl_curveSecretKey b) (ds ! k)"
    "im_Src im = cl_address a" "im_Payload im = plds ! k" unfolding copy_of_def by auto
  have y: "same_crypto (mx_client x i) cx" using assms(2) by blast
  note f = same_crypto_fields [OF y]
  from sealed_opens_as [of "mx_client x i", unfolded f(1-3), OF assms(3-5) c(2,4-8)] same_crypto_opens [OF y]
  have "opens_as cx (cl_curveSecretKey b) im p" by simp
  with c show ?thesis by auto
qed

text \<open>What the loop of a multiclient takes from the queue of a sub-client.\<close>

definition take_received :: "('w, message recv) client_act" where
  "take_received = (\<lambda>(c, w). case OnMessage_Next (cl_OnMessage c) of (v, ev) \<Rightarrow> (Ok v, (c\<lparr>cl_OnMessage := ev\<rparr>, w)))"

section \<open>The way back\<close>

text \<open>
  A reply reaches sub-client \<open>i\<close> of the sender, which puts it into the channel that waits for it, number \<open>k\<close>; the goroutine
  that \<^verbatim>\<open>Send\<close> has left behind takes it from there and passes it on to the caller's channel, number \<open>n\<close>.
\<close>

definition take_reply :: "nat \<Rightarrow> ('w, message recv) client_act" where
  "take_reply k = (\<lambda>(c, w). case OnMessage_Next (cl_replyChans c ! k) of
     (v, ev) \<Rightarrow> (Ok v, (c\<lparr>cl_replyChans := (cl_replyChans c)[k := ev]\<rparr>, w)))"

definition arrive_reply :: "'w multi_ext \<Rightarrow> payload \<Rightarrow> int \<Rightarrow> nat \<Rightarrow> nat \<Rightarrow> inbound_message \<Rightarrow> ('w, unit) multi_act" where
  "arrive_reply x sent i k n im =
     bnd (on_client i (handle_inbound (mx_client x i) im)) (\<lambda>_.
     bnd (on_client i (take_reply k)) (\<lambda>v.
       case v of Received msg \<Rightarrow> pass_reply x sent n msg | _ \<Rightarrow> ret ()))"

lemma reply_data:
  assumes "proto_laws px" and "NewReplyPayload px rand data rid w = (Ok p, w')" and "data = DBytes d \<or> data = DString d"
  shows "payload_data px p = Ok d"
  using assms by (cases data) (auto simp: newPayload_defs payload_data_def proto_laws_def payload_type_defs split: if_splits)

lemma multi_emit_ok:
  assumes "multi_open m"
  shows "\<exists>oe w'. multi_emit x ev (m, w) = (Ok (), (m\<lparr>mu_OnMessageEvent := oe\<rparr>, w'))"
proof (cases "mu_OnMessageEvent m")
  case None
  then show ?thesis by (intro exI [of _ None] exI [of _ w]) (simp add: multi_emit_def)
next
  case (Some oe)
  let ?e = "ev (fst (cx_now (mx_cx x) w))"
  from Some assms have "fst (OnMessageEvent_receive ?e oe) = Ok ()" by (auto simp: multi_open_def intro: on_message_event.receive_open_ok)
  with Some show ?thesis
    by (intro exI [of _ "Some (snd (OnMessageEvent_receive ?e oe))"] exI [of _ "snd (cx_now (mx_cx x) w)"])
      (simp add: multi_emit_def bnd_def)
qed

lemma reply_handled:
  assumes "client_inv True y c" and "\<not> cl_isClosed c" and "opens_as y (cl_curveSecretKey c) im p" and "payload_data (cx_proto y) p = Ok d"
    and "pl_ReplyToId p \<noteq> []" and "Cache_Get y (pl_ReplyToId p) w = (Some k, w2)" and "k < length (cl_replyChans c)"
    and "cl_replyChans c ! k = NewOnMessage 1 False"
  shows "\<exists>c1 v1 c2. handle_inbound y im (c, w) = (Ok (), (c1, v1)) \<and> cl_OnMessage c2 = cl_OnMessage c \<and>
    take_reply k (c1, v1) = (Ok (Received (sealed_message im p d)), (c2, v1)) \<and> cl_replyChans c2 = cl_replyChans c"
proof -
  from assms(1,2) have k: "keys_coherent y c" "events_open c" by (auto simp: client_inv_def channels_open_def)
  from opened_inbound [OF assms(3,4) k(1), of w] assms(5) obtain b where same: "same_but_keys y (receipt_spawned im c) b"
    and h: "handle_inbound y im (c, w) = deliver_reply y (sealed_message im p d) (pl_ReplyToId p) (b, w)" by auto
  note b = same_but_keys_simps [OF same]
  let ?m = "sealed_message im p d" and ?w3 = "snd (Cache_Delete y (pl_ReplyToId p) w2)"
  let ?q = "(NewOnMessage 1 False)\<lparr>oe_C := oe_C (NewOnMessage 1 False)\<lparr>ch_buf := [?m]\<rparr>\<rparr>"
  from emit_event_ok [of b y "receive_event MessageEventTypeReceiveReply (cl_address b) ?m" ?w3] k(2) b(1) obtain oe v1 where
    e: "emit_event y (receive_event MessageEventTypeReceiveReply (cl_address b) ?m) (b, ?w3) = (Ok (), (b\<lparr>cl_OnMessageEvent := oe\<rparr>, v1))"
    by auto
  have q: "OnMessage_receive ?m (NewOnMessage 1 False) = (Ok (), ?q)" by (simp add: on_message.receive_room on_message.new_empty)
  have n: "OnMessage_Next ?q = (Received ?m, NewOnMessage 1 False)"
    by (simp add: OnMessage_defs on_next_def chan_recv_def new_on_event_def make_chan_def)
  let ?c1 = "b\<lparr>cl_OnMessageEvent := oe, cl_replyChans := (cl_replyChans c)[k := ?q]\<rparr>"
  have "deliver_reply y ?m (pl_ReplyToId p) (b, w) = (Ok (), (?c1, v1))"
    using assms(6-8) b(5) e q by (simp add: deliver_reply_def bnd_Ok)
  moreover have "take_reply k (?c1, v1) = (Ok (Received ?m), (?c1\<lparr>cl_replyChans := cl_replyChans c\<rparr>, v1))"
    using assms(7,8) n by (simp add: take_reply_def) (metis list_update_id)
  ultimately show ?thesis using h b(3) by (intro exI [of _ ?c1] exI [of _ v1] exI [of _ "?c1\<lparr>cl_replyChans := cl_replyChans c\<rparr>"]) simp
qed

lemma pass_reply_ok:
  assumes "multi_open m" and "n < length (mu_replyChans m)" and "mu_replyChans m ! n = NewOnMessage 1 False"
  shows "\<exists>m' w'. pass_reply x sent n raw (m, w) = (Ok (), (m', w')) \<and> mu_OnMessage m' = mu_OnMessage m \<and> mu_clients m' = mu_clients m \<and>
    ch_buf (oe_C (mu_replyChans m' ! n)) = [strip_source raw]"
proof -
  let ?ev = "\<lambda>t. (receive_event MessageEventTypeReceiveReply (MultiClient_Address m) (strip_source raw) t)\<lparr>me_MessageID := pl_MessageId sent\<rparr>"
  from multi_emit_ok [OF assms(1), of x ?ev w] obtain oe w' where e: "multi_emit x ?ev (m, w) = (Ok (), (m\<lparr>mu_OnMessageEvent := oe\<rparr>, w'))" by blast
  from e assms(2,3) show ?thesis
    by (simp add: pass_reply_def strip_source_def Let_def bnd_Ok on_message.receive_room on_message.new_empty)
qed

section \<open>A concrete pair of multiclients\<close>

definition demo_bcx :: "bytes list client_ext" where "demo_bcx = client_beside demo_cx"

lemma demo_bcx_fields [simp]:
  "cx_box demo_bcx = plain_box" "cx_proto demo_bcx = dotted_proto" "dest_pubkey demo_bcx = dest_pubkey demo_cx"
  "shared_key demo_bcx = shared_key demo_cx" and demo_bcx_world [simp]: "cx_rand demo_bcx n w = (Ok (replicate n zero_byte), w)" "cx_now demo_bcx w = (1000, w)"
proof -
  show b: "cx_box demo_bcx = plain_box" "cx_proto demo_bcx = dotted_proto" "cx_rand demo_bcx n w = (Ok (replicate n zero_byte), w)"
    "cx_now demo_bcx w = (1000, w)"
    by (simp_all add: demo_bcx_def client_beside_def demo_cx_def beside_def zero_rand_def)
  have c: "cx_box demo_cx = plain_box" "ParseClientAddress demo_bcx = ParseClientAddress demo_cx"
    by (simp_all add: demo_bcx_def client_beside_def demo_cx_def)
  show "dest_pubkey demo_bcx = dest_pubkey demo_cx" by (intro ext) (unfold dest_pubkey_def c, rule refl)
  show "shared_key demo_bcx = shared_key demo_cx" by (intro ext) (unfold shared_key_def b c, rule refl)
qed

lemma demo_bcx_laws: "box_laws (cx_box demo_bcx)" "rand_laws (cx_rand demo_bcx)" "proto_laws (cx_proto demo_bcx)"
  using plain_box_laws dotted_proto_laws by (auto simp: rand_laws_def)

lemma demo_bcx_clients: "mx_client cache_mx i = demo_bcx"
  by (simp add: cache_mx_def demo_bcx_def)

definition demo_sender :: multi_client where
  "demo_sender = (demo_multi 0)\<lparr>mu_clients := [(- 1, demo_client), (0, demo_client\<lparr>cl_address := addIdentifier ''alice'' 0\<rparr>)]\<rparr>"

definition demo_answer :: payload where "demo_answer = demo_payload\<lparr>pl_MessageId := [], pl_ReplyToId := ''id''\<rparr>"

lemma demo_bcx_seals:
  assumes "keys_coherent demo_bcx a" and "p = demo_payload \<or> p = demo_answer"
  shows "\<exists>plds s. newPayloads demo_bcx [dst] p True (a, w) = (Ok plds, s)"
proof -
  obtain raw where raw: "MarshalPayload dotted_proto p = Ok raw"
    using assms(2) by (auto simp: dotted_proto_def demo_payload_def demo_answer_def BinaryType_def)
  from getOrComputeSharedKey_Ok [OF assms(1), of demo_key demo_key w] obtain a' where
    "getOrComputeSharedKey demo_bcx demo_key (a, w) = (Ok demo_key, (a', w))" by (auto simp: demo_shared_key)
  with raw show ?thesis
    by (simp add: newPayloads_def encryptPayload_def seal_for_def encrypt_def bnd_Ok bnd_def dotted_proto_def)
qed

lemma demo_bcx_dest: "processDests demo_bcx a [addIdentifier demo_dest i] w = (Ok [addIdentifier demo_dest i], w)"
proof -
  have len: "length demo_dest = 64" and nd: "dot \<notin> set demo_dest" "demo_dest \<noteq> []" by (simp_all add: demo_dest_def)
  have "Split (addIdentifier demo_dest i) = (if i < 0 then [demo_dest] else [sub_id i, demo_dest])"
    using nd by (simp add: Split_plain addIdentifier_nonneg sub_id_no_dot Split_prefix)
  moreover have "addIdentifier demo_dest i = (if i < 0 then demo_dest else sub_id i @ dot # demo_dest)"
    using nd by (simp add: addIdentifier_nonneg)
  ultimately show ?thesis using len nd
    by (auto simp: processDests_def processDest_def Let_def PublicKeySize_def attempt_def bnd_def)
qed

lemma demo_copy:
  assumes "map_of (mu_clients demo_sender) i = Some a" and "map_of (mu_clients mr) j = Some b" and "p = demo_payload \<or> p = demo_answer"
  shows "\<exists>im. im_Src im = cl_address a \<and> copy_of cache_mx demo_sender mr [demo_dest] p (j, im)"
proof -
  have a: "keys_coherent demo_bcx a" "cl_address a = addIdentifier (MultiClient_Address demo_sender) i"
    using assms(1) by (auto simp: demo_sender_def keys_coherent_def demo_client_def MultiClient_Address_def demo_multi_def
      ClientAddr_String_def NewClientAddr_def addIdentifier_def split: if_splits)
  from demo_bcx_seals [OF a(1) assms(3), of "addIdentifier demo_dest i" "[]"] obtain plds s where
    p: "newPayloads demo_bcx [addIdentifier demo_dest i] p True (a, []) = (Ok plds, s)" by blast
  have f: "final_dests demo_sender i [demo_dest] = [addIdentifier demo_dest i]"
    by (simp add: final_dests_def demo_sender_def demo_multi_def CrossSendPolicyNone_def addMultiClientPrefix_def)
  have k: "keys_agree demo_bcx (cl_curveSecretKey a) (cl_address a) (cl_curveSecretKey b) ([addIdentifier demo_dest i] ! 0)"
    by (simp add: keys_agree_def demo_shared_key)
  let ?im = "\<lparr>im_Src = cl_address a, im_Payload = plds ! 0, im_PrevHash = []\<rparr>"
  have "copy_of cache_mx demo_sender mr [demo_dest] p (j, ?im)"
    unfolding copy_of_def prod.case demo_bcx_clients f
    by (rule exI [of _ i], rule exI [of _ a], rule exI [of _ b], rule exI [of _ "[]"], rule exI [of _ "[]"],
        rule exI [of _ "[addIdentifier demo_dest i]"], rule exI [of _ plds], rule exI [of _ s], rule exI [of _ 0])
      (use assms a p k in \<open>simp add: f demo_bcx_dest\<close>)
  then show ?thesis by (intro exI [of _ ?im]) simp
qed

lemma demo_sender_address: "MultiClient_Address demo_sender = ''alice''" "plain_addr (MultiClient_Address demo_sender)"
  by (simp_all add: MultiClient_Address_def demo_sender_def demo_multi_def plain_if_no_dot)

lemma demo_same: "\<forall>i. same_crypto (mx_client cache_mx i) demo_bcx"
  by (simp add: demo_bcx_clients same_crypto_def)

lemma demo_sub_address: "addIdentifier ''alice'' 0 = ''__0__.alice''" by code_simp

text \<open>A multiclient whose only sub-client waits for a reply to the message with the id \<open>id\<close>.\<close>

definition demo_asking :: multi_client where
  "demo_asking = (demo_multi 0)\<lparr>mu_clients := [(1, demo_waiting_client)], mu_replyChans := [NewOnMessage 1 False]\<rparr>"

section \<open>Properties\<close>



end
