(* ===== verification/Nkn_Network.thy ===== *)
theory Nkn_Network
  imports Nkn_EndToEnd Nkn_MultiClient_Race
begin

text \<open>
  A multiclient that receives, with everything that runs at once: the copies of a message that are on their way, the
  sub-clients that handle what arrives for them (\<^verbatim>\<open>client.go\<close>), their queues, and the receiving loops of the multiclient with
  their atomic actions (\<^verbatim>\<open>multiclient.go\<close>, as in \<open>Nkn_MultiClient_Race\<close>). \<open>network_step\<close> does one action of any of them.
  Shown is what the application gets of one message, however these actions interleave.
\<close>

section \<open>Steps\<close>

text \<open>
  A state is the list of copies that have not arrived yet, each with the sub-client it is for, and the state of the receiving
  loops. A copy may arrive at any time, and the sub-client handles it at once. The loop of a sub-client takes
  the first message of the sub-client's queue and notifies; its other actions are those of \<open>recv_step\<close>.
\<close>

inductive network_step :: "'w multi_ext \<Rightarrow> ('w \<Rightarrow> bytes set) \<Rightarrow>
    (int \<times> inbound_message) list \<times> 'w race \<Rightarrow> (int \<times> inbound_message) list \<times> 'w race \<Rightarrow> bool" for y keys where
  handle: "on_client j (handle_inbound (mx_client y j) im) (ra_multi s, ra_env s) = (r, (m, w)) \<Longrightarrow>
     network_step y keys (before @ (j, im) # after, s) (before @ after, s\<lparr>ra_multi := m, ra_env := w\<rparr>)"
| take: "on_client i take_received (ra_multi s, ra_env s) = (Ok (Received raw), (m, w)) \<Longrightarrow>
     recv_step y keys (s\<lparr>ra_multi := m, ra_env := w\<rparr>) t \<Longrightarrow> ra_taken t = ra_taken s @ [(i, strip_source raw)] \<Longrightarrow>
     network_step y keys (copies, s) (copies, t)"
| loop: "recv_step y keys s t \<Longrightarrow> ra_taken t = ra_taken s \<Longrightarrow> network_step y keys (copies, s) (copies, t)"

text \<open>
  Runs. A calm one has no two loops between the look-up and the entry of the same id at a time.
\<close>

definition network_run :: "bool \<Rightarrow> 'w multi_ext \<Rightarrow> ('w \<Rightarrow> bytes set) \<Rightarrow>
    (int \<times> inbound_message) list \<times> 'w race \<Rightarrow> (int \<times> inbound_message) list \<times> 'w race \<Rightarrow> bool" where
  "network_run calm y keys = (\<lambda>a b. (calm \<longrightarrow> apart (snd a)) \<and> network_step y keys a b)\<^sup>*\<^sup>*"

text \<open>Nothing is on its way, no queue of a sub-client holds a message, and every loop waits.\<close>

definition network_idle :: "(int \<times> inbound_message) list \<times> 'w race \<Rightarrow> bool" where
  "network_idle a \<longleftrightarrow> fst a = [] \<and> (\<forall>i. ra_stage (snd a) i = Waiting) \<and>
     (\<forall>j c. map_of (mu_clients (ra_multi (snd a))) j = Some c \<longrightarrow> ch_buf (oe_C (cl_OnMessage c)) = [])"

section \<open>Sub-clients\<close>

text \<open>
  A sub-client that receives into a queue with room for at least one message, which holds good messages only, with the key it
  has in the multiclient that the copies were sealed for.
\<close>

definition line_of :: "'w client_ext \<Rightarrow> (message \<Rightarrow> bool) \<Rightarrow> client \<Rightarrow> client \<Rightarrow> bool" where
  "line_of y good b c \<longleftrightarrow> client_inv True y c \<and> \<not> cl_isClosed c \<and> \<not> oe_Callback (cl_OnMessage c) \<and> 0 < ch_cap (oe_C (cl_OnMessage c)) \<and>
     length (ch_buf (oe_C (cl_OnMessage c))) \<le> ch_cap (oe_C (cl_OnMessage c)) \<and> (\<forall>raw \<in> set (ch_buf (oe_C (cl_OnMessage c))). good raw) \<and>
     cl_curveSecretKey c = cl_curveSecretKey b"

definition lines_of :: "'w multi_ext \<Rightarrow> (int \<Rightarrow> message \<Rightarrow> bool) \<Rightarrow> multi_client \<Rightarrow> multi_client \<Rightarrow> bool" where
  "lines_of y good mb m \<longleftrightarrow>
     (\<forall>j. rel_option (line_of (mx_client y j) (good j)) (map_of (mu_clients mb) j) (map_of (mu_clients m) j))"

text \<open>All sub-clients are open, with empty queues.\<close>

definition lines_ready :: "'w multi_ext \<Rightarrow> multi_client \<Rightarrow> bool" where
  "lines_ready y m \<longleftrightarrow> (\<forall>j c. map_of (mu_clients m) j = Some c \<longrightarrow>
     client_inv True (mx_client y j) c \<and> \<not> cl_isClosed c \<and> \<not> oe_Callback (cl_OnMessage c) \<and>
     ch_buf (oe_C (cl_OnMessage c)) = [] \<and> 0 < ch_cap (oe_C (cl_OnMessage c)))"

lemma lines_ready_of: "lines_ready y m \<Longrightarrow> lines_of y good m m"
  unfolding lines_of_def by (intro allI, rename_tac j, case_tac "map_of (mu_clients m) j") (auto simp: lines_ready_def line_of_def)

lemma lines_of_get:
  assumes "lines_of y good mb m" and "map_of (mu_clients m) j = Some c"
  obtains b where "map_of (mu_clients mb) j = Some b" and "line_of (mx_client y j) (good j) b c"
  using assms unfolding lines_of_def by (metis option.rel_cases option.sel option.distinct(1))

lemma lines_of_find:
  assumes "lines_of y good mb m" and "map_of (mu_clients mb) j = Some b"
  obtains c where "map_of (mu_clients m) j = Some c" and "line_of (mx_client y j) (good j) b c"
  using assms unfolding lines_of_def by (metis option.rel_cases option.sel option.distinct(1))

lemma lines_of_update:
  assumes "lines_of y good mb m" and "map_of (mu_clients mb) j = Some b" and "line_of (mx_client y j) (good j) b c"
    and "mu_clients m' = AList.update j c (mu_clients m)"
  shows "lines_of y good mb m'"
  using assms unfolding lines_of_def by (auto simp: update_conv')

lemma handled:
  assumes "line_of y good b c" and "opens_as y (cl_curveSecretKey b) im p" and "payload_data (cx_proto y) p = Ok d" and "pl_ReplyToId p = []"
    and "good (with_reply (sealed_message im p d))"
  shows "\<exists>c1 v1. handle_inbound y im (c, w) = (Ok (), (c1, v1)) \<and> v1 \<in> {w, snd (cx_now y w)} \<and> line_of y good b c1 \<and>
    ch_buf (oe_C (cl_OnMessage c1)) =
      take (ch_cap (oe_C (cl_OnMessage c))) (ch_buf (oe_C (cl_OnMessage c)) @ [with_reply (sealed_message im p d)]) \<and>
    ch_cap (oe_C (cl_OnMessage c1)) = ch_cap (oe_C (cl_OnMessage c))"
proof -
  let ?m = "with_reply (sealed_message im p d)" and ?q = "cl_OnMessage c"
  from assms(1) have r: "keys_coherent y c" "events_open c" "\<not> cl_isClosed c" "\<not> oe_Callback ?q" "0 < ch_cap (oe_C ?q)"
    "length (ch_buf (oe_C ?q)) \<le> ch_cap (oe_C ?q)" "client_inv True y c" "\<forall>raw \<in> set (ch_buf (oe_C ?q)). good raw"
    "cl_curveSecretKey c = cl_curveSecretKey b"
    by (auto simp: line_of_def client_inv_def channels_open_def)
  from sealed_inbound_delivered [OF _ assms(3,4) r(1-3), of im w] assms(2) r(9) obtain b' oe v where
    h: "handle_inbound y im (c, w) = (Ok (), (b'\<lparr>cl_OnMessageEvent := oe, cl_OnMessage := snd (OnMessage_receive ?m ?q)\<rparr>, v))"
    and s: "same_but_keys y (receipt_spawned im c) b'" "v \<in> {w, snd (cx_now y w)}" by auto
  let ?q' = "?q\<lparr>oe_C := oe_C ?q\<lparr>ch_buf := take (ch_cap (oe_C ?q)) (ch_buf (oe_C ?q) @ [?m])\<rparr>\<rparr>"
  let ?c1 = "b'\<lparr>cl_OnMessageEvent := oe, cl_OnMessage := ?q'\<rparr>"
  have "OnMessage_receive ?m ?q = (Ok (), ?q')"
    using r(2,4,6) by (cases "length (ch_buf (oe_C ?q)) < ch_cap (oe_C ?q)")
      (simp_all add: events_open_def on_message.receive_room on_message.receive_full)
  with h have h: "handle_inbound y im (c, w) = (Ok (), (?c1, v))" by simp
  from keepsD_eq [OF keeps_handle_inbound _ h] r(7) have "client_inv True y ?c1" by simp
  moreover have "cl_curveSecretKey b' = cl_curveSecretKey c" using s(1) by (auto simp: same_but_keys_def)
  ultimately have "line_of y good b ?c1" using r assms(5) same_but_keys_simps [OF s(1)]
    by (auto simp: line_of_def dest: in_set_takeD)
  with h s(2) show ?thesis by (intro exI [of _ ?c1] exI [of _ v]) simp
qed

lemma taken:
  assumes "line_of y good b c" and "take_received (c, w) = (Ok (Received raw), (c', w'))"
  shows "good raw \<and> w' = w \<and> line_of y good b c'"
proof -
  from assms obtain rest where q: "ch_buf (oe_C (cl_OnMessage c)) = raw # rest" "w' = w"
      "c' = c\<lparr>cl_OnMessage := (cl_OnMessage c)\<lparr>oe_C := (oe_C (cl_OnMessage c))\<lparr>ch_buf := rest\<rparr>\<rparr>\<rparr>"
    by (auto simp: take_received_def OnMessage_defs on_next_def chan_recv_def split: list.splits if_splits)
  with assms(1) show ?thesis by (auto simp: line_of_def client_inv_defs)
qed

section \<open>The invariant\<close>

text \<open>What handling a copy does to a sub-client that is ready for it: a good message is in its queue afterwards, and not more than one is added.\<close>

definition handles_copy :: "'w multi_ext \<Rightarrow> ('w \<Rightarrow> bytes set) \<Rightarrow> (int \<Rightarrow> message \<Rightarrow> bool) \<Rightarrow> multi_client \<Rightarrow> int \<times> inbound_message \<Rightarrow> bool" where
  "handles_copy y keys good mb cp \<longleftrightarrow> (case cp of (j, im) \<Rightarrow> \<exists>b. map_of (mu_clients mb) j = Some b \<and>
     (\<forall>c w. line_of (mx_client y j) (good j) b c \<longrightarrow>
        (\<exists>c1 v1. handle_inbound (mx_client y j) im (c, w) = (Ok (), (c1, v1)) \<and> keys v1 = keys w \<and>
           line_of (mx_client y j) (good j) b c1 \<and> ch_buf (oe_C (cl_OnMessage c1)) \<noteq> [] \<and>
           length (ch_buf (oe_C (cl_OnMessage c1))) \<le> Suc (length (ch_buf (oe_C (cl_OnMessage c)))))))"

lemma handles_copyE:
  assumes "handles_copy y keys good mb (j, im)"
  obtains b where "map_of (mu_clients mb) j = Some b"
    and "\<And>c v. line_of (mx_client y j) (good j) b c \<Longrightarrow> \<exists>c1 v1. handle_inbound (mx_client y j) im (c, v) = (Ok (), (c1, v1)) \<and>
      keys v1 = keys v \<and> line_of (mx_client y j) (good j) b c1 \<and> ch_buf (oe_C (cl_OnMessage c1)) \<noteq> [] \<and>
      length (ch_buf (oe_C (cl_OnMessage c1))) \<le> Suc (length (ch_buf (oe_C (cl_OnMessage c))))"
  using assms unfolding handles_copy_def prod.case by blast

definition queued :: "multi_client \<Rightarrow> bool" where
  "queued m \<longleftrightarrow> (\<exists>j c. map_of (mu_clients m) j = Some c \<and> ch_buf (oe_C (cl_OnMessage c)) \<noteq> [])"

text \<open>
  With \<open>q\<close> the queue of the application and \<open>K\<close> the ids known at the start. Whatever has been taken is good, and a message that
  was on its way has left a trace.
\<close>

definition network_inv :: "'w multi_ext \<Rightarrow> ('w \<Rightarrow> bytes set) \<Rightarrow> bool \<Rightarrow> (int \<Rightarrow> message \<Rightarrow> bool) \<Rightarrow> multi_client \<Rightarrow> message on_event \<Rightarrow> bytes set \<Rightarrow>
    (int \<times> inbound_message) list \<Rightarrow> (int \<times> inbound_message) list \<times> 'w race \<Rightarrow> bool" where
  "network_inv y keys calm good mb q K copies a \<longleftrightarrow> (case a of (cps, s) \<Rightarrow>
     race_open q s \<and> arrival_inv K (arrivals_of keys s) \<and> (calm \<longrightarrow> once_inv (arrivals_of keys s)) \<and>
     lines_of y good mb (ra_multi s) \<and> set cps \<subseteq> set copies \<and>
     (\<forall>(i, msg) \<in> set (ra_taken s). \<exists>raw. good i raw \<and> msg = strip_source raw) \<and>
     (cps \<noteq> [] \<or> ra_taken s \<noteq> [] \<or> queued (ra_multi s)))"

text \<open>The actions of the loops leave the sub-clients alone.\<close>

lemma keeps_clients:
  "keeps (\<lambda>s. mu_clients (fst s) = C) (notify_received x i msg)" "keeps (\<lambda>s. mu_clients (fst s) = C) (seen_before x msg)"
  "keeps (\<lambda>s. mu_clients (fst s) = C) (mark_seen x msg)" "keeps (\<lambda>s. mu_clients (fst s) = C) (hand_over msg)"
  unfolding receive_defs multi_emit_def Let_def by (intro keeps_intros keeps_focus; simp)+

lemma recv_step_clients: "recv_step x keys s t \<Longrightarrow> mu_clients (ra_multi t) = mu_clients (ra_multi s)"
proof (induction rule: recv_step.induct)
  case (notify s i raw msg r t)
  from keepsD_eq [OF keeps_clients(1) _ notify(4), of "mu_clients (ra_multi s)"] show ?case by simp
next
  case (look s i msg seen t)
  from keepsD_eq [OF keeps_clients(2) _ look(2), of "mu_clients (ra_multi s)"] show ?case by simp
next
  case (mark s i msg u t)
  from keepsD_eq [OF keeps_clients(3) _ mark(2), of "mu_clients (ra_multi s)"] show ?case by simp
next
  case (deliver s i msg b t)
  from keepsD_eq [OF keeps_clients(4) _ deliver(2), of "mu_clients (ra_multi s)"] show ?case by simp
qed simp

lemma race_open_moved:
  "race_open q (s\<lparr>ra_multi := (ra_multi s)\<lparr>mu_clients := C\<rparr>, ra_env := w\<rparr>) \<longleftrightarrow> race_open q s"
  by (simp add: race_open_def receiving_def multi_open_def)

lemma arrivals_of_moved: "keys w = keys (ra_env s) \<Longrightarrow> arrivals_of keys (s\<lparr>ra_multi := m, ra_env := w\<rparr>) = arrivals_of keys s"
  by (simp add: arrivals_of_def)

text \<open>A step of the loops keeps what the invariant says of them.\<close>

lemma loops_inv_step:
  assumes "recv_step x keys s t" and "msg_cache_laws x keys" and "race_open q s" and "arrival_inv K (arrivals_of keys s)"
    and "calm \<longrightarrow> apart s \<and> once_inv (arrivals_of keys s)"
  shows "race_open q t" and "arrival_inv K (arrivals_of keys t)" and "calm \<longrightarrow> once_inv (arrivals_of keys t)"
proof -
  from recv_step_refines [OF assms(1-3)] have r: "race_open q t" "arrival_step (arrivals_of keys s) (arrivals_of keys t)" by blast+
  show "race_open q t" by (rule r)
  show "arrival_inv K (arrivals_of keys t)" by (rule arrival_protocol.step_inv [OF assms(4) r(2)])
  have "given_inv K (arrivals_of keys s)" using assms(4) by (simp add: arrival_inv_def)
  with once_inv_step [OF r(2)] assms(5) show "calm \<longrightarrow> once_inv (arrivals_of keys t)"
    by (simp add: apart_def arrivals_of_def)
qed

lemma network_inv_step:
  assumes "network_step y keys a b" and "msg_cache_laws y keys" and "\<forall>cp \<in> set copies. handles_copy y keys good mb cp"
    and "calm \<longrightarrow> apart (snd a)" and "network_inv y keys calm good mb q K copies a"
  shows "network_inv y keys calm good mb q K copies b"
  using assms(1)
proof cases
  case (handle j im s r m w before after)
  from assms(5) handle(1) have i: "race_open q s" "arrival_inv K (arrivals_of keys s)" "calm \<longrightarrow> once_inv (arrivals_of keys s)"
    "lines_of y good mb (ra_multi s)" "set (before @ (j, im) # after) \<subseteq> set copies"
    "\<forall>(i, msg) \<in> set (ra_taken s). \<exists>raw. good i raw \<and> msg = strip_source raw" by (simp_all add: network_inv_def)
  from i(5) assms(3) have "handles_copy y keys good mb (j, im)" by auto
  from handles_copyE [OF this] obtain b0 where b0: "map_of (mu_clients mb) j = Some b0" and
    h: "\<And>c v. line_of (mx_client y j) (good j) b0 c \<Longrightarrow> \<exists>c1 v1. handle_inbound (mx_client y j) im (c, v) = (Ok (), (c1, v1)) \<and>
       keys v1 = keys v \<and> line_of (mx_client y j) (good j) b0 c1 \<and> ch_buf (oe_C (cl_OnMessage c1)) \<noteq> []" by metis
  from lines_of_find [OF i(4) b0] obtain c where c: "map_of (mu_clients (ra_multi s)) j = Some c" "line_of (mx_client y j) (good j) b0 c" .
  from h [OF c(2), of "ra_env s"] obtain c1 v1 where n: "handle_inbound (mx_client y j) im (c, ra_env s) = (Ok (), (c1, v1))" "keys v1 = keys (ra_env s)"
    "line_of (mx_client y j) (good j) b0 c1" "ch_buf (oe_C (cl_OnMessage c1)) \<noteq> []" by blast
  with handle(3) c(1) have m: "m = (ra_multi s)\<lparr>mu_clients := AList.update j c1 (mu_clients (ra_multi s))\<rparr>" "w = v1"
    by (auto simp: on_client_def)
  have "lines_of y good mb m" by (rule lines_of_update [OF i(4) b0 n(3)]) (simp add: m)
  moreover have "queued m" using n(4) by (auto simp: queued_def m update_conv')
  ultimately show ?thesis using i handle(2) n(2) unfolding network_inv_def m by (simp add: race_open_moved arrivals_of_moved)
next
  case (take i s raw m w t cps)
  from assms(5) take(1) have i: "race_open q s" "arrival_inv K (arrivals_of keys s)" "calm \<longrightarrow> once_inv (arrivals_of keys s)"
    "lines_of y good mb (ra_multi s)" "set cps \<subseteq> set copies"
    "\<forall>(i, msg) \<in> set (ra_taken s). \<exists>raw. good i raw \<and> msg = strip_source raw" by (simp_all add: network_inv_def)
  from take(3) obtain c c1 w1 where c: "map_of (mu_clients (ra_multi s)) i = Some c" "take_received (c, ra_env s) = (Ok (Received raw), (c1, w1))"
    "m = (ra_multi s)\<lparr>mu_clients := AList.update i c1 (mu_clients (ra_multi s))\<rparr>" "w = w1"
    by (auto simp: on_client_def split: option.splits prod.splits)
  from lines_of_get [OF i(4) c(1)] obtain b0 where b0: "map_of (mu_clients mb) i = Some b0" "line_of (mx_client y i) (good i) b0 c" .
  from taken [OF b0(2) c(2)] have n: "good i raw" "w1 = ra_env s" "line_of (mx_client y i) (good i) b0 c1" by auto
  let ?s = "s\<lparr>ra_multi := m, ra_env := w\<rparr>"
  have "lines_of y good mb m" by (rule lines_of_update [OF i(4) b0(1) n(3)]) (simp add: c(3))
  then have "lines_of y good mb (ra_multi t)" using recv_step_clients [OF take(4)] by (simp add: lines_of_def)
  moreover have "race_open q ?s" using i(1) unfolding c(3) by (simp add: race_open_moved)
  moreover have "arrivals_of keys ?s = arrivals_of keys s" using n(2) c(4) by (simp add: arrivals_of_def)
  moreover have "apart ?s = apart s" by (simp add: apart_def)
  ultimately show ?thesis using loops_inv_step [OF take(4) assms(2), of q K calm] i assms(4) take(1,2,5) n(1)
    unfolding network_inv_def by auto
next
  case (loop s t cps)
  from assms(5) loop(1) have i: "race_open q s" "arrival_inv K (arrivals_of keys s)" "calm \<longrightarrow> once_inv (arrivals_of keys s)"
    "lines_of y good mb (ra_multi s)" by (simp_all add: network_inv_def)
  have "mu_clients (ra_multi t) = mu_clients (ra_multi s)" by (rule recv_step_clients [OF loop(3)])
  then show ?thesis using loops_inv_step [OF loop(3) assms(2) i(1,2)] i assms(4,5) loop(1,2,4)
    by (auto simp: network_inv_def lines_of_def queued_def)
qed

lemma network_inv_run:
  assumes "network_run calm y keys a b" and "msg_cache_laws y keys" and "\<forall>cp \<in> set copies. handles_copy y keys good mb cp"
    and "network_inv y keys calm good mb q K copies a"
  shows "network_inv y keys calm good mb q K copies b"
  using assms(1) unfolding network_run_def
proof (induction rule: rtranclp_induct)
  case (step b c)
  then show ?case using network_inv_step [OF _ assms(2,3)] by blast
qed (rule assms(4))

lemma network_inv_start:
  assumes "receiving mb" and "lines_ready y mb" and "copies \<noteq> []"
  shows "network_inv y keys calm good mb (mu_OnMessage mb) (keys w) copies (copies, race_start mb w)"
proof -
  have "arrivals_start (keys w) (arrivals_of keys (race_start mb w))" by (simp add: arrivals_start_def arrivals_of_def race_start_def)
  from arrival_protocol.start_inv [OF this] race_start_open [OF assms(1)] lines_ready_of [OF assms(2)] assms(3) once_inv_start [of keys mb w]
  show ?thesis by (simp add: network_inv_def) (simp add: race_start_def)
qed

text \<open>
  What is left when nothing is on its way: the application has at least one message, all of them are good, none is from the
  same sub-client as another, and after a calm run there is one.
\<close>

lemma network_outcome:
  assumes "network_inv y keys calm good mb q K copies a" and "network_idle a"
    and "\<And>i raw. good i raw \<Longrightarrow> i \<in> I \<and> delivered raw = M \<and> m_MessageID raw = k" and "finite I" and "k \<notin> K"
    and "\<not> oe_Callback q" and "\<not> ch_closed (oe_C q)" and "length (ch_buf (oe_C q)) \<le> ch_cap (oe_C q)"
  shows "\<exists>n. 1 \<le> n \<and> n \<le> card I \<and> (calm \<longrightarrow> n = 1) \<and>
    ch_buf (oe_C (mu_OnMessage (ra_multi (snd a)))) = take (ch_cap (oe_C q)) (ch_buf (oe_C q) @ replicate n M)"
proof -
  obtain cps s where a: "a = (cps, s)" by (cases a)
  from assms(1) have inv: "race_open q s" "arrival_inv K (arrivals_of keys s)" "calm \<longrightarrow> once_inv (arrivals_of keys s)"
    "\<forall>(i, msg) \<in> set (ra_taken s). \<exists>raw. good i raw \<and> msg = strip_source raw" "cps \<noteq> [] \<or> ra_taken s \<noteq> [] \<or> queued (ra_multi s)"
    by (simp_all add: network_inv_def a)
  from assms(2) have idle: "cps = []" "\<forall>i. ra_stage s i = Waiting" "\<not> queued (ra_multi s)" by (auto simp: network_idle_def a queued_def)
  have tk: "i \<in> I \<and> with_reply msg = M \<and> m_MessageID msg = k" if "(i, msg) \<in> set (ra_taken s)" for i msg
    using inv(4) that assms(3) by (fastforce simp: delivered_def strip_source_def)
  have ids: "(m_MessageID \<circ> snd) ` set (ra_given s) = (m_MessageID \<circ> snd) ` set (ra_taken s) - K"
    using all_given [OF inv(2)] idle(2) by (simp add: arrivals_of_def)
  have sub: "set (ra_given s) \<subseteq> set (ra_taken s)" and ky: "distinct (map key_of (ra_given s))"
    using inv(2) by (auto simp: arrival_inv_def given_inv_def arrivals_of_def)
  let ?n = "length (ra_given s)"
  have gv: "fst g \<in> I \<and> with_reply (snd g) = M \<and> m_MessageID (snd g) = k" if "g \<in> set (ra_given s)" for g
    using tk [of "fst g" "snd g"] sub that by auto
  from inv(5) idle obtain i msg where "(i, msg) \<in> set (ra_taken s)" by (cases "ra_taken s") auto
  with tk ids assms(5) have "ra_given s \<noteq> []" by force
  then have n1: "1 \<le> ?n" by (cases "ra_given s") simp_all
  have "distinct (map fst (ra_given s))"
    using ky gv unfolding distinct_map by (auto simp: key_of_def inj_on_def)
  then have "?n = card (fst ` set (ra_given s))" using distinct_card [of "map fst (ra_given s)"] by simp
  also have "\<dots> \<le> card I" using gv by (intro card_mono assms(4)) auto
  finally have nI: "?n \<le> card I" .
  have one: "?n = 1" if calm
  proof -
    have "distinct (map (m_MessageID \<circ> snd) (ra_given s))" using inv(3) that by (simp add: once_inv_def arrivals_of_def)
    then have "?n = card ((m_MessageID \<circ> snd) ` set (ra_given s))" using distinct_card [of "map (m_MessageID \<circ> snd) (ra_given s)"] by simp
    also have "\<dots> \<le> card {k}" using gv by (intro card_mono) auto
    finally show ?thesis using n1 by simp
  qed
  have "map (with_reply \<circ> snd) (ra_given s) = replicate ?n M" using gv by (intro nth_equalityI) simp_all
  with on_message.receive_all_queued [OF assms(6-8), of "replicate ?n M"] inv(1)
  have "mu_OnMessage (ra_multi s) = q\<lparr>oe_C := oe_C q\<lparr>ch_buf := take (ch_cap (oe_C q)) (ch_buf (oe_C q) @ replicate ?n M)\<rparr>\<rparr>"
    by (simp add: race_open_def)
  then have "ch_buf (oe_C (mu_OnMessage (ra_multi (snd a)))) = take (ch_cap (oe_C q)) (ch_buf (oe_C q) @ replicate ?n M)" by (simp add: a)
  with n1 nI one show ?thesis by blast
qed

section \<open>Runs to the end\<close>

text \<open>Between the arrivals, when the loops wait and have taken everything.\<close>

definition settled_down :: "'w race \<Rightarrow> bool" where
  "settled_down s \<longleftrightarrow> (\<forall>i. ra_stage s i = Waiting) \<and>
     (\<forall>j c. map_of (mu_clients (ra_multi s)) j = Some c \<longrightarrow> ch_buf (oe_C (cl_OnMessage c)) = [])"

lemma waiting_apart: "\<forall>j. j \<noteq> i \<longrightarrow> ra_stage u j = Waiting \<Longrightarrow> apart u"
  unfolding apart_def ids_apart_def by (metis stage.distinct(3))

lemma network_run_step:
  "network_step y keys a b \<Longrightarrow> calm \<longrightarrow> apart (snd a) \<Longrightarrow> network_run calm y keys b c \<Longrightarrow> network_run calm y keys a c"
  unfolding network_run_def by (rule converse_rtranclp_into_rtranclp [where b = b]) simp_all

lemma loops_run:
  "(\<lambda>a b. apart a \<and> recv_step y keys a b \<and> ra_taken b = ra_taken a)\<^sup>*\<^sup>* u t \<Longrightarrow>
   network_run True y keys (cps, u) (cps, t) \<and> mu_clients (ra_multi t) = mu_clients (ra_multi u)"
proof (induction rule: rtranclp_induct)
  case (step t v)
  then have "network_step y keys (cps, t) (cps, v)" "apart t" "mu_clients (ra_multi v) = mu_clients (ra_multi t)"
    using network_step.loop recv_step_clients by blast+
  with step.IH show ?case unfolding network_run_def by (auto intro: rtranclp.rtrancl_into_rtrancl)
qed (simp add: network_run_def)

lemma arrival_run:
  assumes "msg_cache_laws y keys" and "network_inv y keys True good mb q K copies ((j, im) # cps, s)" and "settled_down s"
    and "\<forall>cp \<in> set copies. handles_copy y keys good mb cp" and "\<forall>i raw. good i raw \<longrightarrow> m_Type raw \<noteq> SessionType"
  shows "\<exists>t. network_run True y keys ((j, im) # cps, s) (cps, t) \<and> settled_down t"
proof -
  let ?C = "mu_clients (ra_multi s)"
  from assms(2) have i: "race_open q s" "lines_of y good mb (ra_multi s)" "(j, im) \<in> set copies" by (simp_all add: network_inv_def)
  have "handles_copy y keys good mb (j, im)" using i(3) assms(4) by blast
  from handles_copyE [OF this] obtain b0 where b0: "map_of (mu_clients mb) j = Some b0" and
    h: "\<And>c v. line_of (mx_client y j) (good j) b0 c \<Longrightarrow> \<exists>c1 v1. handle_inbound (mx_client y j) im (c, v) = (Ok (), (c1, v1)) \<and>
       keys v1 = keys v \<and> line_of (mx_client y j) (good j) b0 c1 \<and> ch_buf (oe_C (cl_OnMessage c1)) \<noteq> [] \<and>
       length (ch_buf (oe_C (cl_OnMessage c1))) \<le> Suc (length (ch_buf (oe_C (cl_OnMessage c))))" by metis
  from lines_of_find [OF i(2) b0] obtain c where c: "map_of ?C j = Some c" "line_of (mx_client y j) (good j) b0 c" .
  from h [OF c(2), of "ra_env s"] assms(3) c(1) obtain c1 v1 raw where
    n: "handle_inbound (mx_client y j) im (c, ra_env s) = (Ok (), (c1, v1))" "line_of (mx_client y j) (good j) b0 c1"
      "ch_buf (oe_C (cl_OnMessage c1)) = [raw]" by (fastforce simp: settled_down_def length_Suc_conv le_Suc_eq)
  let ?s1 = "s\<lparr>ra_multi := (ra_multi s)\<lparr>mu_clients := AList.update j c1 ?C\<rparr>, ra_env := v1\<rparr>"
  have "on_client j (handle_inbound (mx_client y j) im) (ra_multi s, ra_env s) = (Ok (), ((ra_multi s)\<lparr>mu_clients := AList.update j c1 ?C\<rparr>, v1))"
    using c(1) n(1) by (simp add: on_client_def)
  from network_step.handle [OF this, of keys "[]" cps] have 1: "network_step y keys ((j, im) # cps, s) (cps, ?s1)" by simp
  let ?c2 = "c1\<lparr>cl_OnMessage := (cl_OnMessage c1)\<lparr>oe_C := (oe_C (cl_OnMessage c1))\<lparr>ch_buf := []\<rparr>\<rparr>\<rparr>"
  let ?D = "AList.update j ?c2 (AList.update j c1 ?C)"
  let ?s2 = "?s1\<lparr>ra_multi := (ra_multi ?s1)\<lparr>mu_clients := ?D\<rparr>, ra_env := v1\<rparr>"
  have g: "m_Type raw \<noteq> SessionType" using n(2,3) assms(5) by (auto simp: line_of_def)
  have t0: "on_client j take_received (ra_multi ?s1, ra_env ?s1) = (Ok (Received raw), ((ra_multi ?s1)\<lparr>mu_clients := ?D\<rparr>, v1))"
    using n(3) by (simp add: on_client_def update_conv' take_received_def OnMessage_defs on_next_def chan_recv_def)
  have o2: "race_open q ?s2" using i(1) by (simp add: race_open_def receiving_def multi_open_def)
  have w2: "ra_stage ?s2 j = Waiting" "ra_stage ?s2 = ra_stage s" using assms(3) by (simp_all add: settled_down_def)
  have ap: "apart u" if "\<forall>k. k \<noteq> j \<longrightarrow> ra_stage u k = ra_stage ?s2 k" for u
    by (rule waiting_apart [of j]) (use that assms(3) in \<open>simp add: settled_down_def\<close>)
  from round_is_run [where P = apart, OF assms(1) o2 w2(1) g ap] obtain u t where
    u: "recv_step y keys ?s2 u" "ra_taken u = ra_taken ?s2 @ [(j, strip_source raw)]"
      "(\<lambda>a b. apart a \<and> recv_step y keys a b \<and> ra_taken b = ra_taken a)\<^sup>*\<^sup>* u t" "ra_stage t = ra_stage ?s2" by blast
  have 2: "network_step y keys (cps, ?s1) (cps, u)" by (rule network_step.take [OF t0]) (use u(1,2) in simp_all)
  from loops_run [OF u(3), of cps] have 3: "network_run True y keys (cps, u) (cps, t)" "mu_clients (ra_multi t) = ?D"
    using recv_step_clients [OF u(1)] by simp_all
  have a12: "apart s" "apart ?s1" using ap [of s] ap [of ?s1] by simp_all
  have "network_run True y keys (cps, ?s1) (cps, t)" by (rule network_run_step [OF 2 _ 3(1)]) (simp only: snd_conv a12 simp_thms)
  from network_run_step [OF 1 _ this] a12(1) have "network_run True y keys ((j, im) # cps, s) (cps, t)" by simp
  moreover have "settled_down t"
  proof -
    have "map_of ?D = (map_of ?C)(j \<mapsto> ?c2)" by (simp add: update_conv')
    then have "ch_buf (oe_C (cl_OnMessage e)) = []" if "map_of (mu_clients (ra_multi t)) k = Some e" for k e
      using that assms(3) unfolding 3(2) settled_down_def by (cases "k = j") auto
    moreover have "ra_stage t = ra_stage s" using u(4) w2(2) by simp
    ultimately show ?thesis using assms(3) unfolding settled_down_def by simp
  qed
  ultimately show ?thesis by blast
qed

lemma all_run:
  assumes "msg_cache_laws y keys" and "network_inv y keys True good mb q K copies (cps, s)" and "settled_down s"
    and "\<forall>cp \<in> set copies. handles_copy y keys good mb cp" and "\<forall>i raw. good i raw \<longrightarrow> m_Type raw \<noteq> SessionType"
  shows "\<exists>a. network_run True y keys (cps, s) a \<and> network_idle a"
  using assms(2,3)
proof (induction cps arbitrary: s)
  case Nil
  then show ?case by (intro exI [of _ "([], s)"]) (simp add: network_run_def network_idle_def settled_down_def)
next
  case (Cons cp cps)
  obtain j im where cp: "cp = (j, im)" by (cases cp)
  from arrival_run [OF assms(1) Cons.prems [unfolded cp] assms(4,5)] obtain t where
    t: "network_run True y keys (cp # cps, s) (cps, t)" "settled_down t" unfolding cp by blast
  from Cons.IH [OF network_inv_run [OF t(1) assms(1,4) Cons.prems(1)] t(2)] obtain a where
    "network_run True y keys (cps, t) a" "network_idle a" by blast
  with t(1) show ?case unfolding network_run_def by (meson rtranclp_trans)
qed

section \<open>Copies of one message\<close>

definition copy_received :: "(int \<times> inbound_message) list \<Rightarrow> bytes \<Rightarrow> message \<Rightarrow> int \<Rightarrow> message \<Rightarrow> bool" where
  "copy_received copies k M j raw \<longleftrightarrow>
     j \<in> fst ` set copies \<and> delivered raw = M \<and> m_MessageID raw = k \<and> m_Type raw \<noteq> SessionType"

lemma copy_handled:
  assumes "box_laws (cx_box cx)" and "rand_laws (cx_rand cx)" and "proto_laws (cx_proto cx)"
    and "\<forall>i. same_crypto (mx_client x i) cx" and "same_crypto (mx_client y j) cx" and "\<forall>w. keys (snd (cx_now (mx_client y j) w)) = keys w"
    and "copy_of x ma mb dests p (j, im)" and "(j, im) \<in> set copies"
    and "payload_data (cx_proto cx) p = Ok d" and "pl_ReplyToId p = []" and "pl_Type p \<noteq> SessionType"
    and "\<And>i. im_Src im = addIdentifier (MultiClient_Address ma) i \<Longrightarrow> delivered (with_reply (sealed_message im p d)) = M"
  shows "handles_copy y keys (copy_received copies (pl_MessageId p) M) mb (j, im)"
proof -
  let ?raw = "with_reply (sealed_message im p d)" and ?y = "mx_client y j"
  from copy_opens [OF assms(7,4,1-3)] obtain i b where
    b: "map_of (mu_clients mb) j = Some b" "im_Src im = addIdentifier (MultiClient_Address ma) i" "opens_as cx (cl_curveSecretKey b) im p" by blast
  have o: "opens_as ?y (cl_curveSecretKey b) im p" using b(3) by (simp only: same_crypto_opens [OF assms(5)])
  have d: "payload_data (cx_proto ?y) p = Ok d" using assms(9) by (simp only: same_crypto_fields(2) [OF assms(5)])
  have g: "copy_received copies (pl_MessageId p) M j ?raw"
    using assms(8,11) assms(12) [OF b(2)] by (force simp: copy_received_def with_reply_def sealed_message_def)
  have "\<exists>c1 v1. handle_inbound ?y im (c, w) = (Ok (), (c1, v1)) \<and> keys v1 = keys w \<and>
      line_of ?y (copy_received copies (pl_MessageId p) M j) b c1 \<and> ch_buf (oe_C (cl_OnMessage c1)) \<noteq> [] \<and>
      length (ch_buf (oe_C (cl_OnMessage c1))) \<le> Suc (length (ch_buf (oe_C (cl_OnMessage c))))"
    if l: "line_of ?y (copy_received copies (pl_MessageId p) M j) b c" for c w
  proof -
    from handled [OF l o d assms(10) g, of w] obtain c1 v1 where
      h: "handle_inbound ?y im (c, w) = (Ok (), (c1, v1))" "v1 \<in> {w, snd (cx_now ?y w)}"
        "line_of ?y (copy_received copies (pl_MessageId p) M j) b c1"
        "ch_buf (oe_C (cl_OnMessage c1)) = take (ch_cap (oe_C (cl_OnMessage c))) (ch_buf (oe_C (cl_OnMessage c)) @ [?raw])" by blast
    have "0 < ch_cap (oe_C (cl_OnMessage c))" using l by (simp add: line_of_def)
    with h(4) have "ch_buf (oe_C (cl_OnMessage c1)) \<noteq> []"
      "length (ch_buf (oe_C (cl_OnMessage c1))) \<le> Suc (length (ch_buf (oe_C (cl_OnMessage c))))" by simp_all
    moreover have "keys v1 = keys w" using h(2) assms(6) by auto
    ultimately show ?thesis using h(1,3) by blast
  qed
  with b(1) show ?thesis unfolding handles_copy_def prod.case by blast
qed

section \<open>Properties\<close>

text \<open>
  C1: What arrives of a message that a multiclient sends. The sub-clients of one multiclient seal a payload for the sub-clients of
  another, and some of these copies, at least one, arrive there. However the arrivals, the sub-clients and the loops
  interleave, when nothing is on its way any more the queue of the application has the message at least once and at
  most once for each sub-client for which a copy came, as far as there is room; and exactly once if no two loops were at the same time between
  the look-up and the entry of its id. Each has the data, the message id and the encrypted flag of the payload, the sender's address
  without the identifier of any sub-client, and a reply that goes to that address unless the sender wants none.
  Such an end can be reached, by a run that has no two loops there at a time.
\<close>

theorem multi_end_to_end:
  assumes "box_laws (cx_box cx)" and "rand_laws (cx_rand cx)" and "proto_laws (cx_proto cx)"
    and "\<forall>i. same_crypto (mx_client x i) cx" and "\<forall>j. same_crypto (mx_client y j) cx"
    and "msg_cache_laws y keys" and "\<forall>j w. keys (snd (cx_now (mx_client y j) w)) = keys w"
    and "plain_addr (MultiClient_Address ma)" and "receiving mb" and "lines_ready y mb"
    and "newMessagePayload (cx_proto cx) (cx_rand cx) data mid noReply v0 = (Ok p, v1)" and "data = DBytes d \<or> data = DString d"
    and "copies \<noteq> []" and "\<forall>cp \<in> set copies. copy_of x ma mb dests p cp" and "pl_MessageId p \<notin> keys w"
    and "\<not> oe_Callback (mu_OnMessage mb)" and "length (ch_buf (oe_C (mu_OnMessage mb))) \<le> ch_cap (oe_C (mu_OnMessage mb))"
  shows "(\<exists>a. network_run True y keys (copies, race_start mb w) a \<and> network_idle a) \<and>
    (\<forall>calm a. network_run calm y keys (copies, race_start mb w) a \<and> network_idle a \<longrightarrow>
      (\<exists>n. 1 \<le> n \<and> n \<le> card (fst ` set copies) \<and> (calm \<longrightarrow> n = 1) \<and>
        ch_buf (oe_C (mu_OnMessage (ra_multi (snd a)))) = take (ch_cap (oe_C (mu_OnMessage mb))) (ch_buf (oe_C (mu_OnMessage mb)) @ replicate n
          \<lparr>m_Src = MultiClient_Address ma, m_Data = d, m_Type = pl_Type p, m_Encrypted = True, m_MessageID = pl_MessageId p, m_NoReply = noReply,
           m_reply = (if noReply then IgnoreReply else SendReply (MultiClient_Address ma) (pl_MessageId p) True)\<rparr>)))"
proof -
  let ?M = "\<lparr>m_Src = MultiClient_Address ma, m_Data = d, m_Type = pl_Type p, m_Encrypted = True, m_MessageID = pl_MessageId p, m_NoReply = noReply,
    m_reply = (if noReply then IgnoreReply else SendReply (MultiClient_Address ma) (pl_MessageId p) True)\<rparr>"
  let ?good = "copy_received copies (pl_MessageId p) ?M"
  from newMessagePayload_id [OF assms(2,11)] newMessagePayload_data [OF assms(3,11)] assms(12)
  have p: "pl_ReplyToId p = []" "pl_NoReply p = noReply" "payload_data (cx_proto cx) p = Ok d" "pl_Type p \<noteq> SessionType"
    by (auto simp: payload_type_defs)
  have M: "delivered (with_reply (sealed_message im p d)) = ?M" if "im_Src im = addIdentifier (MultiClient_Address ma) i" for im i
    using that p(2) removeIdentifier_addIdentifier_plain [OF assms(8), of i]
    by (simp add: delivered_def strip_source_def with_reply_def sealed_message_def)
  have h: "\<forall>cp \<in> set copies. handles_copy y keys ?good mb cp"
  proof
    fix cp assume cp: "cp \<in> set copies"
    obtain j im where ji: "cp = (j, im)" by (cases cp)
    show "handles_copy y keys ?good mb cp" unfolding ji
      by (rule copy_handled [OF assms(1-4) assms(5) [rule_format] assms(7) [THEN spec] assms(14) [rule_format, OF cp, unfolded ji]
          cp [unfolded ji] p(3,1,4) M])
  qed
  have fin: "finite (fst ` set copies)" by simp
  have cl: "\<not> ch_closed (oe_C (mu_OnMessage mb))" using assms(9) by (simp add: receiving_def multi_open_def)
  show ?thesis
  proof (intro conjI allI impI)
    have "settled_down (race_start mb w)" using assms(10) by (auto simp: settled_down_def race_start_def lines_ready_def)
    from all_run [OF assms(6) network_inv_start [OF assms(9,10,13)] this h] show "\<exists>a. network_run True y keys (copies, race_start mb w) a \<and> network_idle a" by (simp add: copy_received_def)
  next
    fix calm a assume a: "network_run calm y keys (copies, race_start mb w) a \<and> network_idle a"
    from network_inv_run [OF _ assms(6) h network_inv_start [OF assms(9,10,13)]] a
    have i: "network_inv y keys calm ?good mb (mu_OnMessage mb) (keys w) copies a" by blast
    from a have idle: "network_idle a" by blast
    show "\<exists>n. 1 \<le> n \<and> n \<le> card (fst ` set copies) \<and> (calm \<longrightarrow> n = 1) \<and>
        ch_buf (oe_C (mu_OnMessage (ra_multi (snd a)))) = take (ch_cap (oe_C (mu_OnMessage mb))) (ch_buf (oe_C (mu_OnMessage mb)) @ replicate n ?M)"
      by (rule network_outcome [OF i idle _ fin assms(15,16) cl assms(17)]) (simp add: copy_received_def)
  qed
qed

theorem multi_end_to_end_witness:
  "\<exists>im1 im2 a. im_Src im1 = ''__0__.alice'' \<and> im_Src im2 = ''alice'' \<and>
     network_run True cache_mx set ([(1, im1), (- 1, im2)], race_start (demo_multi 0) []) a \<and> network_idle a \<and>
     map (\<lambda>msg. (m_Src msg, m_Data msg, m_reply msg)) (ch_buf (oe_C (mu_OnMessage (ra_multi (snd a))))) =
       [(''alice'', ''hello'', SendReply ''alice'' ''id'' True)]"
proof -
  note ad = demo_sub_address
  from demo_copy [of 0 _ "demo_multi 0" 1 _ demo_payload] obtain im1 where 1: "im_Src im1 = ''__0__.alice''"
    "copy_of cache_mx demo_sender (demo_multi 0) [demo_dest] demo_payload (1, im1)"
    by (fastforce simp: demo_sender_def demo_multi_def ad)
  from demo_copy [of "- 1" _ "demo_multi 0" "- 1" _ demo_payload] obtain im2 where 2: "im_Src im2 = ''alice''"
    "copy_of cache_mx demo_sender (demo_multi 0) [demo_dest] demo_payload (- 1, im2)"
    by (fastforce simp: demo_sender_def demo_multi_def)
  have c: "\<forall>cp \<in> set [(1, im1), (- 1, im2)]. copy_of cache_mx demo_sender (demo_multi 0) [demo_dest] demo_payload cp" using 1 2 by simp
  have p: "newMessagePayload (cx_proto demo_bcx) (cx_rand demo_bcx) (DBytes ''hello'') ''id'' False [] = (Ok demo_payload, [])"
    by (simp add: newPayload_defs demo_payload_def)
  have rd: "lines_ready cache_mx (demo_multi 0)"
    by (auto simp: lines_ready_def demo_multi_def demo_line_def demo_client_def client_inv_defs on_message.new_empty
      OnConnect_defs OnMessageEvent_defs new_on_event_def make_chan_def split: if_splits)
  have nw: "\<forall>j w. set (snd (cx_now (mx_client cache_mx j) w)) = set w" by (simp add: demo_bcx_clients)
  from multi_end_to_end [OF demo_bcx_laws demo_same demo_same cache_mx_laws nw demo_sender_address(2) demo_multi_receiving rd p _ _ c _ demo_queue(1),
      of "''hello''" "[]"]
  have e: "\<exists>a. network_run True cache_mx set ([(1, im1), (- 1, im2)], race_start (demo_multi 0) []) a \<and> network_idle a"
    "\<And>a. network_run True cache_mx set ([(1, im1), (- 1, im2)], race_start (demo_multi 0) []) a \<Longrightarrow> network_idle a \<Longrightarrow>
      map (\<lambda>msg. (m_Src msg, m_Data msg, m_reply msg)) (ch_buf (oe_C (mu_OnMessage (ra_multi (snd a))))) =
        [(''alice'', ''hello'', SendReply ''alice'' ''id'' True)]"
    by (fastforce simp: demo_queue demo_payload_def demo_sender_address(1))+
  from e(1) obtain a where a: "network_run True cache_mx set ([(1, im1), (- 1, im2)], race_start (demo_multi 0) []) a" "network_idle a" by blast
  show ?thesis
    by (intro exI [of _ im1] exI [of _ im2] exI [of _ a] conjI 1(1) 2(1) a e(2))
qed

end
