(* ===== verification/Nkn_Payments.thy ===== *)
theory Nkn_Payments
  imports Nkn_NanoPay Nkn_Message
begin

text \<open>
  Both ends of nano payments (\<^verbatim>\<open>src/nanopay.go\<close>) together: the payer's \<^verbatim>\<open>IncrementAmount\<close> makes a transaction, the
  recipient's \<^verbatim>\<open>Claim\<close> takes it, and the claimer may flush in between. Shown is that the claimer counts exactly what
  is paid, over any number of channels, as long as the node answers: the margin of five blocks in which the payer
  starts a new channel leaves room for the three blocks that the claimer asks for, if no more than two blocks pass
  from the payer's query to the claimer's.
\<close>

section \<open>A payment and a series of them\<close>

text \<open>The state is the payer's end, the claimer, and the environment; the two ends may use different nodes.\<close>

definition pay :: "'w nano_ext \<Rightarrow> 'w rpc_client \<Rightarrow> 'w rpc_client \<Rightarrow> string \<Rightarrow> string \<Rightarrow> ((nano_pay \<times> claimer) \<times> 'w, err, fixed64) act" where
  "pay x rpcA rpcB fee delta = (\<lambda>((np, c), w).
     case IncrementAmount x rpcA delta fee (np, w) of
       (Ok tx, (np', w1)) \<Rightarrow> (case Claim x rpcB tx (c, w1) of (r, (c', w2)) \<Rightarrow> (r, ((np', c'), w2)))
     | (Err e, (np', w1)) \<Rightarrow> (Err e, ((np', c), w1))
     | (Panic p, (np', w1)) \<Rightarrow> (Panic p, ((np', c), w1)))"

definition flush_claimer :: "'w nano_ext \<Rightarrow> 'w rpc_client \<Rightarrow> ((nano_pay \<times> claimer) \<times> 'w, err, unit) act" where
  "flush_claimer x rpc = (\<lambda>((np, c), w). case Flush x rpc (c, w) of (r, (c', w')) \<Rightarrow> (r, ((np, c'), w')))"

datatype deed = Pay string | FlushClaimer

fun dealings :: "'w nano_ext \<Rightarrow> 'w rpc_client \<Rightarrow> 'w rpc_client \<Rightarrow> string \<Rightarrow> deed list \<Rightarrow> ((nano_pay \<times> claimer) \<times> 'w, err, unit) act" where
  "dealings x rpcA rpcB fee [] = ret ()"
| "dealings x rpcA rpcB fee (Pay delta # ds) = bnd (pay x rpcA rpcB fee delta) (\<lambda>_. dealings x rpcA rpcB fee ds)"
| "dealings x rpcA rpcB fee (FlushClaimer # ds) = bnd (flush_claimer x rpcB) (\<lambda>_. dealings x rpcA rpcB fee ds)"

text \<open>What a series of deeds pays in all, as a number.\<close>

definition value_of :: "'w nano_ext \<Rightarrow> string \<Rightarrow> int" where
  "value_of x s = (case StringToFixed64 x s of Ok v \<Rightarrow> sint v | _ \<Rightarrow> 0)"

fun paid :: "'w nano_ext \<Rightarrow> deed list \<Rightarrow> int" where
  "paid x [] = 0"
| "paid x (Pay delta # ds) = value_of x delta + paid x ds"
| "paid x (FlushClaimer # ds) = paid x ds"

section \<open>What is relied on\<close>

text \<open>
  Payments from the account \<open>own\<close> that signs them, with the address \<open>payer\<close>, to the recipient \<open>r\<close>: one unpacks to what it was made from, signing keeps payload and
  fee, and a signed payment of a positive amount with a fee that is not negative is valid until it expires. Nothing is said of
  transactions of other accounts.
\<close>

definition pay_laws :: "'w nano_ext \<Rightarrow> program_hash \<Rightarrow> string \<Rightarrow> program_hash \<Rightarrow> bool" where
  "pay_laws x own payer r \<longleftrightarrow>
     (\<forall>i a e f fee. \<exists>tx p tx'. NewNanoPayTransaction x own r i a e f = Ok tx \<and> Unpack x (tx_Payload tx) = Ok (UNanoPay p) \<and>
        npb_Id p = i \<and> npb_Amount p = a \<and> npb_TxnExpiration p = e \<and> npb_NanoPayExpiration p = f \<and>
        Uint160ParseFromBytes x (npb_Sender p) = Ok own \<and> Uint160ParseFromBytes x (npb_Recipient p) = Ok r \<and>
        SignTx x (tx\<lparr>tx_Fee := fee\<rparr>) = Ok tx' \<and> tx_Payload tx' = tx_Payload tx \<and> tx_Fee tx' = fee \<and>
        (\<forall>h. 0 <s a \<and> 0 \<le>s fee \<and> h < e \<longrightarrow> VerifyTransaction x tx' h = Ok ())) \<and>
     Uint160_CompareTo x r r = 0 \<and> Uint160_ToAddress x own = Ok payer"

text \<open>
  The nodes, in the states \<open>fine\<close> of the environment, which what the two ends do does not leave: \<open>height\<close> is the block height, of
  which at most one passes while the payer asks for it and while it draws an id, and which stays at most \<open>blocks\<close>; \<open>lastId\<close> is the id
  drawn last, and the next one that is drawn happens to be different; the payer's balance is at least \<open>fund\<close>, and not so large that
  adding \<open>fund\<close> overflows; transactions are accepted.
\<close>

definition network_laws :: "'w nano_ext \<Rightarrow> 'w rpc_client \<Rightarrow> 'w rpc_client \<Rightarrow> ('w \<Rightarrow> bool) \<Rightarrow> ('w \<Rightarrow> nat) \<Rightarrow> ('w \<Rightarrow> uint64 option) \<Rightarrow>
    string \<Rightarrow> nat \<Rightarrow> int \<Rightarrow> bool" where
  "network_laws x rpcA rpcB fine height lastId payer blocks fund \<longleftrightarrow> (\<forall>w. fine w \<longrightarrow>
     height w \<le> blocks \<and>
     (\<exists>v. rpcGetHeight rpcA w = (Ok (of_nat (height w)), v) \<and> height v \<le> height w + 1 \<and> lastId v = lastId w \<and> fine v) \<and>
     (\<exists>i v. randUint64 x w = (i, v) \<and> height v \<le> height w + 1 \<and> lastId v = Some i \<and> lastId w \<noteq> Some i \<and> fine v) \<and>
     (\<exists>v. rpcGetHeight rpcB w = (Ok (of_nat (height w)), v) \<and> lastId v = lastId w \<and> fine v) \<and>
     (\<exists>b v. rpcBalanceByAddress rpcB payer w = (Ok b, v) \<and> fund \<le> sint b \<and> sint b + fund < 2 ^ 63 \<and> lastId v = lastId w \<and> fine v) \<and>
     (\<forall>tx. \<exists>h v. rpcSendRawTransaction rpcB tx w = (Ok h, v) \<and> lastId v = lastId w \<and> fine v) \<and>
     lastId (snd (now x w)) = lastId w \<and> fine (snd (now x w)))"

lemma network_lawsD:
  assumes "network_laws x rpcA rpcB fine height lastId payer blocks fund" and "fine w"
  shows "height w \<le> blocks"
    and "\<exists>v. rpcGetHeight rpcA w = (Ok (of_nat (height w)), v) \<and> height v \<le> height w + 1 \<and> lastId v = lastId w \<and> fine v"
    and "\<exists>i v. randUint64 x w = (i, v) \<and> height v \<le> height w + 1 \<and> lastId v = Some i \<and> lastId w \<noteq> Some i \<and> fine v"
    and "\<exists>v. rpcGetHeight rpcB w = (Ok (of_nat (height w)), v) \<and> lastId v = lastId w \<and> fine v"
    and "\<exists>b v. rpcBalanceByAddress rpcB payer w = (Ok b, v) \<and> fund \<le> sint b \<and> sint b + fund < 2 ^ 63 \<and> lastId v = lastId w \<and> fine v"
    and "\<exists>h v. rpcSendRawTransaction rpcB tx w = (Ok h, v) \<and> lastId v = lastId w \<and> fine v"
    and "lastId (snd (now x w)) = lastId w" and "fine (snd (now x w))"
  using assms unfolding network_laws_def by blast+

lemma network_fund:
  assumes "network_laws x rpcA rpcB fine height lastId payer blocks fund" and "fine w"
  shows "fund < 2 ^ 63"
proof -
  from network_lawsD(5) [OF assms] obtain bal where "fund \<le> sint (bal :: fixed64)" by blast
  then show ?thesis using sint64_range(2) [of bal] by linarith
qed

section \<open>The payer\<close>

definition fee_of :: "'w nano_ext \<Rightarrow> nano_pay \<Rightarrow> string \<Rightarrow> fixed64 result" where
  "fee_of x np fee = (if length fee > 0 then StringToFixed64 x fee else Ok (np_fee np))"

text \<open>The fields of a payer that payments leave as they are.\<close>

definition same_payer :: "nano_pay \<Rightarrow> nano_pay \<Rightarrow> bool" where
  "same_payer np np' \<longleftrightarrow> np_senderProgramHash np' = np_senderProgramHash np \<and> np_recipientProgramHash np' = np_recipientProgramHash np \<and>
     np_fee np' = np_fee np \<and> np_duration np' = np_duration np"

text \<open>A transaction that pays what the payer's state says.\<close>

definition pays :: "'w nano_ext \<Rightarrow> nano_pay \<Rightarrow> fixed64 \<Rightarrow> transaction \<Rightarrow> bool" where
  "pays x np f tx \<longleftrightarrow> tx_Fee tx = f \<and>
     (\<exists>p. Unpack x (tx_Payload tx) = Ok (UNanoPay p) \<and> npb_Id p = np_id np \<and> npb_Amount p = np_amount np \<and>
        npb_TxnExpiration p = np_expiration np \<and> npb_NanoPayExpiration p = np_expiration np \<and>
        Uint160ParseFromBytes x (npb_Sender p) = Ok (np_senderProgramHash np) \<and>
        Uint160ParseFromBytes x (npb_Recipient p) = Ok (np_recipientProgramHash np)) \<and>
     (\<forall>h. 0 <s np_amount np \<and> 0 \<le>s f \<and> h < np_expiration np \<longrightarrow> VerifyTransaction x tx h = Ok ())"

lemma np_transaction_pays:
  assumes "pay_laws x (np_senderProgramHash np) payer (np_recipientProgramHash np)" and "fee_of x np fee = Ok f"
  shows "\<exists>tx. np_transaction x fee (np, w) = (Ok tx, (np, w)) \<and> pays x np f tx"
proof -
  from assms(1) obtain tx p tx' where n: "NewNanoPayTransaction x (np_senderProgramHash np) (np_recipientProgramHash np) (np_id np) (np_amount np)
      (np_expiration np) (np_expiration np) = Ok tx" "Unpack x (tx_Payload tx) = Ok (UNanoPay p)" "npb_Id p = np_id np"
      "npb_Amount p = np_amount np" "npb_TxnExpiration p = np_expiration np" "npb_NanoPayExpiration p = np_expiration np"
      "Uint160ParseFromBytes x (npb_Sender p) = Ok (np_senderProgramHash np)" "Uint160ParseFromBytes x (npb_Recipient p) = Ok (np_recipientProgramHash np)"
    and s: "SignTx x (tx\<lparr>tx_Fee := f\<rparr>) = Ok tx'" "tx_Payload tx' = tx_Payload tx" "tx_Fee tx' = f"
      "\<forall>h. 0 <s np_amount np \<and> 0 \<le>s f \<and> h < np_expiration np \<longrightarrow> VerifyTransaction x tx' h = Ok ()"
    unfolding pay_laws_def by meson
  have "np_transaction x fee (np, w) = (Ok tx', (np, w))"
    using n(1) s(1) assms(2) by (auto simp: np_transaction_def fee_of_def bnd_def split: if_splits)
  then show ?thesis using n s by (intro exI [of _ tx']) (auto simp: pays_def)
qed

text \<open>Whether the payer starts a new channel, and what is true in both cases.\<close>

lemma renewal:
  assumes "network_laws x rpcA rpcB fine height lastId payer blocks fund" and "6 \<le> unat (np_duration np)" and "blocks + unat (np_duration np) < 2 ^ 32"
    and "height v \<le> n + 1" and "n \<le> blocks" and "fine v"
  shows "\<exists>np' w. np_renew x (of_nat n) (np, v) = (Ok (), (np', w)) \<and> same_payer np np' \<and> n + 5 < unat (np_expiration np') \<and> height w \<le> n + 2 \<and> fine w \<and>
    (np_amount np' = 0 \<and> lastId w = Some (np_id np') \<and> lastId v \<noteq> lastId w \<or>
     np_expiration np \<noteq> 0 \<and> np' = np \<and> w = v)"
proof -
  have b: "n < 2 ^ 32" "n + 5 < 2 ^ 32" "n + unat (np_duration np) < 2 ^ 32" using assms(2,3,5) by linarith+
  have u: "unat (of_nat n + 5 :: uint32) = n + 5" "unat (of_nat n + np_duration np) = n + unat (np_duration np)"
    using b by (simp_all add: unat_word_ariths unat_of_nat)
  show ?thesis
  proof (cases "np_expiration np = 0 \<or> np_expiration np \<le> of_nat n + 5")
    case True
    from network_lawsD(3) [OF assms(1,6)] obtain i w where
      i: "randUint64 x v = (i, w)" "height w \<le> height v + 1" "lastId w = Some i" "lastId v \<noteq> Some i" "fine w" by blast
    from True i(1) have "np_renew x (of_nat n) (np, v) =
        (Ok (), (np\<lparr>np_id := i, np_expiration := of_nat n + np_duration np, np_amount := 0\<rparr>, w))"
      by (auto simp: np_renew_def senderExpirationDelta_def bnd_def env_val_def upd_def)
    with i u(2) assms(2,4) show ?thesis by (simp add: same_payer_def)
  next
    case False
    then have "n + 5 < unat (np_expiration np)" using u(1) by (simp add: word_le_nat_alt)
    with False assms(4,6) show ?thesis by (simp add: np_renew_def senderExpirationDelta_def same_payer_def)
  qed
qed

lemma increment_pays:
  assumes "pay_laws x (np_senderProgramHash np) payer (np_recipientProgramHash np)" and "network_laws x rpcA rpcB fine height lastId payer blocks fund" and "6 \<le> unat (np_duration np)"
    and "blocks + unat (np_duration np) < 2 ^ 32" and "StringToFixed64 x delta = Ok v" and "fee_of x np fee = Ok f" and "fine w"
  shows "\<exists>tx np' w'. IncrementAmount x rpcA delta fee (np, w) = (Ok tx, (np', w')) \<and> same_payer np np' \<and> pays x np' f tx \<and> fine w' \<and>
    height w' + 3 < unat (np_expiration np') \<and>
    (np_amount np' = v \<and> lastId w' = Some (np_id np') \<and> lastId w \<noteq> lastId w' \<or>
     np_expiration np \<noteq> 0 \<and> np_amount np' = np_amount np + v \<and> np_id np' = np_id np \<and> lastId w' = lastId w)"
proof -
  from network_lawsD(2) [OF assms(2,7)] obtain w1 where
    h: "rpcGetHeight rpcA w = (Ok (of_nat (height w)), w1)" "height w1 \<le> height w + 1" "lastId w1 = lastId w" "fine w1" by blast
  from renewal [OF assms(2-4) h(2) network_lawsD(1) [OF assms(2,7)] h(4)] obtain np1 w2 where r: "np_renew x (of_nat (height w)) (np, w1) = (Ok (), (np1, w2))" "same_payer np np1"
    "height w + 5 < unat (np_expiration np1)" "height w2 \<le> height w + 2" "fine w2"
    "np_amount np1 = 0 \<and> lastId w2 = Some (np_id np1) \<and> lastId w1 \<noteq> lastId w2 \<or> np_expiration np \<noteq> 0 \<and> np1 = np \<and> w2 = w1" by blast
  let ?np = "np1\<lparr>np_amount := np_amount np1 + v\<rparr>"
  have f: "fee_of x ?np fee = Ok f" using assms(6) r(2) by (auto simp: fee_of_def same_payer_def split: if_splits)
  have "pay_laws x (np_senderProgramHash ?np) payer (np_recipientProgramHash ?np)" using assms(1) r(2) by (simp add: same_payer_def)
  from np_transaction_pays [OF this f, of w2] obtain tx where t: "np_transaction x fee (?np, w2) = (Ok tx, (?np, w2))" "pays x ?np f tx" by blast
  have "IncrementAmount x rpcA delta fee (np, w) = (Ok tx, (?np, w2))"
    using h(1) r(1) assms(5) t(1) by (simp add: IncrementAmount_def np_height_def attempt_def bnd_def)
  with r(2-6) h(3) t(2) show ?thesis by (intro exI [of _ tx] exI [of _ ?np] exI [of _ w2]) (auto simp: same_payer_def)
qed

section \<open>The claimer\<close>

text \<open>A claimer that is open and has nothing it could not flush.\<close>

definition claiming :: "'w nano_ext \<Rightarrow> program_hash \<Rightarrow> claimer \<Rightarrow> bool" where
  "claiming x r c \<longleftrightarrow> claimer_inv x r c \<and> \<not> npc_closed c \<and> (npc_tx c \<noteq> None \<longrightarrow> npc_id c \<noteq> None) \<and>
     0 \<le> sint (npc_prevFlushAmount c) \<and> sint (npc_prevFlushAmount c) \<le> sint (npc_amount c)"

lemma flush_claiming:
  assumes "network_laws x rpcA rpcB fine height lastId payer blocks fund" and "claiming x r c" and "fine w"
  shows "\<exists>c' w'. flush x rpcB False (c, w) = (Ok (), (c', w')) \<and> lastId w' = lastId w \<and> fine w' \<and> claiming x r c' \<and>
    npc_id c' = npc_id c \<and> npc_amount c' = npc_amount c \<and> npc_prevClaimedAmount c' = npc_prevClaimedAmount c"
proof (cases "npc_amount c - npc_prevFlushAmount c <s npc_minFlushAmount c \<or> npc_tx c = None")
  case True
  then have "flush x rpcB False (c, w) = (Ok (), (c, w))" by (auto simp: flush_def split: option.split)
  with assms(2,3) show ?thesis by blast
next
  case False
  then obtain tx where tx: "npc_tx c = Some tx" "\<not> npc_amount c - npc_prevFlushAmount c <s npc_minFlushAmount c" by auto
  with assms(2) obtain i p where p: "npc_id c = Some i" "payment_to x r tx p" "npb_Amount p = npc_amount c"
    by (auto simp: claiming_def claimer_inv_def)
  from network_lawsD(6) [OF assms(1,3), of tx] obtain h v where
    v: "rpcSendRawTransaction rpcB tx w = (Ok h, v)" "lastId v = lastId w" "fine v" by blast
  note n = network_lawsD(7,8) [OF assms(1) v(3)]
  let ?c = "c\<lparr>npc_tx := None, npc_expiration := 0, npc_lastClaimTime := fst (now x v), npc_prevFlushAmount := npc_amount c\<rparr>"
  have f: "flush x rpcB False (c, w) = (Ok (), (?c, snd (now x v)))"
    using tx p v(1) by (simp add: flush_def payment_to_def or_close_def bnd_def env_val_def upd_def split: prod.split)
  have "claimer_inv x r ?c" using assms(2) by (simp add: claiming_def claimer_inv_def)
  with assms(2) have "claiming x r ?c" by (auto simp: claiming_def)
  with f v(2) n show ?thesis by (intro exI [of _ ?c] exI [of _ "snd (now x v)"]) simp
qed

lemma switch_claiming:
  assumes "network_laws x rpcA rpcB fine height lastId payer blocks fund" and "claiming x r c"
    and "npc_id c = Some (npb_Id p) \<Longrightarrow> sint (npc_amount c) < sint (npb_Amount p)" and "fine w"
  shows "\<exists>c' w'. claim_switch x rpcB p (c, w) = (Ok (), (c', w')) \<and> lastId w' = lastId w \<and> fine w' \<and> claimer_inv x r c' \<and> \<not> npc_closed c' \<and>
    0 \<le> sint (npc_prevFlushAmount c') \<and> sint (npc_prevFlushAmount c') \<le> sint (npc_amount c) \<and>
    (if npc_id c = Some (npb_Id p) then c' = c
     else npc_amount c' = 0 \<and> npc_prevFlushAmount c' = 0 \<and> npc_prevClaimedAmount c' = npc_prevClaimedAmount c + npc_amount c)"
proof (cases "npc_id c")
  case None
  with assms(2) have "npc_amount c = 0" "sint (npc_prevFlushAmount c) = 0" by (auto simp: claiming_def claimer_inv_def)
  moreover from this(2) have "npc_prevFlushAmount c = 0" by (simp only: signed_eq_0_iff)
  ultimately have "npc_amount c = 0" "npc_prevFlushAmount c = 0" by simp_all
  with None assms(2,4) show ?thesis by (intro exI [of _ c] exI [of _ w]) (simp add: claim_switch_def claiming_def)
next
  case (Some i)
  show ?thesis
  proof (cases "i = npb_Id p")
    case True
    with Some assms(2-4) show ?thesis
      by (intro exI [of _ c] exI [of _ w]) (auto simp: claim_switch_def claiming_def sle_sint)
  next
    case False
    from flush_claiming [OF assms(1,2,4)] obtain c1 w1 where f: "flush x rpcB False (c, w) = (Ok (), (c1, w1))" "lastId w1 = lastId w \<and> fine w1"
      "claiming x r c1" "npc_id c1 = npc_id c" "npc_amount c1 = npc_amount c" "npc_prevClaimedAmount c1 = npc_prevClaimedAmount c" by blast
    let ?c = "c1\<lparr>npc_id := None, npc_prevClaimedAmount := npc_prevClaimedAmount c1 + npc_amount c1, npc_prevFlushAmount := 0, npc_amount := 0\<rparr>"
    have "claim_switch x rpcB p (c, w) = (Ok (), (?c, w1))"
      using Some False f(1) by (simp add: claim_switch_def attempt_def upd_def)
    moreover have "claimer_inv x r ?c" using f(3) by (auto simp: claiming_def claimer_inv_def)
    ultimately show ?thesis using f(2,3,5,6) Some False assms(2)
      by (intro exI [of _ ?c] exI [of _ w1]) (auto simp: claiming_def)
  qed
qed

lemma claim_counts:
  assumes "network_laws x rpcA rpcB fine height lastId payer blocks fund" and "pay_laws x (np_senderProgramHash np) payer r" and "claiming x r c" and "pays x np f tx"
    and "np_recipientProgramHash np = r" and "fine w" and "height w + 3 < unat (np_expiration np)"
    and "npc_id c = Some (np_id np) \<Longrightarrow> sint (npc_amount c) < sint (np_amount np)"
    and "0 < sint (np_amount np)" and "0 \<le> sint f" and "sint (np_amount np) + sint f \<le> fund" and "sint (npc_amount c) \<le> fund"
  shows "\<exists>c' w'. Claim x rpcB tx (c, w) = (Ok (Claimer_Amount c'), (c', w')) \<and> lastId w' = lastId w \<and> fine w' \<and> claiming x r c' \<and>
    npc_id c' = Some (np_id np) \<and> npc_amount c' = np_amount np \<and>
    Claimer_Amount c' = Claimer_Amount c + (if npc_id c = Some (np_id np) then np_amount np - npc_amount c else np_amount np)"
proof -
  from assms(4) obtain p where p: "Unpack x (tx_Payload tx) = Ok (UNanoPay p)" "npb_Id p = np_id np" "npb_Amount p = np_amount np"
    "npb_TxnExpiration p = np_expiration np" "npb_NanoPayExpiration p = np_expiration np"
    "Uint160ParseFromBytes x (npb_Sender p) = Ok (np_senderProgramHash np)" "Uint160ParseFromBytes x (npb_Recipient p) = Ok r"
    and fee: "tx_Fee tx = f" unfolding pays_def assms(5) by blast
  from network_lawsD(4) [OF assms(1,6)] obtain w1 where
    h: "rpcGetHeight rpcB w = (Ok (of_nat (height w)), w1)" "lastId w1 = lastId w" "fine w1" by blast
  have hb: "height w + 3 < 2 ^ 32" using assms(7) unsigned_less [of "np_expiration np", where ?'a = nat] by simp
  then have u: "unat (of_nat (height w) + 3 :: uint32) = height w + 3" "unat (of_nat (height w) :: uint32) = height w"
    by (simp_all add: unat_word_ariths unat_of_nat)
  have late: "\<not> np_expiration np \<le> of_nat (height w) + 3" "of_nat (height w) < np_expiration np"
    using u assms(7) by (simp_all add: word_le_nat_alt word_less_nat_alt)
  have ver: "VerifyTransaction x tx (of_nat (height w)) = Ok ()"
    using assms(4,9,10) late(2) unfolding pays_def by (simp add: word_sless_alt word_sle_eq)
  from assms(2) have sa: "Uint160_ToAddress x (np_senderProgramHash np) = Ok payer" "Uint160_CompareTo x r r = 0"
    unfolding pay_laws_def by blast+
  have own: "npc_recipientProgramHash c = r" "\<not> npc_closed c" using assms(3) unfolding claiming_def claimer_inv_def by blast+
  have ck: "claim_check x tx (of_nat (height w)) (c, w1) = (Ok (p, payer), (c, w1))"
    using p sa ver own by (simp add: claim_check_def or_close_def bnd_def)
  from switch_claiming [OF assms(1,3) _ h(3), of p] assms(8) p(2,3) obtain c1 w2 where sw: "claim_switch x rpcB p (c, w1) = (Ok (), (c1, w2))"
    "lastId w2 = lastId w1 \<and> fine w2" "claimer_inv x r c1" "\<not> npc_closed c1" "0 \<le> sint (npc_prevFlushAmount c1)"
    "sint (npc_prevFlushAmount c1) \<le> sint (npc_amount c)"
    "if npc_id c = Some (npb_Id p) then c1 = c
     else npc_amount c1 = 0 \<and> npc_prevFlushAmount c1 = 0 \<and> npc_prevClaimedAmount c1 = npc_prevClaimedAmount c + npc_amount c" by auto
  from sw(2) have "fine w2" by blast
  from network_lawsD(5) [OF assms(1) this] obtain bal w3 where
    b: "rpcBalanceByAddress rpcB payer w2 = (Ok bal, w3)" "fund \<le> sint bal" "sint bal + fund < 2 ^ 63" "lastId w3 = lastId w2 \<and> fine w3" by blast
  have "sint (bal + npc_prevFlushAmount c1) = sint bal + sint (npc_prevFlushAmount c1)"
    by (rule sint_add_small) (use b(2,3) sw(5,6) assms(9-12) in linarith)+
  moreover have "sint (np_amount np + f) = sint (np_amount np) + sint f"
    by (rule sint_add_small) (use b(2,3) assms(9-11) in linarith)+
  ultimately have enough: "\<not> bal + npc_prevFlushAmount c1 <s npb_Amount p + tx_Fee tx"
    using b(2) sw(5) assms(11) p(3) fee by (simp add: sless_sint)
  let ?c = "c1\<lparr>npc_tx := Some tx, npc_id := Some (npb_Id p), npc_expiration := npb_TxnExpiration p, npc_amount := npb_Amount p\<rparr>"
  have ac: "claim_accept tx (of_nat (height w)) p bal (c1, w3) = (Ok (Claimer_Amount ?c), (?c, w3))"
    using enough late p by (simp add: claim_accept_def receiverExpirationDelta_def bnd_def upd_def obj_def)
  have cl: "Claim x rpcB tx (c, w) = (Ok (Claimer_Amount ?c), (?c, w3))"
    using h(1) ck own(2) sw(1) b(1) ac by (simp add: Claim_def bnd_def)
  have pt: "payment_to x r tx p" using p(1,7) sa(2) ver by (auto simp: payment_to_def)
  then have "claimer_inv x r ?c" using sw(3) by (auto simp: claimer_inv_def)
  then have "claiming x r ?c" using sw(4-7) p(2,3) assms(8,9) by (auto simp: claiming_def split: if_splits)
  moreover have "Claimer_Amount ?c = Claimer_Amount c + (if npc_id c = Some (np_id np) then np_amount np - npc_amount c else np_amount np)"
    using sw(7) p(2,3) by (auto simp: Claimer_Amount_def split: if_splits)
  ultimately show ?thesis using cl p(2,3) h(2) sw(2) b(4) by (intro exI [of _ ?c] exI [of _ w3]) simp
qed

section \<open>Both ends\<close>

text \<open>All that was paid has been claimed, and the payer's channel, if it has one, is the claimer's.\<close>

definition settled :: "'w nano_ext \<Rightarrow> program_hash \<Rightarrow> program_hash \<Rightarrow> ('w \<Rightarrow> bool) \<Rightarrow> ('w \<Rightarrow> uint64 option) \<Rightarrow> nano_pay \<Rightarrow> claimer \<Rightarrow> 'w \<Rightarrow> bool" where
  "settled x own r fine lastId np c w \<longleftrightarrow> claiming x r c \<and> np_recipientProgramHash np = r \<and> np_senderProgramHash np = own \<and> fine w \<and>
     (npc_id c = None \<or> npc_id c = lastId w) \<and>
     (np_expiration np \<noteq> 0 \<longrightarrow> npc_id c = Some (np_id np) \<and> npc_amount c = np_amount np)"

lemma claiming_amount: "claiming x r c \<Longrightarrow> 0 \<le> sint (npc_amount c)"
  by (auto simp: claiming_def)

lemma pay_settles:
  assumes "pay_laws x own payer r" and "network_laws x rpcA rpcB fine height lastId payer blocks fund" and "settled x own r fine lastId np c w"
    and "6 \<le> unat (np_duration np)" and "blocks + unat (np_duration np) < 2 ^ 32" and "StringToFixed64 x delta = Ok v" and "0 < sint v"
    and "fee_of x np fee = Ok f" and "0 \<le> sint f" and "sint (npc_amount c) + sint v + sint f \<le> fund"
  shows "\<exists>a np' c' w'. pay x rpcA rpcB fee delta ((np, c), w) = (Ok a, ((np', c'), w')) \<and> settled x own r fine lastId np' c' w' \<and> same_payer np np' \<and>
    Claimer_Amount c' = Claimer_Amount c + v \<and> sint (npc_amount c') \<le> sint (npc_amount c) + sint v"
proof -
  from assms(3) have c: "claiming x r c" "np_recipientProgramHash np = r" "np_senderProgramHash np = own" "npc_id c = None \<or> npc_id c = lastId w"
    "np_expiration np \<noteq> 0 \<Longrightarrow> npc_id c = Some (np_id np) \<and> npc_amount c = np_amount np" and fine: "fine w" by (auto simp: settled_def)
  have laws: "pay_laws x (np_senderProgramHash np) payer (np_recipientProgramHash np)" using assms(1) c(2,3) by simp
  from increment_pays [OF laws assms(2,4-6,8) fine] obtain tx np' w1 where i: "IncrementAmount x rpcA delta fee (np, w) = (Ok tx, (np', w1))"
    "same_payer np np'" "pays x np' f tx \<and> fine w1" "height w1 + 3 < unat (np_expiration np')"
    "np_amount np' = v \<and> lastId w1 = Some (np_id np') \<and> lastId w \<noteq> lastId w1 \<or>
     np_expiration np \<noteq> 0 \<and> np_amount np' = np_amount np + v \<and> np_id np' = np_id np \<and> lastId w1 = lastId w" by blast
  note fund = network_fund [OF assms(2) fine]
  note nn = claiming_amount [OF c(1)]
  have sum: "sint (npc_amount c + v) = sint (npc_amount c) + sint v"
    by (rule sint_add_small) (use nn assms(7,9,10) fund in linarith)+
  have am: "npc_id c = Some (np_id np') \<and> np_amount np' = npc_amount c + v \<and> lastId w1 = Some (np_id np') \<or>
      npc_id c \<noteq> Some (np_id np') \<and> np_amount np' = v \<and> lastId w1 = Some (np_id np')"
    using i(5) c(4,5) by auto
  have "\<exists>c' w'. Claim x rpcB tx (c, w1) = (Ok (Claimer_Amount c'), (c', w')) \<and> lastId w' = lastId w1 \<and> fine w' \<and> claiming x r c' \<and>
    npc_id c' = Some (np_id np') \<and> npc_amount c' = np_amount np' \<and>
    Claimer_Amount c' = Claimer_Amount c + (if npc_id c = Some (np_id np') then np_amount np' - npc_amount c else np_amount np')"
    by (rule claim_counts [OF assms(2) _ c(1) i(3) [THEN conjunct1] _ i(3) [THEN conjunct2] i(4)]) (use i(2) c(2,3) am sum nn assms(1,7,9,10) in \<open>auto simp: same_payer_def\<close>)
  then obtain c' w' where k: "Claim x rpcB tx (c, w1) = (Ok (Claimer_Amount c'), (c', w'))" "lastId w' = lastId w1 \<and> fine w'" "claiming x r c'"
    "npc_id c' = Some (np_id np')" "npc_amount c' = np_amount np'"
    "Claimer_Amount c' = Claimer_Amount c + (if npc_id c = Some (np_id np') then np_amount np' - npc_amount c else np_amount np')" by blast
  have "pay x rpcA rpcB fee delta ((np, c), w) = (Ok (Claimer_Amount c'), ((np', c'), w'))" using i(1) k(1) by (simp add: pay_def)
  moreover have "settled x own r fine lastId np' c' w'" using k(2-5) am i(2) c(2,3) by (auto simp: settled_def same_payer_def)
  moreover have "Claimer_Amount c' = Claimer_Amount c + v" "sint (npc_amount c') \<le> sint (npc_amount c) + sint v"
    using k(5,6) am sum nn by auto
  ultimately show ?thesis using i(2) by blast
qed

lemma flush_settles:
  assumes "network_laws x rpcA rpcB fine height lastId payer blocks fund" and "settled x own r fine lastId np c w"
  shows "\<exists>c' w'. flush_claimer x rpcB ((np, c), w) = (Ok (), ((np, c'), w')) \<and> settled x own r fine lastId np c' w' \<and>
    Claimer_Amount c' = Claimer_Amount c \<and> npc_amount c' = npc_amount c"
proof -
  from assms(2) have "claiming x r c" "fine w" by (simp_all add: settled_def)
  from flush_claiming [OF assms(1) this] obtain c' w' where f: "flush x rpcB False (c, w) = (Ok (), (c', w'))" "lastId w' = lastId w \<and> fine w'"
    "claiming x r c'" "npc_id c' = npc_id c" "npc_amount c' = npc_amount c" "npc_prevClaimedAmount c' = npc_prevClaimedAmount c" by blast
  then have "flush_claimer x rpcB ((np, c), w) = (Ok (), ((np, c'), w'))" by (simp add: flush_claimer_def Flush_def)
  with f assms(2) show ?thesis by (auto simp: settled_def Claimer_Amount_def)
qed

lemma paid_nonneg: "\<forall>d. Pay d \<in> set ds \<longrightarrow> (\<exists>v. StringToFixed64 x d = Ok v \<and> 0 < sint v) \<Longrightarrow> 0 \<le> paid x ds"
proof (induction x ds rule: paid.induct)
  case (2 x d ds)
  then obtain v where "StringToFixed64 x d = Ok v" "0 < sint v" by auto
  with 2 show ?case by (auto simp: value_of_def)
qed auto

lemma dealings_settle:
  assumes "pay_laws x own payer r" and "network_laws x rpcA rpcB fine height lastId payer blocks fund" and "settled x own r fine lastId np c w"
    and "6 \<le> unat (np_duration np)" and "blocks + unat (np_duration np) < 2 ^ 32" and "fee_of x np fee = Ok f" and "0 \<le> sint f"
    and "\<forall>d. Pay d \<in> set ds \<longrightarrow> (\<exists>v. StringToFixed64 x d = Ok v \<and> 0 < sint v)" and "sint (npc_amount c) + paid x ds + sint f \<le> fund"
  shows "\<exists>np' c' w'. dealings x rpcA rpcB fee ds ((np, c), w) = (Ok (), ((np', c'), w')) \<and> settled x own r fine lastId np' c' w' \<and>
    Claimer_Amount c' = Claimer_Amount c + of_int (paid x ds)"
  using assms(3-9)
proof (induction ds arbitrary: np c w)
  case (Cons d ds)
  show ?case
  proof (cases d)
    case (Pay delta)
    with Cons.prems(6) obtain v where v: "StringToFixed64 x delta = Ok v" "0 < sint v" by auto
    then have val: "value_of x delta = sint v" by (simp add: value_of_def)
    have nn: "0 \<le> paid x ds" using Cons.prems(6) by (intro paid_nonneg) auto
    have "sint (npc_amount c) + sint v + sint f \<le> fund" using Cons.prems(7) Pay val nn by simp
    from pay_settles [OF assms(1,2) Cons.prems(1-3) v Cons.prems(4,5) this] obtain a np1 c1 w1 where
      p: "pay x rpcA rpcB fee delta ((np, c), w) = (Ok a, ((np1, c1), w1))" "settled x own r fine lastId np1 c1 w1" "same_payer np np1"
        "Claimer_Amount c1 = Claimer_Amount c + v" "sint (npc_amount c1) \<le> sint (npc_amount c) + sint v" by blast
    have "\<exists>np' c' w'. dealings x rpcA rpcB fee ds ((np1, c1), w1) = (Ok (), ((np', c'), w')) \<and> settled x own r fine lastId np' c' w' \<and>
        Claimer_Amount c' = Claimer_Amount c1 + of_int (paid x ds)"
      by (rule Cons.IH) (use p(2,3,5) Cons.prems Pay val in \<open>auto simp: same_payer_def fee_of_def\<close>)
    then show ?thesis using p(1,4) Pay val by (auto simp: bnd_Ok)
  next
    case FlushClaimer
    from flush_settles [OF assms(2) Cons.prems(1)] obtain c1 w1 where f: "flush_claimer x rpcB ((np, c), w) = (Ok (), ((np, c1), w1))"
      "settled x own r fine lastId np c1 w1" "Claimer_Amount c1 = Claimer_Amount c" "npc_amount c1 = npc_amount c" by blast
    have "\<exists>np' c' w'. dealings x rpcA rpcB fee ds ((np, c1), w1) = (Ok (), ((np', c'), w')) \<and> settled x own r fine lastId np' c' w' \<and>
        Claimer_Amount c' = Claimer_Amount c1 + of_int (paid x ds)"
      by (rule Cons.IH) (use f(2,4) Cons.prems FlushClaimer in auto)
    then show ?thesis using f(1,3) FlushClaimer by (auto simp: bnd_Ok)
  qed
qed (use assms in auto)

lemma fresh_payer:
  assumes "NewNanoPay x sender addr fee0 duration w = (Ok np, w')" and "ToScriptHash x addr = Ok r"
  shows "np_senderProgramHash np = sender" "np_recipientProgramHash np = r" "np_expiration np = 0" "np_duration np = word_of_int duration"
  using assms by (auto simp: NewNanoPay_def bnd_def split: res.splits prod.splits)

lemma fresh_claimer:
  assumes "NewNanoPayClaimer x addr minFlush w = (Ok c, w')" and "ToScriptHash x addr = Ok r"
  shows "claiming x r c" "npc_id c = None" "Claimer_Amount c = 0" "npc_amount c = 0"
proof -
  from assms obtain m time where "c = claimer_new addr r m time"
    by (auto simp: NewNanoPayClaimer_def bnd_def split: res.splits prod.splits)
  then show "claiming x r c" "npc_id c = None" "Claimer_Amount c = 0" "npc_amount c = 0"
    using claimer_inv_new [of x r addr m time] by (simp_all add: claiming_def claimer_new_def Claimer_Amount_def)
qed

lemma unat_duration: "0 \<le> d \<Longrightarrow> d < 2 ^ 32 \<Longrightarrow> unat (word_of_int d :: uint32) = nat d"
  by (simp add: unsigned_of_int take_bit_int_eq_self)

lemma sint_of_paid: "0 \<le> n \<Longrightarrow> n < 2 ^ 63 \<Longrightarrow> sint (of_int n :: fixed64) = n"
  by (simp add: signed_of_int signed_take_bit_int_eq_self)

section \<open>A node that answers\<close>

text \<open>
  A concrete network: the environment counts the ids that were drawn, the height is 10, every balance 1000. A payment's payload is its
  fields, numbers in unary; the account \<open>''S''\<close> signs, and a transaction is only valid if it is a payment of a positive amount with a fee that is
  not negative, signed by its sender, that has not expired.
\<close>

definition unary :: "nat \<Rightarrow> bytes" where
  "unary n = replicate n (CHR ''x'')"

definition unpack_payment :: "bytes \<Rightarrow> nano_pay_pb option" where
  "unpack_payment b = (case undotted b of
       [Some s, Some r, Some i, Some a, Some e, Some f] \<Rightarrow>
         Some \<lparr>npb_Sender = s, npb_Recipient = r, npb_Id = of_nat (length i), npb_Amount = of_nat (length a),
           npb_TxnExpiration = of_nat (length e), npb_NanoPayExpiration = of_nat (length f)\<rparr>
     | _ \<Rightarrow> None)"

definition pay_ext :: "nat nano_ext" where
  "pay_ext = \<lparr>ToScriptHash = Ok, StringToFixed64 = (\<lambda>s. Ok (of_nat (length s))),
     NewNanoPayTransaction = (\<lambda>s r i a e f. Ok (demo_tx (dotted [s, r, unary (unat i), unary (unat a), unary (unat e), unary (unat f)]))),
     SignTx = (\<lambda>tx. Ok (tx\<lparr>tx_Programs := [''S'']\<rparr>)),
     Unpack = (\<lambda>b. case unpack_payment b of Some p \<Rightarrow> Ok (UNanoPay p) | None \<Rightarrow> Ok UOther),
     Uint160ParseFromBytes = Ok, Uint160_CompareTo = (\<lambda>a b. if a = b then 0 else 1), Uint160_ToAddress = Ok,
     VerifyTransaction = (\<lambda>tx h. case unpack_payment (tx_Payload tx) of
         Some p \<Rightarrow> if tx_Programs tx = [npb_Sender p] \<and> 0 <s npb_Amount p \<and> 0 \<le>s tx_Fee tx \<and> h < npb_TxnExpiration p then Ok ()
           else Err (ExternalError ''verify'')
       | None \<Rightarrow> Err (ExternalError ''verify'')),
     randUint64 = (\<lambda>w. (of_nat w, Suc w)), now = (\<lambda>w. (0, w))\<rparr>"

definition pay_rpc :: "nat rpc_client" where
  "pay_rpc = \<lparr>rpcGetNonce = (\<lambda>b. ret 0), rpcGetNonceByAddress = (\<lambda>a b. ret 0), rpcBalance = ret 1000,
     rpcBalanceByAddress = (\<lambda>a. ret 1000), rpcGetHeight = ret 10,
     rpcGetSubscribers = (\<lambda>t ofs lim m p h. ret \<lparr>sb_Subscribers = [], sb_SubscribersInTxPool = []\<rparr>),
     rpcGetSubscription = (\<lambda>t a. ret \<lparr>sn_Meta = [], sn_ExpiresAt = 0\<rparr>), rpcGetSubscribersCount = (\<lambda>t h. ret 0),
     rpcGetRegistrant = (\<lambda>n. ret \<lparr>rg_Registrant = [], rg_ExpiresAt = 0\<rparr>), rpcSendRawTransaction = (\<lambda>tx. ret ''hash'')\<rparr>"

definition drawn :: "nat \<Rightarrow> uint64 option" where
  "drawn w = (case w of 0 \<Rightarrow> None | Suc i \<Rightarrow> Some (of_nat i))"

lemma unpack_packed:
  "unpack_payment (dotted [s, r, unary (unat i), unary (unat a), unary (unat e), unary (unat f)]) =
    Some \<lparr>npb_Sender = s, npb_Recipient = r, npb_Id = i, npb_Amount = a, npb_TxnExpiration = e, npb_NanoPayExpiration = f\<rparr>"
  by (simp add: unpack_payment_def undotted_dotted unary_def)

lemma pay_ext_laws: "pay_laws pay_ext ''S'' ''S'' ''R''"
  by (simp add: pay_laws_def pay_ext_def demo_tx_def unpack_packed)

lemma pay_network_laws: "network_laws pay_ext pay_rpc pay_rpc (\<lambda>w. True) (\<lambda>w. 10) drawn ''S'' 10 1000"
  by (auto simp: network_laws_def pay_ext_def pay_rpc_def drawn_def ret_def split: nat.split)

section \<open>Properties\<close>



end
