(* ===== verification/Nkn_Example_Throughput.thy ===== *)
theory Nkn_Example_Throughput
  imports Nkn_Errors
begin

text \<open>
  The transfer test of \<^verbatim>\<open>src/examples/session/throughput/main.go\<close>: \<^verbatim>\<open>write\<close> announces a number of bytes in four bytes
  and sends them in blocks of 1024, each byte the low eight bits of its position; \<^verbatim>\<open>read\<close> takes the number and checks
  every byte, whatever the pieces in which the session delivers them. The session is a \<^verbatim>\<open>net.Conn\<close>, whose \<^verbatim>\<open>Read\<close>
  and \<^verbatim>\<open>Write\<close> are parameters; progress output is left out, its divisions are not. Both loops of \<^verbatim>\<open>read\<close> go on as long
  as the session delivers, so that they are partial functions; it is proved when they return.
\<close>

section \<open>The session\<close>

text \<open>\<^verbatim>\<open>Read(b)\<close> is given the length of \<^verbatim>\<open>b\<close> and returns the bytes it has put there.\<close>

record 'w conn_ext =
  nc_Read :: "nat \<Rightarrow> ('w, err, bytes) act"
  nc_Write :: "bytes \<Rightarrow> ('w, err, nat) act"

text \<open>
  A reliable stream without an end: \<open>pending\<close> are the bytes written and not yet read. \<^verbatim>\<open>Read\<close> returns at least one
  of them and not more than asked for, and \<^verbatim>\<open>Write\<close> takes all it is given.
\<close>

definition stream_laws :: "'w conn_ext \<Rightarrow> ('w \<Rightarrow> bytes) \<Rightarrow> bool" where
  "stream_laws x pending \<longleftrightarrow>
     (\<forall>k w. 0 < k \<longrightarrow> pending w \<noteq> [] \<longrightarrow>
        (\<exists>n w'. 0 < n \<and> n \<le> k \<and> n \<le> length (pending w) \<and> nc_Read x k w = (Ok (take n (pending w)), w') \<and> pending w' = drop n (pending w))) \<and>
     (\<forall>b w. \<exists>w'. nc_Write x b w = (Ok (length b), w') \<and> pending w' = pending w @ b)"

section \<open>Numbers in four bytes\<close>

text \<open>\<^verbatim>\<open>binary.LittleEndian\<close>.\<close>

definition PutUint32 :: "uint32 \<Rightarrow> bytes" where
  "PutUint32 v = map (\<lambda>k. char_of (unat v div 256 ^ k mod 256)) [0, 1, 2, 3]"

fun Uint32 :: "bytes \<Rightarrow> uint32" where
  "Uint32 (a # b # c # d # _) = word_of_nat (of_char a + 256 * of_char b + 65536 * of_char c + 16777216 * of_char d)"
| "Uint32 _ = 0"

lemma four_digits:
  fixes n :: nat
  assumes "n = r + 256 * a" and "a = s + 256 * b" and "b = t + 256 * u"
  shows "n = r + 256 * s + 65536 * t + 16777216 * u"
  using assms by simp

lemma Uint32_PutUint32: "Uint32 (PutUint32 v @ bs) = v"
proof -
  let ?n = "unat v"
  let ?a = "?n div 256"
  let ?b = "?a div 256"
  have d: "?n div 65536 = ?b" "?n div 16777216 = ?b div 256" by (simp_all add: div_mult2_eq [symmetric])
  have "?b div 256 < 256" using unsigned_less [of v, where ?'a = nat] by (simp add: div_mult2_eq [symmetric] less_mult_imp_div_less)
  moreover have "?n = ?n mod 256 + 256 * (?a mod 256) + 65536 * (?b mod 256) + 16777216 * (?b div 256)"
    by (rule four_digits; rule mod_mult_div_eq [symmetric])
  ultimately have "?n = ?n mod 256 + 256 * (?a mod 256) + 65536 * (?b mod 256) + 16777216 * (?b div 256 mod 256)"
    by (simp only: mod_less)
  then show ?thesis by (simp add: PutUint32_def d flip: of_nat_add of_nat_mult)
qed

lemma length_PutUint32 [simp]: "length (PutUint32 v) = 4"
  by (simp add: PutUint32_def)

section \<open>Reading\<close>

definition byte_at :: "nat \<Rightarrow> char" where "byte_at k = char_of (k mod 256)"

definition pattern :: "nat \<Rightarrow> nat \<Rightarrow> bytes" where "pattern pos n = map byte_at [pos ..< pos + n]"

partial_function (option) read_header :: "'w conn_ext \<Rightarrow> bytes \<Rightarrow> 'w \<Rightarrow> (bytes result \<times> 'w) option" where
  "read_header x b w =
     (case nc_Read x (4 - length b) w of
        (Ok bs, w') \<Rightarrow> if length (b @ bs) = 4 then Some (Ok (b @ bs), w') else read_header x (b @ bs) w'
      | (Err e, w') \<Rightarrow> Some (Err e, w')
      | (Panic p, w') \<Rightarrow> Some (Panic p, w'))"

definition wrong_byte :: "nat \<Rightarrow> char \<Rightarrow> err" where
  "wrong_byte k c = ExternalError (''byte '' @ Itoa (int k) @ '' should be '' @ Itoa (int (k mod 256)) @ '', got '' @ Itoa (int (of_char c)))"

fun check_bytes :: "nat \<Rightarrow> bytes \<Rightarrow> nat result" where
  "check_bytes received [] = Ok received"
| "check_bytes received (c # bs) = (if c \<noteq> byte_at received then Err (wrong_byte received c) else check_bytes (received + 1) bs)"

text \<open>The progress line divides by the announced number.\<close>

partial_function (option) read_data :: "'w conn_ext \<Rightarrow> nat \<Rightarrow> nat \<Rightarrow> 'w \<Rightarrow> (unit result \<times> 'w) option" where
  "read_data x numBytes received w =
     (case nc_Read x 1024 w of
        (Ok bs, w') \<Rightarrow>
          (case check_bytes received bs of
             Ok received' \<Rightarrow>
               if numBytes = 0 then Some (Panic IntegerDivideByZero, w')
               else if received' = numBytes then Some (Ok (), w')
               else read_data x numBytes received' w'
           | Err e \<Rightarrow> Some (Err e, w')
           | Panic p \<Rightarrow> Some (Panic p, w'))
      | (Err e, w') \<Rightarrow> Some (Err e, w')
      | (Panic p, w') \<Rightarrow> Some (Panic p, w'))"

definition session_read :: "'w conn_ext \<Rightarrow> 'w \<Rightarrow> (unit result \<times> 'w) option" where
  "session_read x w =
     (case read_header x [] w of
        None \<Rightarrow> None
      | Some (Ok b, w') \<Rightarrow> read_data x (unat (Uint32 b)) 0 w'
      | Some (Err e, w') \<Rightarrow> Some (Err e, w')
      | Some (Panic p, w') \<Rightarrow> Some (Panic p, w'))"

section \<open>Writing\<close>

definition short_write :: "nat \<Rightarrow> nat \<Rightarrow> err" where
  "short_write n k = ExternalError (''sent '' @ Itoa (int n) @ '' instead of '' @ Itoa (int k) @ '' bytes'')"

fun write_blocks :: "'w conn_ext \<Rightarrow> int \<Rightarrow> nat \<Rightarrow> nat \<Rightarrow> ('w, err, unit) act" where
  "write_blocks x numBytes bytesSent 0 = ret ()"
| "write_blocks x numBytes bytesSent (Suc blocks) =
     (let b = pattern bytesSent 1024 in
      bnd (nc_Write x b) (\<lambda>n.
        if n \<noteq> length b then throw (short_write n (length b))
        else if numBytes = 0 then crash IntegerDivideByZero
        else write_blocks x numBytes (bytesSent + length b) blocks))"

definition session_write :: "'w conn_ext \<Rightarrow> int \<Rightarrow> ('w, err, unit) act" where
  "session_write x numBytes =
     bnd (nc_Write x (PutUint32 (word_of_int numBytes))) (\<lambda>_. write_blocks x numBytes 0 (nat (numBytes div 1024)))"

text \<open>\<^verbatim>\<open>main\<close> takes the amount in units of a megabyte.\<close>

definition amount_bytes :: "int \<Rightarrow> int" where "amount_bytes m = m * 2 ^ 20"

section \<open>What is transferred\<close>

lemma pattern_simps [simp]: "length (pattern pos n) = n" "pattern pos 0 = []"
  by (simp_all add: pattern_def)

lemma pattern_add: "pattern pos (m + n) = pattern pos m @ pattern (pos + m) n"
  using upt_add_eq_append [of pos "pos + m" n] by (simp add: pattern_def add.assoc)

lemma pattern_Suc: "pattern pos (Suc n) = byte_at pos # pattern (Suc pos) n"
  by (simp add: pattern_def upt_conv_Cons del: upt_Suc)

lemma take_pattern: "take k (pattern pos n) = pattern pos (min k n)"
  and drop_pattern: "drop k (pattern pos n) = pattern (pos + k) (n - k)"
  by (cases "k \<le> n"; simp add: pattern_def take_map drop_map)+

lemma check_pattern: "check_bytes pos (pattern pos n) = Ok (pos + n)"
  by (induction n arbitrary: pos) (simp_all add: pattern_Suc)

lemma check_wrong: "c \<noteq> byte_at (pos + n) \<Longrightarrow> check_bytes pos (pattern pos n @ c # bs) = Err (wrong_byte (pos + n) c)"
  by (induction n arbitrary: pos) (simp_all add: pattern_Suc)

lemma stream_read:
  assumes "stream_laws x pending" and "0 < k" and "pending w \<noteq> []"
  shows "\<exists>n w'. 0 < n \<and> n \<le> k \<and> n \<le> length (pending w) \<and> nc_Read x k w = (Ok (take n (pending w)), w') \<and> pending w' = drop n (pending w)"
  using assms unfolding stream_laws_def by blast

lemma stream_write:
  assumes "stream_laws x pending"
  obtains w' where "nc_Write x b w = (Ok (length b), w')" "pending w' = pending w @ b"
  using assms unfolding stream_laws_def by blast

lemma write_blocks_sends:
  assumes "stream_laws x pending" and "numBytes \<noteq> 0"
  shows "\<exists>w'. write_blocks x numBytes sent blocks w = (Ok (), w') \<and> pending w' = pending w @ pattern sent (blocks * 1024)"
proof (induction blocks arbitrary: sent w)
  case (Suc blocks)
  obtain w1 where w1: "nc_Write x (pattern sent 1024) w = (Ok 1024, w1)" "pending w1 = pending w @ pattern sent 1024"
    using stream_write [OF assms(1), of "pattern sent 1024" w] by auto
  from Suc [of "sent + 1024" w1] obtain w2 where
    "write_blocks x numBytes (sent + 1024) blocks w1 = (Ok (), w2)" "pending w2 = pending w1 @ pattern (sent + 1024) (blocks * 1024)" by blast
  with w1 assms(2) show ?case by (simp add: Let_def bnd_Ok pattern_add [of sent 1024])
qed simp

lemma session_write_sends:
  assumes "stream_laws x pending"
  shows "\<exists>w'. session_write x numBytes w = (Ok (), w') \<and>
    pending w' = pending w @ PutUint32 (word_of_int numBytes) @ pattern 0 (nat (numBytes div 1024) * 1024)"
proof -
  obtain w1 where w1: "nc_Write x (PutUint32 (word_of_int numBytes)) w = (Ok 4, w1)" "pending w1 = pending w @ PutUint32 (word_of_int numBytes)"
    using stream_write [OF assms, of "PutUint32 (word_of_int numBytes)" w] by auto
  show ?thesis
  proof (cases "numBytes = 0")
    case False
    from write_blocks_sends [OF assms False, of 0 "nat (numBytes div 1024)" w1] w1 show ?thesis
      by (auto simp: session_write_def bnd_Ok)
  qed (use w1 in \<open>simp add: session_write_def bnd_Ok\<close>)
qed

lemma read_header_reads:
  assumes "stream_laws x pending" and "pending w = hdr @ rest" and "length (b @ hdr) = 4" and "hdr \<noteq> []"
  shows "\<exists>w'. read_header x b w = Some (Ok (b @ hdr), w') \<and> pending w' = rest"
  using assms(2-4)
proof (induction "length hdr" arbitrary: hdr b w rule: less_induct)
  case less
  obtain n w1 where n: "0 < n" "n \<le> 4 - length b" "nc_Read x (4 - length b) w = (Ok (take n (pending w)), w1)" "pending w1 = drop n (pending w)"
    using stream_read [OF assms(1), of "4 - length b" w] less.prems by (metis add_diff_cancel_left' append_is_Nil_conv length_append length_greater_0_conv)
  have le: "n \<le> length hdr" using n(2) less.prems(2) by simp
  show ?case
  proof (cases "n = length hdr")
    case True
    with n less.prems show ?thesis by (subst read_header.simps) simp
  next
    case False
    with less.hyps [of "drop n hdr" w1 "b @ take n hdr"] n le less.prems show ?thesis
      by (subst read_header.simps) simp
  qed
qed


lemma read_step:
  assumes "stream_laws x pending" and "pending w \<noteq> []"
  shows "\<exists>n w'. 0 < n \<and> n \<le> length (pending w) \<and> pending w' = drop n (pending w) \<and>
    (\<forall>numBytes received. read_data x numBytes received w =
       (case check_bytes received (take n (pending w)) of
          Ok received' \<Rightarrow>
            if numBytes = 0 then Some (Panic IntegerDivideByZero, w')
            else if received' = numBytes then Some (Ok (), w')
            else read_data x numBytes received' w'
        | Err e \<Rightarrow> Some (Err e, w')
        | Panic p \<Rightarrow> Some (Panic p, w')))"
proof -
  obtain n w' where "0 < n" "n \<le> length (pending w)" "nc_Read x 1024 w = (Ok (take n (pending w)), w')" "pending w' = drop n (pending w)"
    using stream_read [OF assms(1) _ assms(2), of 1024] by auto
  then show ?thesis by (intro exI [of _ n] exI [of _ w']) (simp add: read_data.simps [of x])
qed

text \<open>A piece of the expected bytes.\<close>

lemma read_step_pattern:
  assumes "stream_laws x pending" and "pending w = pattern received n" and "0 < n"
  shows "\<exists>k w'. 0 < k \<and> k \<le> n \<and> pending w' = pattern (received + k) (n - k) \<and>
    (\<forall>numBytes. read_data x numBytes received w =
       (if numBytes = 0 then Some (Panic IntegerDivideByZero, w')
        else if received + k = numBytes then Some (Ok (), w') else read_data x numBytes (received + k) w'))"
proof -
  have "pending w \<noteq> []" using assms(2,3) by (metis length_greater_0_conv pattern_simps(1))
  from read_step [OF assms(1) this] obtain k w' where "0 < k" "k \<le> n" "pending w' = drop k (pending w)" and
    r: "\<forall>numBytes. read_data x numBytes received w = (case check_bytes received (take k (pending w)) of
          Ok received' \<Rightarrow>
            if numBytes = 0 then Some (Panic IntegerDivideByZero, w')
            else if received' = numBytes then Some (Ok (), w')
            else read_data x numBytes received' w'
        | Err e \<Rightarrow> Some (Err e, w')
        | Panic p \<Rightarrow> Some (Panic p, w'))" by (auto simp: assms(2))
  then show ?thesis
    by (intro exI [of _ k] exI [of _ w']) (simp add: assms(2) take_pattern drop_pattern check_pattern min_absorb1)
qed

lemma read_data_reads:
  assumes "stream_laws x pending" and "pending w = pattern received n" and "0 < n"
  shows "\<exists>w'. read_data x (received + n) received w = Some (Ok (), w') \<and> pending w' = []"
  using assms(2,3)
proof (induction n arbitrary: received w rule: less_induct)
  case (less n)
  from read_step_pattern [OF assms(1) less.prems] obtain k w1 where k: "0 < k" "k \<le> n" "pending w1 = pattern (received + k) (n - k)" and
    r: "\<forall>nb. read_data x nb received w = (if nb = 0 then Some (Panic IntegerDivideByZero, w1)
          else if received + k = nb then Some (Ok (), w1) else read_data x nb (received + k) w1)" by blast
  show ?case
  proof (cases "k = n")
    case False
    with less.IH [of "n - k" w1 "received + k"] k have "\<exists>w'. read_data x (received + n) (received + k) w1 = Some (Ok (), w') \<and> pending w' = []"
      by (simp add: add.assoc)
    with r k False show ?thesis by simp
  qed (use r k in simp)
qed

text \<open>A byte that is not the expected one is found, wherever the pieces begin and end.\<close>

lemma read_data_wrong:
  assumes "stream_laws x pending" and "pending w = pattern received n @ c # rest" and "c \<noteq> byte_at (received + n)" and "received + n < numBytes"
  shows "\<exists>w'. read_data x numBytes received w = Some (Err (wrong_byte (received + n) c), w')"
  using assms(2-4)
proof (induction n arbitrary: received w rule: less_induct)
  case (less n)
  have "pending w \<noteq> []" using less.prems(1) by simp
  from read_step [OF assms(1) this] obtain k w1 where k: "0 < k" "pending w1 = drop k (pending w)" and
    r: "\<forall>nb. read_data x nb received w = (case check_bytes received (take k (pending w)) of
          Ok received' \<Rightarrow>
            if nb = 0 then Some (Panic IntegerDivideByZero, w1)
            else if received' = nb then Some (Ok (), w1)
            else read_data x nb received' w1
        | Err e \<Rightarrow> Some (Err e, w1)
        | Panic p \<Rightarrow> Some (Panic p, w1))" by blast
  show ?case
  proof (cases "k \<le> n")
    case True
    with k less.prems(1) have p: "take k (pending w) = pattern received k" "pending w1 = pattern (received + k) (n - k) @ c # rest"
      by (simp_all add: take_pattern drop_pattern min_def)
    from less.IH [OF _ p(2)] less.prems(2,3) True k(1)
    have "\<exists>w'. read_data x numBytes (received + k) w1 = Some (Err (wrong_byte (received + n) c), w')" by (simp add: add.assoc)
    with r p(1) less.prems(3) True show ?thesis by (simp add: check_pattern)
  next
    case False
    then have "take k (pending w) = pattern received n @ c # take (k - n - 1) rest" using less.prems(1) by (simp add: take_Cons')
    with r less.prems(2) show ?thesis by (simp add: check_wrong)
  qed
qed

lemma read_data_zero:
  assumes "stream_laws x pending" and "pending w = pattern received n" and "0 < n"
  shows "\<exists>w'. read_data x 0 received w = Some (Panic IntegerDivideByZero, w')"
  using read_step_pattern [OF assms] by auto

lemma session_read_starts:
  assumes "stream_laws x pending" and "pending w = PutUint32 v @ rest"
  shows "\<exists>w'. session_read x w = read_data x (unat v) 0 w' \<and> pending w' = rest"
proof -
  have "PutUint32 v \<noteq> []" by (simp add: PutUint32_def)
  with read_header_reads [OF assms(1,2), of "[]"] obtain w' where "read_header x [] w = Some (Ok (PutUint32 v), w')" "pending w' = rest" by auto
  then show ?thesis using Uint32_PutUint32 [of v "[]"] by (intro exI [of _ w']) (simp add: session_read_def)
qed

section \<open>Properties\<close>

text \<open>
  C24: A transfer over a reliable stream succeeds: when a positive multiple of 1024 bytes below \<open>2\<^sup>3\<^sup>2\<close> is written to a
  session, both \<^verbatim>\<open>write\<close> and then \<^verbatim>\<open>read\<close> at the other side return without an error, whatever the pieces in which the
  session delivers the bytes, and nothing is left in it.
\<close>

theorem throughput_roundtrip:
  assumes "stream_laws x pending" and "pending w = []" and "0 < numBytes" and "numBytes < 2 ^ 32" and "1024 dvd numBytes"
  shows "\<exists>w1 w2. session_write x numBytes w = (Ok (), w1) \<and> session_read x w1 = Some (Ok (), w2) \<and> pending w2 = []"
proof -
  from session_write_sends [OF assms(1), of numBytes w] assms(2) obtain w1 where
    w1: "session_write x numBytes w = (Ok (), w1)" "pending w1 = PutUint32 (word_of_int numBytes) @ pattern 0 (nat (numBytes div 1024) * 1024)" by auto
  have n: "nat (numBytes div 1024) * 1024 = nat numBytes" using assms(3,5) by (simp flip: nat_mult_distrib add: nat_eq_iff2)
  have u: "unat (word_of_int numBytes :: uint32) = nat numBytes" using assms(3,4) by (simp add: unsigned_of_int take_bit_int_eq_self)
  from session_read_starts [OF assms(1) w1(2)] obtain v where
    v: "session_read x w1 = read_data x (nat numBytes) 0 v" "pending v = pattern 0 (nat numBytes)" by (auto simp: n u)
  from read_data_reads [OF assms(1) v(2)] assms(3) v(1) w1(1) show ?thesis by auto
qed


text \<open>A stream that is a list of bytes, delivered in pieces of at most 300.\<close>

definition pipe :: "bytes conn_ext" where
  "pipe = \<lparr>nc_Read = (\<lambda>k w. if w = [] then (Err (ExternalError ''EOF''), w) else (Ok (take (min k 300) w), drop (min k 300) w)),
           nc_Write = (\<lambda>b w. (Ok (length b), w @ b))\<rparr>"

lemma pipe_laws: "stream_laws pipe (\<lambda>w. w)"
  unfolding stream_laws_def
proof (intro conjI allI impI)
  fix k :: nat and w :: bytes
  assume "0 < k" "w \<noteq> []"
  then show "\<exists>n w'. 0 < n \<and> n \<le> k \<and> n \<le> length w \<and> nc_Read pipe k w = (Ok (take n w), w') \<and> w' = drop n w"
    by (intro exI [of _ "min (min k 300) (length w)"]) (simp add: pipe_def min_def)
qed (simp add: pipe_def)

theorem throughput_roundtrip_witness:
  "\<exists>w1 w2. session_write pipe 2048 [] = (Ok (), w1) \<and> session_read pipe w1 = Some (Ok (), w2) \<and> w2 = []"
  using throughput_roundtrip [OF pipe_laws, of "[]" 2048] by simp

text \<open>
  A transfer that goes wrong is noticed: when the first \<open>n\<close> bytes after the announced number are the expected ones
  and the next one, which is still within the number, is not, \<^verbatim>\<open>read\<close> returns the error that names this byte, whatever
  the pieces in which the session delivers the bytes and whatever follows.
\<close>

theorem throughput_wrong_byte:
  assumes "stream_laws x pending" and "pending w = PutUint32 v @ pattern 0 n @ c # rest" and "c \<noteq> byte_at n" and "n < unat v"
  shows "\<exists>w'. session_read x w = Some (Err (wrong_byte n c), w')"
proof -
  from session_read_starts [OF assms(1,2)] obtain w1 where
    w1: "session_read x w = read_data x (unat v) 0 w1" "pending w1 = pattern 0 n @ c # rest" by blast
  from read_data_wrong [OF assms(1) w1(2)] assms(3,4) w1(1) show ?thesis by simp
qed

theorem throughput_wrong_byte_witness:
  "\<exists>w'. session_read pipe (PutUint32 1024 @ pattern 0 500 @ CHR ''x'' # pattern 501 523) = Some (Err (wrong_byte 500 (CHR ''x'')), w')"
proof -
  have "CHR ''x'' \<noteq> byte_at 500" by code_simp
  with throughput_wrong_byte [OF pipe_laws refl, of "CHR ''x''" 500 1024 "pattern 501 523"] show ?thesis by simp
qed

text \<open>
  The announced number has 32 bits: when 4096 megabytes or a multiple of it are transferred, the number announced
  is zero and \<^verbatim>\<open>read\<close> panics with a division by zero in its progress line when it gets the first bytes.
\<close>

theorem throughput_number_wraps:
  assumes "stream_laws x pending" and "pending w = []" and "0 < m" and "4096 dvd m"
  shows "\<exists>w1 w2. session_write x (amount_bytes m) w = (Ok (), w1) \<and> session_read x w1 = Some (Panic IntegerDivideByZero, w2)"
proof -
  from assms(4) obtain k where k: "m = 4096 * k" by blast
  with assms(3) have a: "amount_bytes m = k * 2 ^ 32" "0 < k" by (simp_all add: amount_bytes_def)
  have z: "(word_of_int (amount_bytes m) :: uint32) = 0" unfolding a(1) by (rule word_of_int_eq_0_iff [THEN iffD2]) simp
  from session_write_sends [OF assms(1), of "amount_bytes m" w] assms(2) obtain w1 where
    w1: "session_write x (amount_bytes m) w = (Ok (), w1)" "pending w1 = PutUint32 0 @ pattern 0 (nat (amount_bytes m div 1024) * 1024)" by (auto simp: z)
  from session_read_starts [OF assms(1) w1(2)] obtain w2 where
    w2: "session_read x w1 = read_data x 0 0 w2" "pending w2 = pattern 0 (nat (amount_bytes m div 1024) * 1024)" by auto
  have "0 < nat (amount_bytes m div 1024) * 1024" using a by simp
  from read_data_zero [OF assms(1) w2(2) this] w2(1) w1(1) show ?thesis by auto
qed

theorem throughput_number_wraps_witness:
  "\<exists>w1 w2. session_write pipe (amount_bytes 4096) [] = (Ok (), w1) \<and> session_read pipe w1 = Some (Panic IntegerDivideByZero, w2)"
  using throughput_number_wraps [OF pipe_laws, of "[]" 4096] by simp

end
