(* ===== verification/Nkn_Example_Scores.thy ===== *)
theory Nkn_Example_Scores
  imports Nkn_MultiClient
begin

text \<open>
  The table of connection scores that \<^verbatim>\<open>src/examples/prefer_stable/main.go\<close> prints for a multiclient: \<^verbatim>\<open>calculateScore\<close>,
  which says to compute the score of \<^verbatim>\<open>MultiClient.CalculateClientScore\<close>, and \<^verbatim>\<open>displayClientScores\<close>, which sorts the
  sub-clients by it and marks the one that is "likely to be selected" by the policy that prefers stable
  clients; and the names of states and policies in this example and in \<^verbatim>\<open>src/examples/cross_send/main.go\<close>. Shown is
  how far the table agrees with the choice that the multiclient makes. Layout and printing are left out; scores are
  rational numbers, as in the multiclient.
\<close>

section \<open>Names\<close>

definition getStateString :: "int32 \<Rightarrow> string" where
  "getStateString state =
     (if state = ConnConnecting then ''Connecting''
      else if state = ConnConnected then ''Connected''
      else if state = ConnDisconnected then ''Disconnected''
      else ''Unknown'')"

definition getPolicyString :: "int32 \<Rightarrow> string" where
  "getPolicyString policy =
     (if policy = CrossSendPolicyNone then ''Default (No cross send)''
      else if policy = CrossSendPolicyAnyConnected then ''AnyConnected (Any connected line sends)''
      else if policy = CrossSendPolicyAllConnected then ''BroadcastAllConnected (Broadcast all connected lines)''
      else if policy = CrossSendPolicyPreferStable then ''PreferStable (Select most stable line)''
      else ''Unknown'')"

section \<open>The table\<close>

definition calculateScore :: "int64 \<Rightarrow> int \<Rightarrow> int \<Rightarrow> rat" where
  "calculateScore connectionDuration reconnectCount sendFailureCount =
     (let score = 1 / 2;
          score = (if 0 <s connectionDuration
                   then (let durationScore = of_int (sint connectionDuration) / of_int hour_ns;
                             durationScore = (if durationScore > 1 then 1 else durationScore)
                         in score + durationScore * (4 / 10))
                   else score);
          reconnectPenalty = of_int reconnectCount * (2 / 100);
          reconnectPenalty = (if reconnectPenalty > 1 / 10 then 1 / 10 else reconnectPenalty);
          score = score - reconnectPenalty;
          sendFailurePenalty = of_int sendFailureCount * (1 / 100);
          sendFailurePenalty = (if sendFailurePenalty > 1 / 10 then 1 / 10 else sendFailurePenalty);
          score = score - sendFailurePenalty;
          score = (if score < 0 then 0 else score)
      in if score > 1 then 1 else score)"

record client_score_info =
  si_clientID :: int
  si_state :: string
  si_connectTimeMs :: int64
  si_reconnectCount :: int
  si_sendFailureCount :: int
  si_duration :: int64
  si_score :: rat

definition score_info :: "multi_client \<Rightarrow> int64 \<Rightarrow> sub_client_conn_event \<Rightarrow> client_score_info" where
  "score_info mc t state =
     (let clientID = se_Index state; stats = GetClientStats mc clientID in
      case (se_State state = ConnConnected, stats) of
        (True, Some st) \<Rightarrow>
          (let duration = (t - cs_ConnectTime st) * 1000000 in
           \<lparr>si_clientID = clientID, si_state = getStateString (se_State state), si_connectTimeMs = cs_ConnectTime st,
            si_reconnectCount = cs_ReconnectCount st, si_sendFailureCount = cs_SendFailureCount st, si_duration = duration,
            si_score = calculateScore duration (cs_ReconnectCount st) (cs_SendFailureCount st)\<rparr>)
      | _ \<Rightarrow>
          \<lparr>si_clientID = clientID, si_state = getStateString (se_State state), si_connectTimeMs = 0, si_reconnectCount = 0,
           si_sendFailureCount = 0, si_duration = 0, si_score = 0\<rparr>)"

text \<open>The two nested loops that sort the rows, highest score first.\<close>

definition exchange :: "nat \<Rightarrow> client_score_info list \<Rightarrow> nat \<Rightarrow> client_score_info list" where
  "exchange i xs j = (if si_score (xs ! i) < si_score (xs ! j) then xs[i := xs ! j, j := xs ! i] else xs)"

definition exchange_row :: "client_score_info list \<Rightarrow> nat \<Rightarrow> client_score_info list" where
  "exchange_row xs i = foldl (exchange i) xs [i + 1 ..< length xs]"

definition sort_infos :: "client_score_info list \<Rightarrow> client_score_info list" where
  "sort_infos xs = foldl exchange_row xs [0 ..< length xs - 1]"

definition marked :: "client_score_info list \<Rightarrow> client_score_info \<Rightarrow> bool" where
  "marked scoreInfos info \<longleftrightarrow>
     si_state info = ''Connected'' \<and> si_score info > 0 \<and> length scoreInfos > 0 \<and> si_clientID info = si_clientID (hd scoreInfos)"

definition displayClientScores :: "(int list \<Rightarrow> int list) \<Rightarrow> multi_client \<Rightarrow> int64 \<Rightarrow> (bool \<times> client_score_info) list" where
  "displayClientScores visit mc t =
     (let scoreInfos = sort_infos (map (score_info mc t) (GetAllSubConnStates visit mc)) in
      map (\<lambda>info. (marked scoreInfos info, info)) scoreInfos)"

section \<open>Sorting\<close>

lemma exchange_keeps [simp]: "length (exchange i xs j) = length xs" "k \<noteq> i \<Longrightarrow> k \<noteq> j \<Longrightarrow> exchange i xs j ! k = xs ! k"
  by (simp_all add: exchange_def)

lemma exchange_mset: "i < length xs \<Longrightarrow> j < length xs \<Longrightarrow> mset (exchange i xs j) = mset xs"
  by (simp add: exchange_def mset_swap)

text \<open>The inner loop moves the highest score of the rest to position \<open>i\<close>.\<close>

lemma exchange_run:
  assumes "i < length xs" and "k \<le> length xs"
  shows "let ys = foldl (exchange i) xs [i + 1 ..< k] in length ys = length xs \<and> mset ys = mset xs \<and>
    (\<forall>j < i. ys ! j = xs ! j) \<and> (\<forall>j. i \<le> j \<and> j < k \<longrightarrow> si_score (ys ! j) \<le> si_score (ys ! i))"
  using assms(2)
proof (induction k)
  case (Suc k)
  let ?ys = "foldl (exchange i) xs [i + 1 ..< k]"
  from Suc have ih: "length ?ys = length xs" "mset ?ys = mset xs" "\<And>j. j < i \<Longrightarrow> ?ys ! j = xs ! j"
    "\<And>j. i \<le> j \<Longrightarrow> j < k \<Longrightarrow> si_score (?ys ! j) \<le> si_score (?ys ! i)" by (simp_all add: Let_def)
  show ?case
  proof (cases "i + 1 \<le> k")
    case True
    have "mset (exchange i ?ys k) = mset xs" using exchange_mset [of i ?ys k] ih(1,2) assms(1) Suc.prems by simp
    moreover have "si_score (exchange i ?ys k ! j) \<le> si_score (exchange i ?ys k ! i)" if "i \<le> j" "j < Suc k" for j
      using that ih(1) ih(4) [of j] True Suc.prems assms(1) by (auto simp: exchange_def nth_list_update less_Suc_eq intro: order.trans)
    ultimately show ?thesis using True ih by (simp add: Let_def)
  qed (use ih in \<open>cases "k = i"; auto simp: Let_def less_Suc_eq\<close>)
qed simp

lemma exchange_row_effect:
  assumes "i < length xs"
  shows "length (exchange_row xs i) = length xs" and "mset (exchange_row xs i) = mset xs" and "take i (exchange_row xs i) = take i xs"
    and "\<forall>b \<in> set (drop i (exchange_row xs i)). si_score b \<le> si_score (exchange_row xs i ! i)"
proof -
  from exchange_run [OF assms order.refl] have r: "length (exchange_row xs i) = length xs" "mset (exchange_row xs i) = mset xs"
    "\<And>j. j < i \<Longrightarrow> exchange_row xs i ! j = xs ! j"
    "\<And>j. i \<le> j \<Longrightarrow> j < length xs \<Longrightarrow> si_score (exchange_row xs i ! j) \<le> si_score (exchange_row xs i ! i)"
    by (simp_all add: Let_def exchange_row_def)
  then show "length (exchange_row xs i) = length xs" "mset (exchange_row xs i) = mset xs" "take i (exchange_row xs i) = take i xs"
    using assms by (simp, simp, intro nth_equalityI) simp_all
  show "\<forall>b \<in> set (drop i (exchange_row xs i)). si_score b \<le> si_score (exchange_row xs i ! i)"
    using r(1,4) by (auto simp: in_set_conv_nth)
qed

abbreviation descending :: "client_score_info list \<Rightarrow> bool" where
  "descending \<equiv> sorted_wrt (\<lambda>a b. si_score b \<le> si_score a)"

lemma sort_run:
  assumes "k \<le> length xs"
  shows "let ys = foldl exchange_row xs [0 ..< k] in length ys = length xs \<and> mset ys = mset xs \<and> descending (take k ys) \<and>
    (\<forall>a \<in> set (take k ys). \<forall>b \<in> set (drop k ys). si_score b \<le> si_score a)"
  using assms
proof (induction k)
  case (Suc k)
  let ?ys = "foldl exchange_row xs [0 ..< k]"
  let ?zs = "exchange_row ?ys k"
  from Suc have ih: "length ?ys = length xs" "mset ?ys = mset xs" "descending (take k ?ys)"
    "\<forall>a \<in> set (take k ?ys). \<forall>b \<in> set (drop k ?ys). si_score b \<le> si_score a" by (simp_all add: Let_def)
  have k: "k < length ?ys" using Suc.prems ih(1) by simp
  note e = exchange_row_effect [OF k]
  have "mset (take k ?zs) + mset (drop k ?zs) = mset (take k ?ys) + mset (drop k ?ys)" using e(2) by (simp flip: mset_append)
  then have d: "set (drop k ?zs) = set (drop k ?ys)" using e(3) by (metis add_left_cancel set_mset_mset)
  have t: "take (Suc k) ?zs = take k ?ys @ [?zs ! k]" "drop k ?zs = ?zs ! k # drop (Suc k) ?zs"
    using k e(1,3) by (simp_all add: take_Suc_conv_app_nth Cons_nth_drop_Suc)
  then have "?zs ! k \<in> set (drop k ?ys)" "set (drop (Suc k) ?zs) \<subseteq> set (drop k ?ys)" using d by auto
  then have "descending (take (Suc k) ?zs) \<and> (\<forall>a \<in> set (take (Suc k) ?zs). \<forall>b \<in> set (drop (Suc k) ?zs). si_score b \<le> si_score a)"
    using ih(3,4) e(4) t by (auto simp: sorted_wrt_append)
  with ih(1,2) e(1,2) show ?case by (simp add: Let_def)
qed simp

lemma sort_infos_sorts: "descending (sort_infos xs)" "mset (sort_infos xs) = mset xs"
proof -
  let ?n = "length xs - 1"
  from sort_run [of ?n xs] have r: "length (sort_infos xs) = length xs" "mset (sort_infos xs) = mset xs" "descending (take ?n (sort_infos xs))"
    "\<forall>a \<in> set (take ?n (sort_infos xs)). \<forall>b \<in> set (drop ?n (sort_infos xs)). si_score b \<le> si_score a"
    by (simp_all add: Let_def sort_infos_def)
  have "descending ys" if "length ys \<le> 1" for ys using that by (cases ys) auto
  then have "descending (drop ?n (sort_infos xs))" using r(1) by simp
  then have "descending (take ?n (sort_infos xs) @ drop ?n (sort_infos xs))" using r(3,4) unfolding sorted_wrt_append by blast
  then show "descending (sort_infos xs)" by (simp only: append_take_drop_id)
  show "mset (sort_infos xs) = mset xs" by (rule r(2))
qed


section \<open>The scores\<close>

text \<open>\<^verbatim>\<open>calculateScore\<close> is the score of the multiclient for clients whose connection time is known.\<close>

lemma calculateScore_agrees:
  assumes "cl_Stats c = Some st" and "0 <s cs_ConnectTime st"
  shows "calculateScore ((t - cs_ConnectTime st) * 1000000) (cs_ReconnectCount st) (cs_SendFailureCount st) = CalculateClientScore c t"
  using assms by (simp add: calculateScore_def CalculateClientScore_def duration_score_def penalty_def clamp_score_def Let_def)

lemma CalculateClientScore_pos:
  assumes "cl_Stats c = Some st" and "0 <s cs_ConnectTime st"
  shows "0 < CalculateClientScore c t"
proof -
  have d: "0 \<le> duration_score t (cs_ConnectTime st)"
    by (simp add: duration_score_def Let_def hour_ns_def sless_sint del: of_int_sint)
  have p: "penalty w n \<le> 1 / 10" for w n by (simp add: penalty_def Let_def)
  from d p [of "2 / 100" "cs_ReconnectCount st"] p [of "1 / 100" "cs_SendFailureCount st"] assms show ?thesis
    by (simp add: CalculateClientScore_def clamp_score_def Let_def)
qed

text \<open>Clients that are up have a connection time.\<close>

definition stats_known :: "multi_client \<Rightarrow> bool" where
  "stats_known m \<longleftrightarrow> (\<forall>(i, c) \<in> set (mu_clients m). line_up c \<longrightarrow> (\<exists>st. cl_Stats c = Some st \<and> 0 <s cs_ConnectTime st))"

definition info_of :: "multi_client \<Rightarrow> int64 \<Rightarrow> int \<Rightarrow> client_score_info" where
  "info_of m t i = score_info m t (sub_conn_state m i)"

definition up_client :: "multi_client \<Rightarrow> int \<Rightarrow> client \<Rightarrow> bool" where
  "up_client m i c \<longleftrightarrow> (i, c) \<in> set (mu_clients m) \<and> line_up c"

lemma state_connected: "getStateString s = ''Connected'' \<longleftrightarrow> s = ConnConnected"
  by (simp add: getStateString_def ConnState_defs)

lemma info_of_up:
  assumes "distinct (map fst (mu_clients m))" and "stats_known m" and "up_client m i c"
  shows "si_state (info_of m t i) = ''Connected''" and "si_score (info_of m t i) = CalculateClientScore c t" and "0 < CalculateClientScore c t"
proof -
  from assms(1,3) have c: "map_of (mu_clients m) i = Some c" "line_up c" by (simp_all add: up_client_def)
  from assms(2,3) obtain st where st: "cl_Stats c = Some st" "0 <s cs_ConnectTime st" by (auto simp: stats_known_def up_client_def)
  from c have "se_State (sub_conn_state m i) = ConnConnected" "se_Index (sub_conn_state m i) = i" "GetClientStats m i = Some st"
    by (simp_all add: sub_conn_state_def line_up_def Client_IsClosed_def Let_def GetClientStats_def GetClient_def st)
  then show "si_state (info_of m t i) = ''Connected''" "si_score (info_of m t i) = CalculateClientScore c t"
    using calculateScore_agrees [OF st, of t] by (simp_all add: info_of_def score_info_def Let_def state_connected left_diff_distrib)
  from st show "0 < CalculateClientScore c t" by (rule CalculateClientScore_pos)
qed

lemma info_of_down:
  assumes "\<nexists>c. up_client m i c"
  shows "si_state (info_of m t i) \<noteq> ''Connected''" and "si_score (info_of m t i) = 0"
proof -
  have "se_State (sub_conn_state m i) \<noteq> ConnConnected"
  proof (cases "map_of (mu_clients m) i")
    case (Some c)
    with map_of_SomeD [OF Some] assms show ?thesis
      by (auto simp: up_client_def line_up_def Client_IsClosed_def sub_conn_state_def Let_def ConnState_defs)
  qed (simp add: sub_conn_state_def Let_def ConnState_defs)
  then show "si_state (info_of m t i) \<noteq> ''Connected''" "si_score (info_of m t i) = 0"
    by (simp_all add: info_of_def score_info_def Let_def state_connected split: option.splits)
qed

lemma info_of_id [simp]: "si_clientID (info_of m t i) = i"
  by (simp add: info_of_def score_info_def sub_conn_state_def Let_def split: option.splits bool.splits)


lemma table_rows: "map (score_info m t) (GetAllSubConnStates visit m) = map (info_of m t) (expectedIndices visit m)"
  by (simp_all add: GetAllSubConnStates_def info_of_def)

lemma rows_ids:
  assumes "any_order visit"
  shows "mset (map si_clientID (sort_infos (map (info_of m t) (expectedIndices visit m)))) = mset (expected_ids m)"
proof -
  let ?rows = "map (info_of m t) (expectedIndices visit m)"
  have "mset (map si_clientID (sort_infos ?rows)) = image_mset si_clientID (mset ?rows)" by (simp only: mset_map sort_infos_sorts(2))
  also have "\<dots> = mset (map si_clientID ?rows)" by (simp only: mset_map)
  also have "map si_clientID ?rows = expectedIndices visit m" by (simp add: map_idI)
  finally show ?thesis using mset_expectedIndices [OF assms] by simp
qed

text \<open>The first row is that of a client that is up and that no other beats, if there is one that is up.\<close>

lemma first_row:
  assumes "distinct (map fst (mu_clients m))" and "set (map fst (mu_clients m)) \<subseteq> set (expected_ids m)" and "stats_known m" and "up_client m j d" and "any_order visit"
  shows "\<exists>i c rest. sort_infos (map (info_of m t) (expectedIndices visit m)) = info_of m t i # rest \<and> up_client m i c \<and>
    (\<forall>k e. up_client m k e \<longrightarrow> CalculateClientScore e t \<le> CalculateClientScore c t) \<and> i \<notin> si_clientID ` set rest"
proof -
  let ?rows = "sort_infos (map (info_of m t) (expectedIndices visit m))"
  note srt = sort_infos_sorts [of "map (info_of m t) (expectedIndices visit m)"]
  have members: "set ?rows = info_of m t ` set (expected_ids m)"
    using srt(2) set_expectedIndices [OF assms(5), of m] by (metis image_set set_mset_mset)
  have up_row: "info_of m t k \<in> set ?rows" if "up_client m k e" for k e
    using that assms(2) by (force simp: members up_client_def)
  from up_row [OF assms(4)] obtain r rest where r: "?rows = r # rest" by (cases ?rows) auto
  then obtain i where i: "r = info_of m t i" using members by (metis image_iff list.set_intros(1))
  have best: "CalculateClientScore e t \<le> si_score r" if "up_client m k e" for k e
    using up_row [OF that] srt(1) info_of_up [OF assms(1,3) that, of t] by (auto simp: r)
  have "\<exists>c. up_client m i c" using best [OF assms(4)] info_of_up(3) [OF assms(1,3,4), of t] info_of_down(2) [of m i t] i by fastforce
  then obtain c where c: "up_client m i c" by blast
  have "distinct (map si_clientID ?rows)" using rows_ids [OF assms(5), of m t] by (metis distinct_upto expected_ids_def mset_eq_imp_distinct_iff)
  then have "i \<notin> si_clientID ` set rest" by (simp add: r i)
  with r i c best info_of_up(2) [OF assms(1,3) c, of t] show ?thesis by metis
qed


section \<open>Properties\<close>

text \<open>
  C22: The table of the example agrees with the multiclient's choice: it has one row per sub-client, sorted by the score,
  in whatever order the sub-clients are visited. If a client is up, exactly the first row is marked; it belongs to a client that is
  up and that no other beats by the score of the multiclient. This says nothing of the choice in general: with a tie, an unknown
  connection time or the original client in front, the multiclient may send with others. With the policy that prefers stable clients, a message is sent with this
  client if its score is higher than that of every other client that is up and it is not the original client.
\<close>

theorem display_marks_choice:
  assumes "distinct (map fst (mu_clients m))" and "set (map fst (mu_clients m)) \<subseteq> set (expected_ids m)" and "stats_known m" and "up_client m j d" and "any_order visit"
  shows "\<exists>i c info rest. displayClientScores visit m t = (True, info) # map (Pair False) rest \<and> si_clientID info = i \<and>
    sorted_wrt (\<lambda>a b. si_score b \<le> si_score a) (info # rest) \<and> mset (map si_clientID (info # rest)) = mset (expected_ids m) \<and>
    up_client m i c \<and> (\<forall>k e. up_client m k e \<longrightarrow> CalculateClientScore e t \<le> CalculateClientScore c t) \<and>
    (cc_CrossSendPolicy (mu_config m) = CrossSendPolicyPreferStable \<and> 0 \<le> i \<and>
       (\<forall>k e. up_client m k e \<and> k \<noteq> i \<longrightarrow> CalculateClientScore e t < CalculateClientScore c t) \<longrightarrow> getClientsByPolicy m t = [i])"
proof -
  from first_row [OF assms, of t] obtain i c rest where
    r: "sort_infos (map (info_of m t) (expectedIndices visit m)) = info_of m t i # rest" and c: "up_client m i c" and
    best: "\<forall>k e. up_client m k e \<longrightarrow> CalculateClientScore e t \<le> CalculateClientScore c t" and i: "i \<notin> si_clientID ` set rest" by blast
  have rows: "displayClientScores visit m t = (True, info_of m t i) # map (Pair False) rest"
    using r i info_of_up [OF assms(1,3) c, of t] by (force simp: displayClientScores_def marked_def table_rows Let_def)
  have chosen: "getClientsByPolicy m t = [i]"
    if p: "cc_CrossSendPolicy (mu_config m) = CrossSendPolicyPreferStable" "0 \<le> i"
      and only: "\<forall>k e. up_client m k e \<and> k \<noteq> i \<longrightarrow> CalculateClientScore e t < CalculateClientScore c t"
  proof -
    have "beats t (- 1) (mu_clients m)" using c by (auto simp: beats_up up_client_def)
    from best_client_some [OF this, of "- 1"] obtain b where
      b: "up_client m (best_client t (- 1, - 1) (mu_clients m)) b" "CalculateClientScore c t \<le> CalculateClientScore b t"
      using c by (auto simp: up_client_def)
    with only have "best_client t (- 1, - 1) (mu_clients m) = i" by fastforce
    with p c show ?thesis by (auto simp: getClientsByPolicy_def Let_def CrossSendPolicy_defs up_client_def)
  qed
  have "sorted_wrt (\<lambda>a b. si_score b \<le> si_score a) (info_of m t i # rest)" "mset (map si_clientID (info_of m t i # rest)) = mset (expected_ids m)"
    using sort_infos_sorts(1) [of "map (info_of m t) (expectedIndices visit m)"] rows_ids [OF assms(5), of m t] by (simp_all only: r)
  with rows c best chosen info_of_id [of m t i] show ?thesis by blast
qed

text \<open>Two clients that have been connected for an hour, of which the second has failed to send three times.\<close>

definition demo_stable :: multi_client where
  "demo_stable = (demo_multi CrossSendPolicyPreferStable)\<lparr>mu_clients :=
     [(0, demo_line (Some \<lparr>cs_ConnectTime = 1, cs_ReconnectCount = 0, cs_LastReconnect = 0, cs_SendFailureCount = 0\<rparr>)),
      (1, demo_line (Some \<lparr>cs_ConnectTime = 1, cs_ReconnectCount = 0, cs_LastReconnect = 0, cs_SendFailureCount = 3\<rparr>))]\<rparr>"

lemma demo_stable_ups: "up_client demo_stable i c \<longleftrightarrow> (i, c) \<in> set (mu_clients demo_stable)"
  by (auto simp: up_client_def demo_stable_def demo_line_up)

lemma demo_stable_scores:
  "(i, c) \<in> set (mu_clients demo_stable) \<Longrightarrow> CalculateClientScore c 3600001 = (if i = 0 then 9 / 10 else 87 / 100) \<and> (i = 0 \<or> i = 1)"
  by (auto simp: demo_stable_def demo_line_def demo_client_def CalculateClientScore_def duration_score_def penalty_def clamp_score_def
      hour_ns_def sless_sint Let_def)

theorem display_marks_choice_witness:
  "\<exists>info rest. displayClientScores rev demo_stable 3600001 = (True, info) # map (Pair False) rest \<and> si_clientID info = 0 \<and>
     getClientsByPolicy demo_stable 3600001 = [0]"
proof -
  have d: "distinct (map fst (mu_clients demo_stable))" "set (map fst (mu_clients demo_stable)) \<subseteq> set (expected_ids demo_stable)"
    "stats_known demo_stable" "cc_CrossSendPolicy (mu_config demo_stable) = CrossSendPolicyPreferStable"
    by (auto simp: demo_stable_def expected_ids_def demo_multi_def stats_known_def demo_line_def sless_sint)
  have v: "any_order (rev :: int list \<Rightarrow> int list)" by (simp add: any_order_def)
  obtain c0 where c0: "up_client demo_stable 0 c0" by (auto simp: demo_stable_ups) (auto simp: demo_stable_def)
  from display_marks_choice [OF d(1-3) c0 v, of 3600001] obtain i c info rest where
    r: "displayClientScores rev demo_stable 3600001 = (True, info) # map (Pair False) rest" "si_clientID info = i" "up_client demo_stable i c"
      "\<forall>k e. up_client demo_stable k e \<longrightarrow> CalculateClientScore e 3600001 \<le> CalculateClientScore c 3600001"
      "cc_CrossSendPolicy (mu_config demo_stable) = CrossSendPolicyPreferStable \<and> 0 \<le> i \<and> (\<forall>k e. up_client demo_stable k e \<and> k \<noteq> i \<longrightarrow> CalculateClientScore e 3600001 < CalculateClientScore c 3600001) \<longrightarrow>
         getClientsByPolicy demo_stable 3600001 = [i]" by (elim exE conjE)
  have i: "i = 0" using r(4) [rule_format, OF c0] demo_stable_scores [of i c] demo_stable_scores [of 0 c0] r(3) c0
    by (auto simp: demo_stable_ups split: if_splits)
  have "CalculateClientScore e 3600001 < CalculateClientScore c 3600001" if "up_client demo_stable k e" "k \<noteq> 0" for k e
    using that r(3) demo_stable_scores [of k e] demo_stable_scores [of i c] by (simp add: demo_stable_ups i)
  with r(5) i d(4) have "getClientsByPolicy demo_stable 3600001 = [0]" by auto
  with r(1,2) i show ?thesis by auto
qed

end
