(* ===== verification/Nkn_Example_Wallet.thy ===== *)
theory Nkn_Example_Wallet
  imports Nkn_Wallet Nkn_Address
begin

text \<open>
  The tour of the wallet in \<^verbatim>\<open>src/examples/wallet/main.go\<close>: an account and a wallet with a password, its JSON form and
  the wallet read back from it, the balance, a transaction of each kind, and a first payment through a nano payment
  channel. It composes the operations of \<open>Nkn_Wallet\<close> and \<open>Nkn_NanoPay\<close>. What the program prints is kept as a list
  of records, without their layout. The hash of a transaction belongs to the node's packages and is a parameter; a
  method called on the nil transaction that comes with an error is its value at \<open>None\<close>.
\<close>

section \<open>What it prints\<close>

datatype line =
    VerifyAddress bool
  | VerifyPassword "err option"
  | AssetBalance fixed64
  | Submitted string
  | Printed err

definition say :: "line \<Rightarrow> (line list \<times> 'w, err, unit) act" where
  "say l = upd (\<lambda>ls. ls @ [l])"

record 'w tour_ext =
  tr_vault :: "'w vault_ext"
  tr_nano :: "'w nano_ext"
  tr_tx :: tx_ext
  tr_net :: "'w net_ext"
  Tx_Hash :: "transaction option \<Rightarrow> bytes result"
  ToHexString :: "bytes \<Rightarrow> string"

section \<open>The tour\<close>

text \<open>A method of a wallet that may fill in its keystore, called on a local variable; the result comes with the wallet.\<close>

definition on_wallet :: "wallet \<Rightarrow> (wallet \<times> 'w, err, 'a) act \<Rightarrow> ('w, err, 'a \<times> wallet) act" where
  "on_wallet wal op = (\<lambda>w. case op (wal, w) of (r, (wal', w')) \<Rightarrow> (and_then r (\<lambda>a. Ok (a, wal')), w'))"

definition password_config :: wallet_config where
  "password_config =
    \<lparr>wc_SeedRPCServerAddr = [], wc_RPCTimeout = 0, wc_RPCConcurrency = 0, wc_Password = ''password'', wc_IV = [], wc_MasterKey = [],
     wc_ScryptConfig = \<lparr>sc_Salt = [], sc_N = 0, sc_R = 0, sc_P = 0\<rparr>, wc_HttpDialContext = None\<rparr>"

text \<open>A new wallet and what is read back from its JSON form; the two checks print their outcome and go on.\<close>

definition tour_wallet :: "'w tour_ext \<Rightarrow> (line list \<times> 'w, err, wallet) act" where
  "tour_wallet x =
     bnd (env (NewAccount (tr_vault x) [])) (\<lambda>account.
     bnd (env (NewWallet (tr_vault x) account (Some password_config))) (\<lambda>w.
     bnd (env (on_wallet w (Wallet_ToJSON (tr_vault x)))) (\<lambda>(walletJSON, w).
     bnd (env (WalletFromJSON (tr_vault x) walletJSON (Some password_config))) (\<lambda>walletFromJSON.
     bnd (say (VerifyAddress (VerifyWalletAddress (ToScriptHash (tr_nano x)) (Wallet_Address w) = Ok ()))) (\<lambda>_.
     bnd (attempt (env (on_wallet walletFromJSON (Wallet_VerifyPassword (tr_vault x) ''password'')))
            (\<lambda>err. say (VerifyPassword (Some err))) (\<lambda>_. say (VerifyPassword None))) (\<lambda>_.
     ret w))))))"

definition report :: "('w, err, string) act \<Rightarrow> (line list \<times> 'w, err, unit) act" where
  "report send = bnd (env send) (\<lambda>txid. say (Submitted txid))"

definition tour_transactions :: "'w tour_ext \<Rightarrow> wallet \<Rightarrow> (line list \<times> 'w, err, string) act" where
  "tour_transactions x w =
     (let v = tr_vault x; t = tr_tx x; net = tr_net x in
      bnd (env (Wallet_BalanceContext net w)) (\<lambda>balance.
      bnd (say (AssetBalance balance)) (\<lambda>_.
      bnd (of_res (ProgramHash_ToAddress v (ac_ProgramHash (wa_account w)))) (\<lambda>address.
      bnd (report (Wallet_TransferContext v t net w address ''100'' None)) (\<lambda>_.
      bnd (report (Wallet_RegisterNameContext v t net w ''somename'' None)) (\<lambda>_.
      bnd (report (Wallet_TransferNameContext v t net w ''somename'' ''recipient public key'' None)) (\<lambda>_.
      bnd (report (Wallet_DeleteNameContext v t net w ''somename'' None)) (\<lambda>_.
      bnd (report (Wallet_SubscribeContext v t net w ''identifier'' ''topic'' 10 ''meta'' None)) (\<lambda>_.
      ret address)))))))))"

text \<open>The payment: the hash is taken before the error is looked at.\<close>

definition tour_payment :: "'w tour_ext \<Rightarrow> wallet \<Rightarrow> string \<Rightarrow> (line list \<times> 'w, err, unit) act" where
  "tour_payment x w address =
     bnd (env (Wallet_NewNanoPay (tr_nano x) w address ''0'' 200)) (\<lambda>np.
     (\<lambda>(ls, u). case IncrementAmount (tr_nano x) (wallet_rpc_client (tr_net x) w) ''100'' ''0.1'' (np, u) of
        (Panic p, (_, u')) \<Rightarrow> (Panic p, (ls, u'))
      | (r, (_, u')) \<Rightarrow>
          bnd (of_res (Tx_Hash x (case r of Ok tx \<Rightarrow> Some tx | _ \<Rightarrow> None))) (\<lambda>txHash.
            case r of Err err \<Rightarrow> throw err | _ \<Rightarrow> say (Submitted (ToHexString x txHash))) (ls, u')))"

definition tour :: "'w tour_ext \<Rightarrow> (line list \<times> 'w, err, unit) act" where
  "tour x = bnd (tour_wallet x) (\<lambda>w. bnd (tour_transactions x w) (\<lambda>address. tour_payment x w address))"

definition wallet_main :: "'w tour_ext \<Rightarrow> (line list \<times> 'w, err, unit) act" where
  "wallet_main x = attempt (tour x) (\<lambda>err. say (Printed err)) (\<lambda>_. ret ())"

section \<open>A concrete run\<close>

text \<open>
  A node that answers every request but the one for the height; a request is its method's name. Amounts are the
  lengths of their texts.
\<close>

definition demo_answer_to :: "bytes \<Rightarrow> json" where
  "demo_answer_to method =
     (if method = ''getlatestblockheight'' then JObj [(''error'', JObj [(''code'', JInt (- 1)), (''message'', JStr ''no height'')])]
      else if method = ''getbalancebyaddr'' then JObj [(''result'', JObj [(''amount'', JStr ''0'')])]
      else if method = ''getnoncebyaddr'' then JObj [(''result'', JObj [(''nonce'', JInt 3), (''nonceInTxPool'', JInt 4)])]
      else JObj [(''result'', JStr ''txhash'')])"

definition demo_tour_net :: "unit net_ext" where
  "demo_tour_net = demo_net\<lparr>Json_Print := (\<lambda>j. case j of JObj [a, (k, JStr method), b] \<Rightarrow> Ok method | _ \<Rightarrow> Ok []),
     Json_Parse := (\<lambda>b. Some (demo_answer_to b))\<rparr>"

lemma demo_tour_net_values [simp]: "Tx_Marshal demo_tour_net tx = Ok []" "Parse_Fixed64 demo_tour_net a = Ok 0"
  by (simp_all add: demo_tour_net_def demo_net_def)

definition demo_tour_tx :: tx_ext where
  "demo_tour_tx =
    (let tx = (\<lambda>n f. \<lparr>tx_Payload = ''p'', tx_Nonce = n, tx_Fee = f, tx_Attributes = ''rnd'', tx_Programs = []\<rparr>) in
     demo_tx_ext\<lparr>NewRegisterNameTransaction := (\<lambda>pk name n r f. Ok (tx n f)), NewTransferNameTransaction := (\<lambda>pk r name n f. Ok (tx n f)),
       NewDeleteNameTransaction := (\<lambda>pk name n f. Ok (tx n f)), NewSubscribeTransaction := (\<lambda>pk i t d m n f. Ok (tx n f))\<rparr>)"

definition demo_tour :: "unit tour_ext" where
  "demo_tour =
    \<lparr>tr_vault = demo_vault, tr_nano = demo_ext, tr_tx = demo_tour_tx, tr_net = demo_tour_net,
     Tx_Hash = (\<lambda>tx. case tx of None \<Rightarrow> Panic NilDereference | Some tx \<Rightarrow> Ok (tx_Payload tx)), ToHexString = hex_encode\<rparr>"

definition demo_tour_config :: wallet_config where
  "demo_tour_config = password_config\<lparr>wc_Password := [], wc_SeedRPCServerAddr := DefaultSeedRPCServerAddr\<rparr>"

definition demo_owner :: wallet where "demo_owner = demo_wallet\<lparr>wa_config := demo_tour_config\<rparr>"

lemma demo_tour_wallet:
  "tour_wallet demo_tour ([], ()) = (Ok demo_owner, ([VerifyAddress True, VerifyPassword None], ()))"
proof -
  have n: "NewAccount demo_vault [] () = (Ok demo_account, ())" by (simp add: NewAccount_def demo_vault_def bnd_def)
  have m: "MergeWalletConfig (copy_wallet_config demo_vault) (Some password_config) = Ok (demo_tour_config\<lparr>wc_Password := ''password''\<rparr>)"
    by (simp add: demo_vault_def MergeWalletConfig_def password_config_def GetDefaultWalletConfig_def overlay_def demo_tour_config_def
      DefaultSeedRPCServerAddr_def)
  have e: "erase_secrets (demo_tour_config\<lparr>wc_Password := ''password''\<rparr>) = demo_tour_config"
    by (simp add: erase_secrets_def demo_tour_config_def password_config_def)
  have w: "NewWallet demo_vault demo_account (Some password_config) () = (Ok demo_owner, ())"
    by (simp add: NewWallet_def m e) (simp add: demo_vault_def encrypt_account_def demo_owner_def demo_wallet_def demo_wallet_data_def
      demo_account_def Account_WalletAddress_def demo_tour_config_def password_config_def bnd_def)
  have j: "Wallet_ToJSON demo_vault (demo_owner, ()) = (Ok demo_json, (demo_owner, ()))"
    by (simp add: Wallet_ToJSON_def Wallet_MarshalJSON_def getWalletData_def demo_owner_def demo_wallet_def demo_vault_def
      demo_wallet_data_def demo_json_def bnd_def)
  have f: "WalletFromJSON demo_vault demo_json (Some password_config) () = (Ok demo_owner, ())"
    by (simp add: WalletFromJSON_def m e bnd_def) (simp add: demo_vault_def demo_json_def hex_decode_encode demo_wallet_data_def demo_wallet_def
      demo_account_def demo_owner_def e del: Join.simps hex_encode.simps)
  have v: "Wallet_VerifyPassword demo_vault ''password'' (demo_owner, ()) = (Ok (), (demo_owner, ()))"
    by (simp add: Wallet_VerifyPassword_def getWalletData_def demo_owner_def demo_wallet_def demo_vault_def bnd_def)
  have a: "VerifyWalletAddress (ToScriptHash demo_ext) (Wallet_Address demo_owner) = Ok ()"
    by (simp add: VerifyWalletAddress_def demo_ext_def)
  show ?thesis using n w j f v a
    by (simp add: tour_wallet_def demo_tour_def on_wallet_def say_def bnd_def attempt_def)
qed

lemma demo_call:
  assumes "handle_body demo_tour_net d m r0 = Ok (ans, r)" and "ans \<noteq> NoAnswer"
  shows "RPCCall demo_tour_net m ps d r0 (Wallet_rpc demo_owner) () = (rpc_outcome None ans r, ())"
proof -
  have "Wallet_rpc demo_owner = Some (WalletConfig_RPC demo_tour_config)" by (simp add: Wallet_rpc_def demo_owner_def)
  moreover obtain a as where "rc_SeedRPCServerAddr (WalletConfig_RPC demo_tour_config) = a # as"
    by (cases "rc_SeedRPCServerAddr (WalletConfig_RPC demo_tour_config)")
      (auto simp: WalletConfig_RPC_def demo_tour_config_def DefaultSeedRPCServerAddr_def)
  moreover have "httpPost demo_tour_net a req ms dc () = (Ok req, ())" for req ms dc
    by (simp add: httpPost_def demo_tour_net_def demo_net_def bnd_def)
  moreover have "ctx_Err demo_tour_net () = None" "arrival demo_tour_net n xs () = xs"
    "Json_Print demo_tour_net (JObj [p1, (k, JStr m), p2]) = Ok m" for n xs p1 k p2
    by (simp_all add: demo_tour_net_def demo_net_def)
  ultimately show ?thesis using assms by (cases ans) (simp_all add: RPCCall_def Let_def bnd_def attempt_def)
qed

lemma demo_keys [simp]: "key_eq ''Code'' ''code''" "\<not> key_eq ''Code'' ''message''" "key_eq ''Message'' ''message''"
  by code_simp+

lemma demo_answers:
  "handle_body demo_tour_net dec_balance ''getbalancebyaddr'' [] = Ok (Success, ''0'')"
  "handle_body demo_tour_net dec_nonce ''getnoncebyaddr'' \<lparr>nn_Nonce = 0, nn_NonceInTxPool = 0\<rparr> = Ok (Success, \<lparr>nn_Nonce = 3, nn_NonceInTxPool = 4\<rparr>)"
  "handle_body demo_tour_net dec_string ''sendrawtransaction'' [] = Ok (Success, ''txhash'')"
  "\<exists>er. handle_body demo_tour_net dec_uint ''getlatestblockheight'' 0 = Ok (ErrorAnswer er, 0)"
  by (simp_all add: handle_body_def demo_tour_net_def demo_answer_to_def dec_rpcResp_def at_field_def dec_balance_def dec_nonce_def dec_errResp_def)
    code_simp+

lemma demo_nonce: "sr_GetNonce (wallet_signer demo_vault demo_tour_net demo_owner) True () = (Ok 4, ())"
  by (simp add: wallet_signer_def Wallet_GetNonceContext_def Wallet_GetNonceByAddressContext_def GetNonceContext_def bnd_def
    demo_call [OF demo_answers(2)] rpc_outcome_def)

lemma demo_submits:
  assumes "\<And>n f. \<exists>tx. build n f = Ok tx"
  shows "send_tx demo_tour_tx (wallet_signer demo_vault demo_tour_net demo_owner) GetDefaultTransactionConfig build () = (Ok ''txhash'', ())"
proof -
  obtain tx where tx: "build 4 1 = Ok tx" using assms by blast
  have "sr_SendRawTransaction (wallet_signer demo_vault demo_tour_net demo_owner) signed () = (Ok ''txhash'', ())" for signed
    by (simp add: wallet_signer_def Wallet_SendRawTransactionContext_def SendRawTransactionContext_def demo_call [OF demo_answers(3)]
      rpc_outcome_def bnd_def)
  moreover have "\<exists>signed. sr_SignTransaction (wallet_signer demo_vault demo_tour_net demo_owner) t = Ok signed" for t
    by (simp add: wallet_signer_def Wallet_SignTransaction_def demo_vault_def)
  ultimately have "sign_and_send (wallet_signer demo_vault demo_tour_net demo_owner) c t () = (Ok ''txhash'', ())" for c t
    by (simp add: sign_and_send_def bnd_def) (metis res.case(1))
  with tx demo_nonce show ?thesis
    by (simp add: send_tx_def pick_nonce_def bnd_def GetDefaultTransactionConfig_def) (simp add: demo_tour_tx_def demo_tx_ext_def Let_def)
qed

lemma demo_builds:
  "\<exists>tx. NewTransferAssetTransaction demo_tour_tx p1 p2 n am f = Ok tx" "\<exists>tx. NewRegisterNameTransaction demo_tour_tx pk name n rf f = Ok tx"
  "\<exists>tx. NewTransferNameTransaction demo_tour_tx pk rk name n f = Ok tx" "\<exists>tx. NewDeleteNameTransaction demo_tour_tx pk name n f = Ok tx"
  "\<exists>tx. NewSubscribeTransaction demo_tour_tx pk i t d meta n f = Ok tx"
  by (simp_all add: demo_tour_tx_def demo_tx_ext_def Let_def)

lemma demo_tour_transactions:
  "tour_transactions demo_tour demo_owner (ls, ()) = (Ok ''NKNhash'', (ls @ [AssetBalance 0] @ replicate 5 (Submitted ''txhash''), ()))"
proof -
  have b: "Wallet_BalanceContext demo_tour_net demo_owner () = (Ok 0, ())"
    by (simp add: Wallet_BalanceContext_def Wallet_BalanceByAddressContext_def GetBalanceContext_def demo_call [OF demo_answers(1)]
      rpc_outcome_def bnd_def NewAmount_def)
  have a: "ProgramHash_ToAddress demo_vault (ac_ProgramHash (wa_account demo_owner)) = Ok ''NKNhash''"
    by (simp add: demo_vault_def demo_owner_def demo_wallet_def demo_account_def)
  have m: "MergeTransactionConfig (copy_transaction_config demo_tour_tx) None = Ok GetDefaultTransactionConfig"
    by (simp add: MergeTransactionConfig_def)
  have p: "tx_CreateProgramHash demo_tour_tx pk = Ok pk" "tx_ToScriptHash demo_tour_tx a = Ok a"
    "tx_StringToFixed64 demo_tour_tx s = Ok (of_nat (length s))" for pk a s
    by (simp_all add: demo_tour_tx_def demo_tx_ext_def Let_def)
  note d = bnd_def demo_submits demo_builds
  have "Wallet_TransferContext demo_vault demo_tour_tx demo_tour_net demo_owner a n None () = (Ok ''txhash'', ())" for a n
    using m p by (simp add: Wallet_TransferContext_def TransferContext_def d)
  moreover have "Wallet_RegisterNameContext demo_vault demo_tour_tx demo_tour_net demo_owner n None () = (Ok ''txhash'', ())" for n
    using m by (simp add: Wallet_RegisterNameContext_def RegisterNameContext_def d)
  moreover have "Wallet_TransferNameContext demo_vault demo_tour_tx demo_tour_net demo_owner n k None () = (Ok ''txhash'', ())" for n k
    using m by (simp add: Wallet_TransferNameContext_def TransferNameContext_def d)
  moreover have "Wallet_DeleteNameContext demo_vault demo_tour_tx demo_tour_net demo_owner n None () = (Ok ''txhash'', ())" for n
    using m by (simp add: Wallet_DeleteNameContext_def DeleteNameContext_def d)
  moreover have "Wallet_SubscribeContext demo_vault demo_tour_tx demo_tour_net demo_owner i t k me None () = (Ok ''txhash'', ())" for i t k me
    using m by (simp add: Wallet_SubscribeContext_def SubscribeContext_def d)
  ultimately show ?thesis using a b
    by (simp add: tour_transactions_def demo_tour_def report_def say_def bnd_def numeral_eq_Suc)
qed

section \<open>When the payment fails\<close>

text \<open>
  The hash is taken before the error is looked at, so that what \<^verbatim>\<open>Hash\<close> does with a nil transaction decides: the error of
  \<^verbatim>\<open>IncrementAmount\<close> is reported only if it returns.
\<close>

lemma tour_payment_fails:
  assumes "Wallet_NewNanoPay (tr_nano x) w address ''0'' 200 u = (Ok np, u1)"
    and "IncrementAmount (tr_nano x) (wallet_rpc_client (tr_net x) w) ''100'' ''0.1'' (np, u1) = (Err e, (np', u2))"
  shows "tour_payment x w address (ls, u) = (and_then (Tx_Hash x None) (\<lambda>_. Err e), (ls, u2))"
  using assms by (cases "Tx_Hash x None") (simp_all add: tour_payment_def bnd_def)

text \<open>The run with a node that does not know the height, and a hash that looks into the transaction.\<close>

lemma demo_tour_run:
  "wallet_main demo_tour ([], ()) =
     (Panic NilDereference, ([VerifyAddress True, VerifyPassword None, AssetBalance 0] @ replicate 5 (Submitted ''txhash''), ()))"
proof -
  obtain np where np: "Wallet_NewNanoPay (tr_nano demo_tour) demo_owner ''NKNhash'' ''0'' 200 () = (Ok np, ())" "np_expiration np = 0"
    by (simp add: Wallet_NewNanoPay_def NewNanoPay_def demo_tour_def demo_ext_def bnd_def)
  from demo_answers(4) obtain er where "handle_body demo_tour_net dec_uint ''getlatestblockheight'' (0 :: int32) = Ok (ErrorAnswer er, 0)" by blast
  from demo_call [OF this] obtain e where "GetHeightContext demo_tour_net (Wallet_rpc demo_owner) () = (Err e, ())"
    by (auto simp: GetHeightContext_def rpc_outcome_def)
  with np(2) have i: "IncrementAmount (tr_nano demo_tour) (wallet_rpc_client (tr_net demo_tour) demo_owner) ''100'' ''0.1'' (np, ()) =
      (Err e, (np, ()))"
    by (simp add: IncrementAmount_def np_height_def wallet_rpc_client_def Wallet_GetHeightContext_def demo_tour_def bnd_def attempt_def)
  have "tour_payment demo_tour demo_owner ''NKNhash'' (ls, ()) = (Panic NilDereference, (ls, ()))" for ls
    using tour_payment_fails [OF np(1) i] by (simp add: demo_tour_def)
  then show ?thesis
    by (simp add: wallet_main_def tour_def attempt_def bnd_def demo_tour_wallet demo_tour_transactions)
qed

end
