(* ===== verification/Nkn_Example_Wait.thy ===== *)
theory Nkn_Example_Wait
  imports Nkn_MultiClient
begin

text \<open>
  How the examples get ready: the loops of \<^verbatim>\<open>src/examples/cross_send/main.go\<close> and \<^verbatim>\<open>src/examples/prefer_stable/main.go\<close>
  that poll the sub-clients of a multiclient until enough of them are connected or the time is over, and the address
  that the session examples dial when none is given. The loops are partial functions; it is proved that they return.
  The goroutines of the multiclient run on between two polls, so that its state is read from the environment.
\<close>

section \<open>Waiting for sub-clients\<close>

text \<open>Times are in nanoseconds; \<open>ck_visit\<close> is the order in which the map of sub-clients is visited.\<close>

record 'w clock_ext =
  ck_Now :: "'w \<Rightarrow> int \<times> 'w"
  ck_Sleep :: "int \<Rightarrow> 'w \<Rightarrow> 'w"
  ck_client :: "'w \<Rightarrow> multi_client"
  ck_visit :: "'w \<Rightarrow> int list \<Rightarrow> int list"

definition connectedCount :: "(int list \<Rightarrow> int list) \<Rightarrow> multi_client \<Rightarrow> nat" where
  "connectedCount visit m = length (filter (\<lambda>state. se_State state = ConnConnected) (GetAllSubConnStates visit m))"

definition checkInterval :: int where "checkInterval = 500 * 1000000"

partial_function (option) wait_connected :: "'w clock_ext \<Rightarrow> nat \<Rightarrow> int \<Rightarrow> int \<Rightarrow> 'w \<Rightarrow> (nat \<times> 'w) option" where
  "wait_connected x enough maxWaitTime startTime w =
     (let n = connectedCount (ck_visit x w) (ck_client x w) in
      if enough \<le> n then Some (n, w)
      else (case ck_Now x w of (t, w1) \<Rightarrow>
              if t - startTime > maxWaitTime then Some (n, w1)
              else wait_connected x enough maxWaitTime startTime (ck_Sleep x checkInterval w1)))"

definition cross_send_wait :: "'w clock_ext \<Rightarrow> 'w \<Rightarrow> (nat \<times> 'w) option" where
  "cross_send_wait x w = (case ck_Now x w of (t, w1) \<Rightarrow> wait_connected x 1 (10 * 1000000000) t w1)"

definition prefer_stable_wait :: "'w clock_ext \<Rightarrow> 'w \<Rightarrow> (nat \<times> 'w) option" where
  "prefer_stable_wait x w = (case ck_Now x w of (t, w1) \<Rightarrow> wait_connected x 3 (15 * 1000000000) t w1)"

text \<open>What the clock promises: it does not go back, and a sleep takes at least as long as it should.\<close>

definition clock_laws :: "'w clock_ext \<Rightarrow> ('w \<Rightarrow> int) \<Rightarrow> bool" where
  "clock_laws x time \<longleftrightarrow> (\<forall>w. fst (ck_Now x w) = time w \<and> time w \<le> time (snd (ck_Now x w))) \<and>
     (\<forall>d w. time w + d \<le> time (ck_Sleep x d w))"

lemma wait_connected_returns:
  assumes "clock_laws x time"
  shows "\<exists>n w'. wait_connected x enough maxWait start w = Some (n, w') \<and>
     (enough \<le> n \<and> n = connectedCount (ck_visit x w') (ck_client x w') \<or> maxWait < time w' - start)"
proof (induction "nat (start + maxWait + 1 - time w)" arbitrary: w rule: less_induct)
  case less
  obtain t w1 where t: "ck_Now x w = (t, w1)" by (cases "ck_Now x w")
  with assms have c: "t = time w" "time w \<le> time w1" "time w1 + checkInterval \<le> time (ck_Sleep x checkInterval w1)"
    unfolding clock_laws_def by (metis fst_conv, metis snd_conv, blast)
  note step = wait_connected.simps [of x enough maxWait start w]
  show ?case
  proof (cases "enough \<le> connectedCount (ck_visit x w) (ck_client x w) \<or> t - start > maxWait")
    case True
    then show ?thesis using step t c by (auto simp: Let_def)
  next
    case False
    then have "nat (start + maxWait + 1 - time (ck_Sleep x checkInterval w1)) < nat (start + maxWait + 1 - time w)"
      using c by (simp add: checkInterval_def)
    from less.hyps [OF this] False step t show ?thesis by (simp add: Let_def)
  qed
qed

text \<open>
  Both examples get past their waiting loop, whatever the sub-clients do: the loop ends with as many connected
  sub-clients as it waits for, or after the time it is given.
\<close>

theorem examples_wait_returns:
  assumes "clock_laws x time"
  shows "\<exists>n w'. cross_send_wait x w = Some (n, w') \<and> (1 \<le> n \<or> 10000000000 < time w' - time w)"
    and "\<exists>n w'. prefer_stable_wait x w = Some (n, w') \<and> (3 \<le> n \<or> 15000000000 < time w' - time w)"
proof -
  obtain t w1 where t: "ck_Now x w = (t, w1)" by (cases "ck_Now x w")
  with assms have c: "t = time w" unfolding clock_laws_def by (metis fst_conv)
  from wait_connected_returns [OF assms, of 1 "10 * 1000000000" t w1] t c
  show "\<exists>n w'. cross_send_wait x w = Some (n, w') \<and> (1 \<le> n \<or> 10000000000 < time w' - time w)"
    by (auto simp: cross_send_wait_def)
  from wait_connected_returns [OF assms, of 3 "15 * 1000000000" t w1] t c
  show "\<exists>n w'. prefer_stable_wait x w = Some (n, w') \<and> (3 \<le> n \<or> 15000000000 < time w' - time w)"
    by (auto simp: prefer_stable_wait_def)
qed

text \<open>A multiclient that never connects, and a clock that advances by what one sleeps.\<close>

definition demo_clock :: "int clock_ext" where
  "demo_clock = \<lparr>ck_Now = (\<lambda>w. (w, w)), ck_Sleep = (\<lambda>d w. w + d), ck_client = (\<lambda>w. (demo_multi 0)\<lparr>mu_clients := []\<rparr>), ck_visit = (\<lambda>w xs. xs)\<rparr>"

theorem examples_wait_returns_witness:
  "\<exists>n w'. cross_send_wait demo_clock 7 = Some (n, w') \<and> 10000000000 < w' - 7"
proof -
  have l: "clock_laws demo_clock id" by (simp add: clock_laws_def demo_clock_def)
  have "connectedCount (ck_visit demo_clock w) (ck_client demo_clock w) = 0" for w
    by (simp add: demo_clock_def connectedCount_def GetAllSubConnStates_def expectedIndices_def sub_conn_state_def Let_def ConnConnected_def)
  with wait_connected_returns [OF l, of 1 "10 * 1000000000" 7 7] show ?thesis
    using examples_wait_returns(1) [OF l, of 7] by (auto simp: cross_send_wait_def demo_clock_def)
qed

section \<open>The address to dial\<close>

text \<open>
  Without an address the dialler takes its own and puts the identifier of the listener in the place of its own
  identifier; the index is out of range for an address without a dot.
\<close>

definition listenID :: string where "listenID = ''bob''"

definition default_dial_address :: "string \<Rightarrow> string result" where
  "default_dial_address own = (case SplitN2 own of [_, rest] \<Rightarrow> Ok (listenID @ ''.'' @ rest) | _ \<Rightarrow> Panic IndexOutOfRange)"

lemma default_dial_address_listener:
  "dot \<notin> set ident \<Longrightarrow> default_dial_address (ident @ ''.'' @ pubkey) = Ok (listenID @ ''.'' @ pubkey)"
  by (simp add: default_dial_address_def SplitN2_prefix del: SplitN2.simps)

end
