(* ===== verification/Spec2Isabelle.thy ===== *)
theory Spec2Isabelle
  imports Nkn_Address Nkn_Events Nkn_Resolver Nkn_Config Nkn_Message Nkn_NanoPay Nkn_RPC_Workers Nkn_Wallet
    Nkn_Random Nkn_MultiClient_Race Nkn_MultiClient_Create Nkn_Network Nkn_Payments
    Nkn_Example_Throughput Nkn_Example_Scores Nkn_Example_Wallet Nkn_Example_Wait
begin

text \<open>
  A verification development for the NKN client SDK, the Go package \<^verbatim>\<open>nkn\<close> under \<^verbatim>\<open>src/\<close>. A \<^verbatim>\<open>Client\<close> keeps a
  websocket to a node of the NKN network, sends encrypted messages to other clients and receives theirs;
  a \<^verbatim>\<open>MultiClient\<close> runs several clients of one account at once and adds reliable sessions; a \<^verbatim>\<open>Wallet\<close> keeps
  the account and signs transactions; nano payments are unconfirmed transactions of growing amounts between a
  payer and a claimer; all of them ask nodes of the network through remote procedure calls.

  \<^bold>\<open>How the code is translated.\<close> \<open>Go_Prelude\<close> has the conventions: a function that may fail returns \<open>Ok\<close>, \<open>Err\<close>
  or \<open>Panic\<close>; a method that changes its receiver or its surroundings is an action over the pair of the
  receiver's record and an environment \<open>'w\<close>; \<open>bnd\<close> is sequencing, \<open>attempt\<close> the handling of an error.
  \<open>Go_Strings\<close> and \<open>Go_JSON\<close> are what the code uses of the standard library. Code of other packages (the
  cryptographic box, protobuf, the vault, the transaction pool, websockets, the caches, \<^verbatim>\<open>copier\<close>, \<^verbatim>\<open>ncp\<close>)
  is a field of a parameter record (\<open>box_ext\<close>, \<open>proto_ext\<close>, \<open>vault_ext\<close>, \<open>tx_ext\<close>, \<open>net_ext\<close>, \<open>client_ext\<close>,
  \<open>multi_ext\<close>); what a theorem relies on of it is a named hypothesis (\<open>box_laws\<close>, \<open>proto_laws\<close>, \<open>vault_laws\<close>,
  \<open>msg_cache_laws\<close>, and others), and the witnesses apply the theorems to concrete records in which they hold.

  \<^bold>\<open>Theories and parts of the program.\<close>
  \<^item> \<open>Nkn_Errors\<close> (\<^verbatim>\<open>error.go\<close>), \<open>Nkn_Events\<close> (the event channels of \<^verbatim>\<open>util.go\<close>; the locale \<open>event_channel\<close> is
    their contract, and all four types are interpretations of it), \<open>Nkn_Address\<close> (addresses and the identifiers
    of sub-clients, \<^verbatim>\<open>util.go\<close> and \<^verbatim>\<open>multiclient.go\<close>), \<open>Nkn_Resolver\<close> (\<^verbatim>\<open>resolver.go\<close>), \<open>Nkn_Config\<close> (\<^verbatim>\<open>config.go\<close>),
    \<open>Nkn_Message\<close> (\<^verbatim>\<open>message.go\<close>), \<open>Nkn_Random\<close> (\<^verbatim>\<open>randUint32\<close> and \<^verbatim>\<open>randUint64\<close> of \<^verbatim>\<open>util.go\<close>).
  \<^item> \<open>Nkn_Transaction\<close>, \<open>Nkn_TxOps\<close> and \<open>Nkn_NanoPay\<close> (\<^verbatim>\<open>nanopay.go\<close>, the transaction operations of \<^verbatim>\<open>rpc.go\<close>): the
    locale \<open>tx_signer\<close> is what the operations rely on of a signer; wallet, client and multiclient are
    interpretations. A claimer is a state machine of claims, flushes, closing and its two background loops.
    \<open>Nkn_Payments\<close> composes a payer with a claimer.
  \<^item> \<open>Nkn_RPC\<close> (\<^verbatim>\<open>rpc.go\<close>: the call, and every query) and \<open>Nkn_RPC_Workers\<close>, which has the goroutines of
    \<^verbatim>\<open>RPCCall\<close> as a step relation and shows that \<open>RPCCall\<close>, which handles the responses one after the other,
    describes what they do.
  \<^item> \<open>Nkn_Wallet\<close> (\<^verbatim>\<open>wallet.go\<close> and the accounts of \<^verbatim>\<open>util.go\<close>).
  \<^item> \<open>Nkn_Client\<close> (state, shared keys, encryption of payloads), \<open>Nkn_Client_RPC\<close> (its queries),
    \<open>Nkn_Client_Send\<close> (destinations, batches, writing, publishing), \<open>Nkn_Client_Msg\<close> (\<^verbatim>\<open>Close\<close> and
    \<^verbatim>\<open>handleMessage\<close>) and \<open>Nkn_Client_Conn\<close> (\<^verbatim>\<open>NewClient\<close>, connecting, the goroutines): \<^verbatim>\<open>client.go\<close>.
  \<^item> \<open>Nkn_MultiClient\<close> (state, choice of sub-clients, sending), \<open>Nkn_MultiClient_Recv\<close> (received messages,
    sessions, closing, creation), \<open>Nkn_MultiClient_RPC\<close> (queries, transactions, publishing) and
    \<open>Nkn_MultiClient_Inv\<close> (the invariant and its consequences): \<^verbatim>\<open>multiclient.go\<close>. \<open>Nkn_MultiClient_Race\<close> has the
    receiving loops and \<open>Nkn_MultiClient_Create\<close> the goroutines of \<^verbatim>\<open>NewMultiClient\<close> as step relations on their
    atomic actions; the round of a loop and \<open>NewMultiClient\<close> of the other theories are runs of them.
  \<^item> \<open>Nkn_EndToEnd\<close> and \<open>Nkn_Network\<close> compose them: the first from the sub-clients of a multiclient that sends to the queues of the
    sub-clients of one that receives, and the way back of a reply; the second from there to the application, as a step
    relation in which the arrivals of copies and the actions of the receiving loops interleave in any way.
  \<^item> \<open>Nkn_Example_Throughput\<close> (reader and writer of \<^verbatim>\<open>examples/session/throughput\<close>), \<open>Nkn_Example_Scores\<close> (the table of
    \<^verbatim>\<open>examples/prefer_stable\<close>), \<open>Nkn_Example_Wallet\<close> (all of \<^verbatim>\<open>examples/wallet\<close>) and \<open>Nkn_Example_Wait\<close> (the loops that wait
    for sub-clients, and the address to dial): the parts of the examples that compute something.

  \<^bold>\<open>What is shown.\<close>
  \<^item> State machines: the locale \<open>invariant_system\<close> carries an invariant to all reachable states. It is
    interpreted for the claimer, for a running client (\<open>client_step\<close>: operations, goroutine rounds and reads in
    any order), for a running multiclient (\<open>multi_step\<close>, which contains the steps of its sub-clients), for the
    protocol that the receiving loops refine and for the creation of a multiclient. From the invariants: pending payments are verified and for this recipient, \<^verbatim>\<open>Close\<close> of a client and of a
    multiclient is safe and complete, a multiclient always has its default client.
  \<^item> Messages: encryption and payloads round-trip, from the sender's data to the application of every
    receiver, and between two multiclients, where any non-empty choice of copies, with arrivals and loops interleaved in any
    way, gives the application the message at least once and at most once for each sub-client that got a copy, and a reply
    reaches the call it answers; only messages sealed with the right key are delivered; sends are split into batches within the
    size limit without loss; replies reach the call they answer; a multiclient loses no message and delivers none twice
    through one sub-client, however its loops interleave; it delivers each message once, whichever sub-clients receive it, in
    runs in which no two loops are at the same time between the look-up of an id and its entry, and only there; it opens sessions only for allowed addresses.
  \<^item> Remote calls: the worker pool terminates, has no deadlock and returns what a sequential scan returns; a
    multiclient's query returns the first answer of its servers in order.
  \<^item> Wallets and payments: JSON round trip, erasure of secrets, what a transfer submits, what a claim counts. A payer and
    a claimer agree: over any number of channels and with flushes in between, the claimer counts exactly what is paid, if the
    payments the payer signs from its own account verify until they expire, the nodes answer, the balance covers what is paid, two
    ids drawn in a row differ, and at most one block passes at each of the two steps of a payment.
  \<^item> Connecting: with a bound on the retries it ends, without one it succeeds exactly if some number of
    attempts does; the pauses double up to their maximum. Creating a multiclient ends, with every sub-client
    created or its error recorded.
  \<^item> Examples: the writer and the reader agree over any reliable stream, a wrong byte is found; the table is sorted and
    marks a client that no other beats; the waiting loops end.
  \<^item> Errors of the code as theorems: \<^verbatim>\<open>publish\<close> does not end when the first page of subscribers is full, the
    original client is never preferred, two sub-clients may both deliver a message, creating a multiclient may
    report failure although clients were created, session segments get the local id of another sub-client, messages after \<^verbatim>\<open>Close\<close>, short ciphertexts, missing JSON keys and null
    bodies panic, sending on a closed client panics.

  \<^bold>\<open>Bounds.\<close> No fuel is used. The loops that need not end (\<open>connect_loop\<close>, \<open>publish_loop\<close>, \<open>rand_retry\<close>, \<open>read_header\<close>, \<open>read_data\<close>,
  \<open>wait_connected\<close>) are partial functions
  whose value is \<open>None\<close> when they do not return, and it is proved when they return. Integers of the code's
  32 and 64 bit types are words. Go's \<^verbatim>\<open>int\<close> is \<open>int\<close> where only small numbers occur. A map that is visited by
  \<^verbatim>\<open>range\<close> is an association list whose order is arbitrary; the map of expected ids, which the code builds before it visits
  it, is visited in an order \<open>visit\<close> that is a parameter and may be any (\<open>any_order\<close>). Scores of sub-clients are rational numbers instead of
  floating point numbers.

  \<^bold>\<open>Not modelled.\<close> Generated protobuf code; the \<^verbatim>\<open>main\<close> functions of the examples other than the wallet's, which create
  multiclients, send and print, and the tests; log output; the interior of sessions (\<^verbatim>\<open>ncp\<close>); the
  read limit, read deadline and pong handler of a websocket; cancellation of a context other than that of
  \<^verbatim>\<open>RPCCall\<close>; data races: a method of an object runs to its end before the next one starts, except in
  \<open>Nkn_RPC_Workers\<close>, \<open>Nkn_MultiClient_Race\<close>, \<open>Nkn_Network\<close> and \<open>Nkn_MultiClient_Create\<close>, where goroutines interleave between atomic actions, and in
  the step relations of a client and of a multiclient, where they interleave between methods.
\<close>

end
